theory Spec2Isabelle
  imports Complex_Main "HOL-Library.Word" "HOL-Library.Multiset"
begin

section \<open>The NetFlow collector: data model\<close>

text \<open>
  The development follows \<^verbatim>\<open>netflow/wise_collector.py\<close>: the request handler that
  queues raw datagrams, and the thread \<^verbatim>\<open>ThreadedNetFlowListener\<close> whose \<^verbatim>\<open>run\<close>
  method decodes them, holds back the packets whose template is not known yet and
  pushes the decoded ones to the output queue.

  Time stamps are the values of \<^verbatim>\<open>time.time()\<close>; they are modelled as real numbers.
  A datagram is a list of bytes.
\<close>

type_synonym byte = "8 word"
type_synonym bytes = "byte list"

text \<open>\<^verbatim>\<open>RawPacket = namedtuple('RawPacket', ['ts', 'client', 'data'])\<close>\<close>

record 'c RawPacket =
  ts :: real
  client :: 'c
  data :: bytes

text \<open>
  What \<^verbatim>\<open>run\<close> reads of a decoded export: \<^verbatim>\<open>export.header.version\<close>,
  \<^verbatim>\<open>export.header.count\<close> (every version but 10), \<^verbatim>\<open>export.header.length\<close>
  (version 10) and \<^verbatim>\<open>export.contains_new_templates\<close> (versions 9 and 10). The flows
  are opaque to the collector loop.
\<close>

record header =
  version :: int
  count_h :: int
  length_h :: int

record 'f ExportPacket =
  header :: header
  contains_new_templates :: bool
  flows :: 'f

text \<open>\<^verbatim>\<open>ParsedPacket = namedtuple('ParsedPacket', ['ts', 'client', 'export'])\<close>\<close>

record ('c, 'f) ParsedPacket =
  ts :: real
  client :: 'c
  export :: "'f ExportPacket"

text \<open>
  \<^verbatim>\<open>templates = {"netflow": {}, "ipfix": {}}\<close>: two dictionaries, which the decoder
  updates in place. Their keys and values belong to the decoder.
\<close>

record ('k, 'v) templates =
  netflow :: "'k \<rightharpoonup> 'v"
  ipfix :: "'k \<rightharpoonup> 'v"

text \<open>
  The exceptions \<^verbatim>\<open>parse_packet\<close> can raise: the three that \<^verbatim>\<open>run\<close> names in its
  handlers, and any other one (a \<^verbatim>\<open>struct.error\<close> on a truncated datagram, say),
  kept with its name.
\<close>

datatype exn =
    UnknownExportVersion
  | V9TemplateNotRecognized
  | IPFIXTemplateNotRecognized
  | OtherException string

text \<open>
  \<^verbatim>\<open>parse_packet(pkt.data, templates)\<close> is imported from \<^verbatim>\<open>.utils\<close>. It is a parameter
  of the model: a function from the datagram and the templates to the export or the
  exception raised, together with the templates as the call leaves them.
\<close>

type_synonym ('k, 'v, 'f) decoder =
  "bytes \<Rightarrow> ('k, 'v) templates \<Rightarrow> (exn + 'f ExportPacket) \<times> ('k, 'v) templates"

text \<open>The calls to \<^verbatim>\<open>logger\<close>, with the values they format.\<close>

datatype 'c log_entry =
    Debug_Received nat 'c
  | Error_ignoring_the_packet
  | Warning_Dropping_old
  | Debug_Failed_will_reattempt
  | Debug_Processed_IPFIX int
  | Debug_Processed int int
  | Debug_Received_new_templates
  | Debug_Will_reattempt nat
  | Info_Shutting_down

text \<open>
  The thread of \<^verbatim>\<open>ThreadedNetFlowListener\<close>: not started yet, inside the
  \<^verbatim>\<open>while\<close> loop of \<^verbatim>\<open>run\<close>, returned from \<^verbatim>\<open>run\<close>, or ended by an exception that
  \<^verbatim>\<open>run\<close> did not catch.
\<close>

datatype run_status = NotStarted | Running | Exited | Raised exn

text \<open>
  The listener object and the local variables of \<^verbatim>\<open>run\<close>. The queues are lists
  with the next element to \<^verbatim>\<open>get\<close> at the head; \<open>output_q\<close> (the queue
  \<^verbatim>\<open>self.output\<close>) holds the \<^verbatim>\<open>ParsedPacket\<close>s that were put and that no \<^verbatim>\<open>get\<close> has
  taken, in order; the events of a run take none. \<^verbatim>\<open>serving\<close> says that
  \<^verbatim>\<open>server.serve_forever\<close> is still running (the thread \<^verbatim>\<open>self.thread\<close>),
  \<^verbatim>\<open>socket_open\<close> that \<^verbatim>\<open>server_close\<close> has not been called.
\<close>

record ('c, 'k, 'v, 'f) listener =
  input :: "'c RawPacket list"
  output_q :: "('c, 'f) ParsedPacket list"
  shutdown :: bool
  serving :: bool
  socket_open :: bool
  status :: run_status
  templates :: "('k, 'v) templates"
  to_retry :: "'c RawPacket list"
  logged :: "'c log_entry list"

section \<open>The operations\<close>

text \<open>\<^verbatim>\<open>PACKET_TIMEOUT = 60 * 60\<close>\<close>

definition PACKET_TIMEOUT :: real where
  "PACKET_TIMEOUT = 60 * 60"

text \<open>\<^verbatim>\<open>Queue.put\<close> on a queue without bound.\<close>

definition put :: "'a list \<Rightarrow> 'a \<Rightarrow> 'a list" where
  "put q x = q @ [x]"

text \<open>
  \<^verbatim>\<open>QueuingRequestHandler.handle\<close>, for a datagram \<open>d\<close> from \<open>c\<close> when the clock
  reads \<open>now\<close>.
\<close>

definition handle ::
  "real \<Rightarrow> 'c \<Rightarrow> bytes \<Rightarrow> ('c, 'k, 'v, 'f) listener \<Rightarrow> ('c, 'k, 'v, 'f) listener" where
  "handle now c d s =
     s\<lparr>input := put (input s) \<lparr>RawPacket.ts = now, client = c, data = d\<rparr>,
       logged := logged s @ [Debug_Received (length d) c]\<rparr>"

text \<open>
  \<^verbatim>\<open>ThreadedNetFlowListener.__init__\<close>: both queues empty, the server listening and
  its thread started, the shutdown event clear. The locals of \<^verbatim>\<open>run\<close> get their
  values when the thread starts.
\<close>

definition init_listener :: "('c, 'k, 'v, 'f) listener" where
  "init_listener =
     \<lparr>input = [], output_q = [], shutdown = False, serving = True, socket_open = True,
      status = NotStarted,
      templates = \<lparr>netflow = Map.empty, ipfix = Map.empty\<rparr>,
      to_retry = [], logged = []\<rparr>"

text \<open>
  The exceptions of the Python library that the calls of the listener's owner can
  raise: \<^verbatim>\<open>RuntimeError\<close> and \<^verbatim>\<open>OverflowError\<close> from the threads,
  \<^verbatim>\<open>ValueError\<close> and \<^verbatim>\<open>queue.Empty\<close> from the output queue.
\<close>

datatype py_error = RuntimeError | OverflowError | ValueError | Empty

text \<open>
  \<^verbatim>\<open>Thread.start\<close>, which runs \<^verbatim>\<open>run\<close> up to its loop: a thread is started once,
  a second call raises \<^verbatim>\<open>RuntimeError\<close>.
\<close>

definition start ::
  "('c, 'k, 'v, 'f) listener \<Rightarrow> py_error + ('c, 'k, 'v, 'f) listener" where
  "start s =
     (if status s = NotStarted
      then Inr (s\<lparr>status := Running,
                  templates := \<lparr>netflow = Map.empty, ipfix = Map.empty\<rparr>,
                  to_retry := []\<rparr>)
      else Inl RuntimeError)"

text \<open>\<^verbatim>\<open>ThreadedNetFlowListener.stop\<close>\<close>

definition stop :: "('c, 'k, 'v, 'f) listener \<Rightarrow> ('c, 'k, 'v, 'f) listener" where
  "stop s = s\<lparr>logged := logged s @ [Info_Shutting_down], shutdown := True\<rparr>"

text \<open>
  The \<^verbatim>\<open>finally\<close> clause of \<^verbatim>\<open>run\<close>: \<^verbatim>\<open>self.server.shutdown()\<close>, then
  \<^verbatim>\<open>self.server.server_close()\<close>.
\<close>

definition finally_clause :: "('c, 'k, 'v, 'f) listener \<Rightarrow> ('c, 'k, 'v, 'f) listener" where
  "finally_clause s = (s\<lparr>serving := False\<rparr>)\<lparr>socket_open := False\<rparr>"

text \<open>Lines 146 to 150 of \<^verbatim>\<open>run\<close>: the debug message about the decoded export.\<close>

definition log_processed ::
  "'f ExportPacket \<Rightarrow> ('c, 'k, 'v, 'f) listener \<Rightarrow> ('c, 'k, 'v, 'f) listener" where
  "log_processed ex s =
     (if version (header ex) = 10
      then s\<lparr>logged := logged s @ [Debug_Processed_IPFIX (length_h (header ex))]\<rparr>
      else s\<lparr>logged := logged s @
                [Debug_Processed (version (header ex)) (count_h (header ex))]\<rparr>)"

text \<open>
  Lines 154 to 159: when new templates were discovered, every packet of \<^verbatim>\<open>to_retry\<close>
  is put back on the input queue, one \<^verbatim>\<open>put\<close> after the other, and the list is
  cleared. (\<^verbatim>\<open>contains_new_templates\<close> is read only for versions 9 and 10.)
\<close>

definition retry_on_new_templates ::
  "'f ExportPacket \<Rightarrow> ('c, 'k, 'v, 'f) listener \<Rightarrow> ('c, 'k, 'v, 'f) listener" where
  "retry_on_new_templates ex s =
     (if version (header ex) \<in> set [9, 10] \<and> contains_new_templates ex \<and> to_retry s \<noteq> []
      then s\<lparr>logged := logged s @
                [Debug_Received_new_templates, Debug_Will_reattempt (length (to_retry s))],
             input := foldl put (input s) (to_retry s),
             to_retry := []\<rparr>
      else s)"

text \<open>Line 161: \<^verbatim>\<open>self.output.put(ParsedPacket(pkt.ts, pkt.client, export))\<close>\<close>

definition emit ::
  "'c RawPacket \<Rightarrow> 'f ExportPacket \<Rightarrow> ('c, 'k, 'v, 'f) listener \<Rightarrow> ('c, 'k, 'v, 'f) listener"
  where
  "emit pkt ex s =
     s\<lparr>output_q := put (output_q s)
         \<lparr>ParsedPacket.ts = RawPacket.ts pkt, client = RawPacket.client pkt, export = ex\<rparr>\<rparr>"

text \<open>
  Lines 136 to 144: the handler of the two template exceptions; \<open>now\<close> is what
  \<^verbatim>\<open>time.time()\<close> returns there.
\<close>

definition template_not_recognized ::
  "real \<Rightarrow> 'c RawPacket \<Rightarrow> ('c, 'k, 'v, 'f) listener \<Rightarrow> ('c, 'k, 'v, 'f) listener" where
  "template_not_recognized now pkt s =
     (if now - RawPacket.ts pkt > PACKET_TIMEOUT
      then s\<lparr>logged := logged s @ [Warning_Dropping_old]\<rparr>
      else s\<lparr>to_retry := to_retry s @ [pkt],
             logged := logged s @ [Debug_Failed_will_reattempt]\<rparr>)"

text \<open>
  One pass through the body of the \<^verbatim>\<open>while\<close> loop (lines 124 to 161). An empty
  input queue is the \<^verbatim>\<open>queue.Empty\<close> of the timed \<^verbatim>\<open>get\<close>. An exception that has no
  handler leaves the loop through the \<^verbatim>\<open>finally\<close> clause and ends the thread.
\<close>

definition loop_body ::
  "('k, 'v, 'f) decoder \<Rightarrow> real \<Rightarrow> ('c, 'k, 'v, 'f) listener \<Rightarrow> ('c, 'k, 'v, 'f) listener"
  where
  "loop_body parse_packet now s =
     (case input s of
        [] \<Rightarrow> s
      | pkt # rest \<Rightarrow>
          (case parse_packet (data pkt) (templates s) of
             (Inl UnknownExportVersion, tpl) \<Rightarrow>
               s\<lparr>input := rest, templates := tpl,
                 logged := logged s @ [Error_ignoring_the_packet]\<rparr>
           | (Inl V9TemplateNotRecognized, tpl) \<Rightarrow>
               template_not_recognized now pkt (s\<lparr>input := rest, templates := tpl\<rparr>)
           | (Inl IPFIXTemplateNotRecognized, tpl) \<Rightarrow>
               template_not_recognized now pkt (s\<lparr>input := rest, templates := tpl\<rparr>)
           | (Inl (OtherException e), tpl) \<Rightarrow>
               finally_clause (s\<lparr>input := rest, templates := tpl,
                          status := Raised (OtherException e)\<rparr>)
           | (Inr ex, tpl) \<Rightarrow>
               emit pkt ex
                 (retry_on_new_templates ex
                    (log_processed ex (s\<lparr>input := rest, templates := tpl\<rparr>)))))"

text \<open>
  The thread of \<^verbatim>\<open>run\<close> at the head of its loop: a finished thread does nothing,
  a set shutdown event ends the loop and runs the \<^verbatim>\<open>finally\<close> clause, otherwise the
  body runs once.
\<close>

definition run_step ::
  "('k, 'v, 'f) decoder \<Rightarrow> real \<Rightarrow> ('c, 'k, 'v, 'f) listener \<Rightarrow> ('c, 'k, 'v, 'f) listener"
  where
  "run_step parse_packet now s =
     (if status s \<noteq> Running then s
      else if shutdown s then finally_clause (s\<lparr>status := Exited\<rparr>)
      else loop_body parse_packet now s)"

text \<open>
  What happens to a listener, one event at a time: the server hands a datagram to the
  request handler (while it serves), the owner calls \<^verbatim>\<open>stop\<close>, or the thread of
  \<^verbatim>\<open>run\<close> makes one pass. The events of the other threads fall between two passes.
\<close>

datatype 'c event =
    Datagram real 'c bytes
  | Stop
  | Iter real

fun step ::
  "('k, 'v, 'f) decoder \<Rightarrow> 'c event \<Rightarrow> ('c, 'k, 'v, 'f) listener \<Rightarrow> ('c, 'k, 'v, 'f) listener"
  where
  "step parse_packet (Datagram now c d) s = (if serving s then handle now c d s else s)"
| "step parse_packet Stop s = stop s"
| "step parse_packet (Iter now) s = run_step parse_packet now s"

fun run_events ::
  "('k, 'v, 'f) decoder \<Rightarrow> 'c event list \<Rightarrow> ('c, 'k, 'v, 'f) listener \<Rightarrow>
     ('c, 'k, 'v, 'f) listener" where
  "run_events parse_packet [] s = s"
| "run_events parse_packet (e # evs) s = run_events parse_packet evs (step parse_packet e s)"

section \<open>Joining the threads\<close>

text \<open>
  \<^verbatim>\<open>ThreadedNetFlowListener.join\<close> joins the server thread, then the thread of
  \<^verbatim>\<open>run\<close>. \<^verbatim>\<open>Thread.join\<close> of the Python library raises \<^verbatim>\<open>RuntimeError\<close> on
  a thread that was not started. On a thread that has ended it returns. On a thread
  that is still alive it waits for the end when there is no timeout, raises
  \<^verbatim>\<open>OverflowError\<close> when the timeout is greater than \<^verbatim>\<open>threading.TIMEOUT_MAX\<close>
  (a number of the platform, the parameter \<open>timeout_max\<close>), and otherwise returns
  when the thread has ended or the timeout has passed. The caller is the owner of the
  listener, never one of the two threads.
\<close>

datatype thread_state = Unstarted | Alive | Finished

datatype join_result = Returns | Waits | Raises py_error

definition thread_join :: "real \<Rightarrow> thread_state \<Rightarrow> real option \<Rightarrow> join_result" where
  "thread_join timeout_max th timeout =
     (case th of
        Unstarted \<Rightarrow> Raises RuntimeError
      | Finished \<Rightarrow> Returns
      | Alive \<Rightarrow>
          (case timeout of
             None \<Rightarrow> Waits
           | Some t \<Rightarrow> if t > timeout_max then Raises OverflowError else Returns))"

text \<open>\<^verbatim>\<open>self.thread\<close> is started by \<^verbatim>\<open>__init__\<close> and ends with \<^verbatim>\<open>serve_forever\<close>.\<close>

definition server_thread :: "('c, 'k, 'v, 'f) listener \<Rightarrow> thread_state" where
  "server_thread s = (if serving s then Alive else Finished)"

definition run_thread :: "('c, 'k, 'v, 'f) listener \<Rightarrow> thread_state" where
  "run_thread s =
     (case status s of NotStarted \<Rightarrow> Unstarted | Running \<Rightarrow> Alive | _ \<Rightarrow> Finished)"

definition join :: "real \<Rightarrow> real option \<Rightarrow> ('c, 'k, 'v, 'f) listener \<Rightarrow> join_result" where
  "join timeout_max timeout s =
     (case thread_join timeout_max (server_thread s) timeout of
        Returns \<Rightarrow> thread_join timeout_max (run_thread s) timeout
      | r \<Rightarrow> r)"

section \<open>Taking a packet from the output queue\<close>

text \<open>
  \<^verbatim>\<open>ThreadedNetFlowListener.get\<close> is \<^verbatim>\<open>return self.output.get(block, timeout)\<close>:
  \<^verbatim>\<open>Queue.get\<close> of the Python library, followed here branch by branch. The result
  is the item with the queue that is left, or the exception, each with the time the
  caller was suspended, or a caller that stays suspended. While the caller waits on an
  empty queue, \<open>arrival\<close> says what the thread of \<^verbatim>\<open>run\<close> does: it puts an item after
  a delay, or it puts nothing. Waking up takes no time, and no other caller takes the
  item first.
\<close>

datatype 'a get_result = Got 'a "'a list" real | Throws py_error real | Suspended

definition queue_get ::
  "real \<Rightarrow> bool \<Rightarrow> real option \<Rightarrow> 'a list \<Rightarrow> (real \<times> 'a) option \<Rightarrow> 'a get_result" where
  "queue_get timeout_max block timeout q arrival =
     (if \<not> block then
        (case q of [] \<Rightarrow> Throws Empty 0 | x # q' \<Rightarrow> Got x q' 0)
      else
        (case timeout of
           None \<Rightarrow>
             (case q of
                x # q' \<Rightarrow> Got x q' 0
              | [] \<Rightarrow> (case arrival of None \<Rightarrow> Suspended | Some (d, x) \<Rightarrow> Got x [] d))
         | Some t \<Rightarrow>
             if t < 0 then Throws ValueError 0
             else
               (case q of
                  x # q' \<Rightarrow> Got x q' 0
                | [] \<Rightarrow>
                    if t \<le> 0 then Throws Empty 0
                    else if t > timeout_max then Throws OverflowError 0
                    else
                      (case arrival of
                         None \<Rightarrow> Throws Empty t
                       | Some (d, x) \<Rightarrow> if d < t then Got x [] d else Throws Empty t))))"

definition get ::
  "real \<Rightarrow> bool \<Rightarrow> real option \<Rightarrow> (real \<times> ('c, 'f) ParsedPacket) option \<Rightarrow>
     ('c, 'k, 'v, 'f) listener \<Rightarrow> ('c, 'f) ParsedPacket get_result" where
  "get timeout_max block timeout arrival s =
     queue_get timeout_max block timeout (output_q s) arrival"

section \<open>Observing a run\<close>

text \<open>
  The packet a pass of the loop takes from the input queue and hands to the decoder,
  with what the decoder answers; nothing when the thread is not in its loop, the
  shutdown event is set or the queue is empty.
\<close>

definition attempt_at ::
  "('k, 'v, 'f) decoder \<Rightarrow> ('c, 'k, 'v, 'f) listener \<Rightarrow>
     ('c RawPacket \<times> (exn + 'f ExportPacket)) list" where
  "attempt_at parse_packet s =
     (if status s = Running \<and> \<not> shutdown s
      then (case input s of
              [] \<Rightarrow> []
            | pkt # rest \<Rightarrow> [(pkt, fst (parse_packet (data pkt) (templates s)))])
      else [])"

fun attempt_of ::
  "('k, 'v, 'f) decoder \<Rightarrow> 'c event \<Rightarrow> ('c, 'k, 'v, 'f) listener \<Rightarrow>
     ('c RawPacket \<times> (exn + 'f ExportPacket)) list" where
  "attempt_of parse_packet (Iter now) s = attempt_at parse_packet s"
| "attempt_of parse_packet (Datagram now c d) s = []"
| "attempt_of parse_packet Stop s = []"

text \<open>The decoding attempts of a run, in the order they are made.\<close>

fun attempts ::
  "('k, 'v, 'f) decoder \<Rightarrow> 'c event list \<Rightarrow> ('c, 'k, 'v, 'f) listener \<Rightarrow>
     ('c RawPacket \<times> (exn + 'f ExportPacket)) list" where
  "attempts parse_packet [] s = []"
| "attempts parse_packet (e # evs) s =
     attempt_of parse_packet e s @ attempts parse_packet evs (step parse_packet e s)"

text \<open>What an attempt puts on the output queue.\<close>

fun emitted_of :: "'c RawPacket \<times> (exn + 'f ExportPacket) \<Rightarrow> ('c, 'f) ParsedPacket list" where
  "emitted_of (pkt, Inr ex) =
     [\<lparr>ParsedPacket.ts = RawPacket.ts pkt, client = RawPacket.client pkt, export = ex\<rparr>]"
| "emitted_of (pkt, Inl e) = []"

text \<open>The raw packets of a run whose attempt succeeded.\<close>

definition emitted_packets ::
  "('k, 'v, 'f) decoder \<Rightarrow> 'c event list \<Rightarrow> ('c, 'k, 'v, 'f) listener \<Rightarrow> 'c RawPacket list"
  where
  "emitted_packets parse_packet evs s =
     map fst (filter (\<lambda>a. \<not> isl (snd a)) (attempts parse_packet evs s))"

text \<open>The raw packets that the request handler builds for the datagrams of a run.\<close>

fun arrivals :: "'c event list \<Rightarrow> 'c RawPacket list" where
  "arrivals [] = []"
| "arrivals (Datagram now c d # evs) =
     \<lparr>RawPacket.ts = now, client = c, data = d\<rparr> # arrivals evs"
| "arrivals (Stop # evs) = arrivals evs"
| "arrivals (Iter now # evs) = arrivals evs"

text \<open>An attempt that starts a retry pass: a version 9 or 10 export with new templates.\<close>

fun new_template_event :: "'c RawPacket \<times> (exn + 'f ExportPacket) \<Rightarrow> bool" where
  "new_template_event (pkt, Inr ex) =
     (version (header ex) \<in> set [9, 10] \<and> contains_new_templates ex)"
| "new_template_event (pkt, Inl e) = False"

text \<open>An attempt that ends the thread: an exception without a handler.\<close>

fun uncaught :: "'c RawPacket \<times> (exn + 'f ExportPacket) \<Rightarrow> bool" where
  "uncaught (pkt, Inl (OtherException e)) = True"
| "uncaught (pkt, r) = False"

fun is_stop :: "'c event \<Rightarrow> bool" where
  "is_stop Stop = True"
| "is_stop e = False"

fun is_iter :: "'c event \<Rightarrow> bool" where
  "is_iter (Iter now) = True"
| "is_iter e = False"

section \<open>A sample decoder\<close>

text \<open>
  Modelled from the spec: the decoder \<^verbatim>\<open>parse_packet\<close> of \<^verbatim>\<open>netflow/utils.py\<close>,
  which is not among the sources. The spec's decoder contract: it fails with the
  unsupported-version condition when the leading version field is not a supported one,
  fails with the template-not-recognized condition when a version 9 or IPFIX record
  refers to a template that the templates do not hold, and otherwise returns an export
  with its header and the flag that says whether it introduced new templates; any
  other failure is a malformed datagram. The sample reads a datagram of two version
  bytes followed, for versions 9 and 10, by one record of two bytes: a kind (0 for a
  template definition, anything else for data) and a template id. It is used for the
  concrete runs only; the theorems hold for every decoder.
\<close>

definition sample_export :: "int \<Rightarrow> bool \<Rightarrow> bytes \<Rightarrow> bytes ExportPacket" where
  "sample_export v new rest =
     \<lparr>header = \<lparr>version = v, count_h = 1, length_h = int (length rest) + 2\<rparr>,
      contains_new_templates = new, flows = rest\<rparr>"

definition sample_record ::
  "exn \<Rightarrow> int \<Rightarrow> bytes \<Rightarrow> (byte \<rightharpoonup> unit) \<Rightarrow> (exn + bytes ExportPacket) \<times> (byte \<rightharpoonup> unit)"
  where
  "sample_record miss v rest m =
     (case rest of
        [kind, tid] \<Rightarrow>
          (if kind = 0 then (Inr (sample_export v (m tid = None) rest), m(tid \<mapsto> ()))
           else if m tid = None then (Inl miss, m)
           else (Inr (sample_export v False rest), m))
      | _ \<Rightarrow> (Inl (OtherException ''struct.error''), m))"

definition sample_parse_packet :: "(byte, unit, bytes) decoder" where
  "sample_parse_packet d tpl =
     (case d of
        hi # lo # rest \<Rightarrow>
          (if hi \<noteq> 0 then (Inl UnknownExportVersion, tpl)
           else if lo = 1 then (Inr (sample_export 1 False rest), tpl)
           else if lo = 5 then (Inr (sample_export 5 False rest), tpl)
           else if lo = 9 then
             (case sample_record V9TemplateNotRecognized 9 rest (netflow tpl) of
                (r, m) \<Rightarrow> (r, tpl\<lparr>netflow := m\<rparr>))
           else if lo = 10 then
             (case sample_record IPFIXTemplateNotRecognized 10 rest (ipfix tpl) of
                (r, m) \<Rightarrow> (r, tpl\<lparr>ipfix := m\<rparr>))
           else (Inl UnknownExportVersion, tpl))
      | _ \<Rightarrow> (Inl (OtherException ''struct.error''), tpl))"

text \<open>
  Modelled from the spec: the same decoder, which also reads a version 9 datagram of
  two records, a template definition followed by a data record. The decoder updates
  the templates in place, so the definition stays stored when the template of the data
  record is not known and the template-not-recognized condition is raised.
\<close>

definition sample_parse_packet2 :: "(byte, unit, bytes) decoder" where
  "sample_parse_packet2 d tpl =
     (case d of
        [hi, lo, kind1, tid1, kind2, tid2] \<Rightarrow>
          (if hi = 0 \<and> lo = 9 \<and> kind1 = 0 \<and> kind2 \<noteq> 0 then
             (if ((netflow tpl)(tid1 \<mapsto> ())) tid2 = None
              then (Inl V9TemplateNotRecognized, tpl\<lparr>netflow := (netflow tpl)(tid1 \<mapsto> ())\<rparr>)
              else (Inr (sample_export 9 (netflow tpl tid1 = None) [kind1, tid1, kind2, tid2]),
                    tpl\<lparr>netflow := (netflow tpl)(tid1 \<mapsto> ())\<rparr>))
           else (Inl (OtherException ''struct.error''), tpl))
      | _ \<Rightarrow> sample_parse_packet d tpl)"

text \<open>
  The sample's reading of "the templates know template \<open>t\<close>", "the datagram defines
  \<open>t\<close>" and "the datagram refers to \<open>t\<close>", for NetFlow version 9.
\<close>

definition sample_knows :: "(byte, unit) templates \<Rightarrow> byte \<Rightarrow> bool" where
  "sample_knows tpl t = (netflow tpl t \<noteq> None)"

definition sample_defines :: "bytes \<Rightarrow> byte \<Rightarrow> bool" where
  "sample_defines d t = (d = [0, 9, 0, t])"

definition sample_refers :: "bytes \<Rightarrow> byte \<Rightarrow> bool" where
  "sample_refers d t =
     (case d of [hi, lo, kind, tid] \<Rightarrow> hi = 0 \<and> lo = 9 \<and> kind \<noteq> 0 \<and> tid = t | _ \<Rightarrow> False)"

text \<open>
  The same readings for the second decoder: a datagram of two records defines the
  template of its first record and refers to the template of its second.
\<close>

definition sample_defines2 :: "bytes \<Rightarrow> byte \<Rightarrow> bool" where
  "sample_defines2 d t =
     (case d of
        [hi, lo, kind1, tid1, kind2, tid2] \<Rightarrow>
          hi = 0 \<and> lo = 9 \<and> kind1 = 0 \<and> kind2 \<noteq> 0 \<and> tid1 = t
      | _ \<Rightarrow> sample_defines d t)"

definition sample_refers2 :: "bytes \<Rightarrow> byte \<Rightarrow> bool" where
  "sample_refers2 d t =
     (case d of
        [hi, lo, kind1, tid1, kind2, tid2] \<Rightarrow>
          hi = 0 \<and> lo = 9 \<and> kind1 = 0 \<and> kind2 \<noteq> 0 \<and> tid2 = t
      | _ \<Rightarrow> sample_refers d t)"

text \<open>Sample packets and a listener that has just been started.\<close>

type_synonym addr = "string \<times> nat"

definition exporter :: addr where
  "exporter = (''192.0.2.1'', 2055)"

definition data_pkt :: "real \<Rightarrow> addr RawPacket" where
  "data_pkt t = \<lparr>RawPacket.ts = t, client = exporter, data = [0, 9, 1, 42]\<rparr>"

definition template_pkt :: "real \<Rightarrow> addr RawPacket" where
  "template_pkt t = \<lparr>RawPacket.ts = t, client = exporter, data = [0, 9, 0, 42]\<rparr>"

definition other_template_pkt :: "real \<Rightarrow> addr RawPacket" where
  "other_template_pkt t = \<lparr>RawPacket.ts = t, client = exporter, data = [0, 9, 0, 7]\<rparr>"

definition mixed_pkt :: "real \<Rightarrow> addr RawPacket" where
  "mixed_pkt t = \<lparr>RawPacket.ts = t, client = exporter, data = [0, 9, 0, 42, 1, 7]\<rparr>"

definition v5_pkt :: "real \<Rightarrow> addr RawPacket" where
  "v5_pkt t = \<lparr>RawPacket.ts = t, client = exporter, data = [0, 5]\<rparr>"

definition bad_version_pkt :: "real \<Rightarrow> addr RawPacket" where
  "bad_version_pkt t = \<lparr>RawPacket.ts = t, client = exporter, data = [0, 99]\<rparr>"

definition truncated_pkt :: "real \<Rightarrow> addr RawPacket" where
  "truncated_pkt t = \<lparr>RawPacket.ts = t, client = exporter, data = [9]\<rparr>"

definition started :: "addr RawPacket list \<Rightarrow> (addr, byte, unit, bytes) listener" where
  "started q = init_listener\<lparr>input := q, status := Running\<rparr>"

lemmas sample_defs =
  sample_parse_packet_def sample_record_def sample_export_def data_pkt_def template_pkt_def
  v5_pkt_def bad_version_pkt_def truncated_pkt_def started_def init_listener_def exporter_def

lemmas run_defs =
  run_step_def loop_body_def template_not_recognized_def retry_on_new_templates_def
  log_processed_def emit_def finally_clause_def put_def handle_def stop_def PACKET_TIMEOUT_def
  attempt_at_def

section \<open>Basic facts\<close>

text \<open>The sample listeners are what \<^verbatim>\<open>start\<close> makes of a new listener with queued packets.\<close>

lemma start_init_listener: "start (init_listener\<lparr>input := q\<rparr>) = Inr (started q)"
  by (simp add: start_def started_def init_listener_def)

lemma foldl_put: "foldl put q xs = q @ xs"
  by (induction xs arbitrary: q) (simp_all add: put_def)

lemma run_step_loop:
  "status s = Running \<Longrightarrow> \<not> shutdown s \<Longrightarrow> run_step parse_packet now s = loop_body parse_packet now s"
  by (simp add: run_step_def)

lemma loop_body_unknown_version:
  assumes "input s = pkt # rest"
    and "fst (parse_packet (data pkt) (templates s)) = Inl UnknownExportVersion"
  shows "loop_body parse_packet now s =
           s\<lparr>input := rest, templates := snd (parse_packet (data pkt) (templates s)),
             logged := logged s @ [Error_ignoring_the_packet]\<rparr>"
  using assms by (cases "parse_packet (data pkt) (templates s)") (simp add: loop_body_def)

lemma loop_body_template_miss:
  assumes "input s = pkt # rest"
    and "fst (parse_packet (data pkt) (templates s)) = Inl e"
    and "e = V9TemplateNotRecognized \<or> e = IPFIXTemplateNotRecognized"
  shows "loop_body parse_packet now s =
           template_not_recognized now pkt
             (s\<lparr>input := rest, templates := snd (parse_packet (data pkt) (templates s))\<rparr>)"
  using assms by (cases "parse_packet (data pkt) (templates s)") (auto simp add: loop_body_def)

lemma loop_body_uncaught:
  assumes "input s = pkt # rest"
    and "fst (parse_packet (data pkt) (templates s)) = Inl (OtherException e)"
  shows "loop_body parse_packet now s =
           finally_clause (s\<lparr>input := rest, templates := snd (parse_packet (data pkt) (templates s)),
                          status := Raised (OtherException e)\<rparr>)"
  using assms by (cases "parse_packet (data pkt) (templates s)") (simp add: loop_body_def)

lemma loop_body_decoded:
  assumes "input s = pkt # rest"
    and "fst (parse_packet (data pkt) (templates s)) = Inr ex"
  shows "loop_body parse_packet now s =
           emit pkt ex (retry_on_new_templates ex (log_processed ex
             (s\<lparr>input := rest, templates := snd (parse_packet (data pkt) (templates s))\<rparr>)))"
  using assms by (cases "parse_packet (data pkt) (templates s)") (simp add: loop_body_def)

lemma output_q_log_processed [simp]: "output_q (log_processed ex s) = output_q s"
  and input_log_processed [simp]: "input (log_processed ex s) = input s"
  and to_retry_log_processed [simp]: "to_retry (log_processed ex s) = to_retry s"
  and status_log_processed [simp]: "status (log_processed ex s) = status s"
  and shutdown_log_processed [simp]: "shutdown (log_processed ex s) = shutdown s"
  and templates_log_processed [simp]: "templates (log_processed ex s) = templates s"
  by (simp_all add: log_processed_def)

lemma output_q_retry [simp]: "output_q (retry_on_new_templates ex s) = output_q s"
  and status_retry [simp]: "status (retry_on_new_templates ex s) = status s"
  and shutdown_retry [simp]: "shutdown (retry_on_new_templates ex s) = shutdown s"
  and templates_retry [simp]: "templates (retry_on_new_templates ex s) = templates s"
  by (simp_all add: retry_on_new_templates_def)

lemma input_retry:
  "input (retry_on_new_templates ex s) =
     (if version (header ex) \<in> set [9, 10] \<and> contains_new_templates ex \<and> to_retry s \<noteq> []
      then input s @ to_retry s else input s)"
  by (simp add: retry_on_new_templates_def foldl_put)

lemma to_retry_retry:
  "to_retry (retry_on_new_templates ex s) =
     (if version (header ex) \<in> set [9, 10] \<and> contains_new_templates ex \<and> to_retry s \<noteq> []
      then [] else to_retry s)"
  by (auto simp add: retry_on_new_templates_def)

lemma emit_fields [simp]:
  "input (emit pkt ex s) = input s" "to_retry (emit pkt ex s) = to_retry s"
  "status (emit pkt ex s) = status s" "shutdown (emit pkt ex s) = shutdown s"
  "templates (emit pkt ex s) = templates s" "logged (emit pkt ex s) = logged s"
  "output_q (emit pkt ex s) =
     output_q s @ [\<lparr>ParsedPacket.ts = RawPacket.ts pkt, client = RawPacket.client pkt, export = ex\<rparr>]"
  by (simp_all add: emit_def put_def)

lemma template_not_recognized_fields [simp]:
  "input (template_not_recognized now pkt s) = input s"
  "output_q (template_not_recognized now pkt s) = output_q s"
  "status (template_not_recognized now pkt s) = status s"
  "shutdown (template_not_recognized now pkt s) = shutdown s"
  "templates (template_not_recognized now pkt s) = templates s"
  by (simp_all add: template_not_recognized_def)

lemma to_retry_template_not_recognized:
  "to_retry (template_not_recognized now pkt s) =
     (if now - RawPacket.ts pkt > PACKET_TIMEOUT then to_retry s else to_retry s @ [pkt])"
  by (simp add: template_not_recognized_def)

lemma logged_template_not_recognized:
  "logged (template_not_recognized now pkt s) =
     logged s @ [if now - RawPacket.ts pkt > PACKET_TIMEOUT then Warning_Dropping_old
                 else Debug_Failed_will_reattempt]"
  by (simp add: template_not_recognized_def)

lemma Iter_cases [case_names Idle Exit Empty Version Miss Uncaught Decoded]:
  assumes "status s \<noteq> Running \<Longrightarrow> attempt_at parse_packet s = [] \<Longrightarrow>
             run_step parse_packet now s = s \<Longrightarrow> P"
    and "status s = Running \<Longrightarrow> shutdown s \<Longrightarrow> attempt_at parse_packet s = [] \<Longrightarrow>
           run_step parse_packet now s = finally_clause (s\<lparr>status := Exited\<rparr>) \<Longrightarrow> P"
    and "status s = Running \<Longrightarrow> \<not> shutdown s \<Longrightarrow> input s = [] \<Longrightarrow>
           attempt_at parse_packet s = [] \<Longrightarrow> run_step parse_packet now s = s \<Longrightarrow> P"
    and "\<And>pkt rest tpl. status s = Running \<Longrightarrow> \<not> shutdown s \<Longrightarrow> input s = pkt # rest \<Longrightarrow>
           parse_packet (data pkt) (templates s) = (Inl UnknownExportVersion, tpl) \<Longrightarrow>
           attempt_at parse_packet s = [(pkt, Inl UnknownExportVersion)] \<Longrightarrow>
           run_step parse_packet now s =
             s\<lparr>input := rest, templates := tpl,
               logged := logged s @ [Error_ignoring_the_packet]\<rparr> \<Longrightarrow> P"
    and "\<And>pkt rest tpl e. status s = Running \<Longrightarrow> \<not> shutdown s \<Longrightarrow> input s = pkt # rest \<Longrightarrow>
           parse_packet (data pkt) (templates s) = (Inl e, tpl) \<Longrightarrow>
           e = V9TemplateNotRecognized \<or> e = IPFIXTemplateNotRecognized \<Longrightarrow>
           attempt_at parse_packet s = [(pkt, Inl e)] \<Longrightarrow>
           run_step parse_packet now s =
             template_not_recognized now pkt (s\<lparr>input := rest, templates := tpl\<rparr>) \<Longrightarrow> P"
    and "\<And>pkt rest tpl e. status s = Running \<Longrightarrow> \<not> shutdown s \<Longrightarrow> input s = pkt # rest \<Longrightarrow>
           parse_packet (data pkt) (templates s) = (Inl (OtherException e), tpl) \<Longrightarrow>
           attempt_at parse_packet s = [(pkt, Inl (OtherException e))] \<Longrightarrow>
           run_step parse_packet now s =
             finally_clause (s\<lparr>input := rest, templates := tpl,
                               status := Raised (OtherException e)\<rparr>) \<Longrightarrow> P"
    and "\<And>pkt rest tpl ex. status s = Running \<Longrightarrow> \<not> shutdown s \<Longrightarrow> input s = pkt # rest \<Longrightarrow>
           parse_packet (data pkt) (templates s) = (Inr ex, tpl) \<Longrightarrow>
           attempt_at parse_packet s = [(pkt, Inr ex)] \<Longrightarrow>
           run_step parse_packet now s =
             emit pkt ex (retry_on_new_templates ex (log_processed ex
               (s\<lparr>input := rest, templates := tpl\<rparr>))) \<Longrightarrow> P"
  shows P
proof (cases "status s = Running")
  case False
  then show ?thesis using assms(1) by (simp add: run_step_def attempt_at_def)
next
  case run: True
  show ?thesis
  proof (cases "shutdown s")
    case True
    then show ?thesis using run assms(2) by (simp add: run_step_def attempt_at_def)
  next
    case live: False
    show ?thesis
    proof (cases "input s")
      case Nil
      then show ?thesis using run live assms(3)
        by (simp add: run_step_def attempt_at_def loop_body_def)
    next
      case (Cons pkt rest)
      obtain r tpl where p: "parse_packet (data pkt) (templates s) = (r, tpl)"
        by (cases "parse_packet (data pkt) (templates s)")
      show ?thesis
      proof (cases r)
        case (Inr ex)
        then show ?thesis using run live Cons p assms(7) [of pkt rest ex tpl]
          by (simp add: run_step_def attempt_at_def loop_body_def)
      next
        case (Inl x)
        show ?thesis
        proof (cases x)
          case UnknownExportVersion
          then show ?thesis using Inl run live Cons p assms(4) [of pkt rest tpl]
            by (simp add: run_step_def attempt_at_def loop_body_def)
        next
          case V9TemplateNotRecognized
          then show ?thesis using Inl run live Cons p assms(5) [of pkt rest x tpl]
            by (simp add: run_step_def attempt_at_def loop_body_def)
        next
          case IPFIXTemplateNotRecognized
          then show ?thesis using Inl run live Cons p assms(5) [of pkt rest x tpl]
            by (simp add: run_step_def attempt_at_def loop_body_def)
        next
          case (OtherException e)
          then show ?thesis using Inl run live Cons p assms(6) [of pkt rest e tpl]
            by (simp add: run_step_def attempt_at_def loop_body_def)
        qed
      qed
    qed
  qed
qed

lemma finally_clause_fields [simp]:
  "input (finally_clause s) = input s" "output_q (finally_clause s) = output_q s"
  "to_retry (finally_clause s) = to_retry s" "status (finally_clause s) = status s"
  "shutdown (finally_clause s) = shutdown s" "templates (finally_clause s) = templates s"
  "logged (finally_clause s) = logged s"
  "serving (finally_clause s) = False" "socket_open (finally_clause s) = False"
  by (simp_all add: finally_clause_def)

lemma output_q_run_step:
  "output_q (run_step parse_packet now s) =
     output_q s @ concat (map emitted_of (attempt_at parse_packet s))"
  by (cases rule: Iter_cases [of s parse_packet now]) simp_all

lemma output_q_step:
  "output_q (step parse_packet e s) =
     output_q s @ concat (map emitted_of (attempt_of parse_packet e s))"
  by (cases e) (simp_all add: handle_def stop_def output_q_run_step)

lemma output_q_run_events:
  "output_q (run_events parse_packet evs s) =
     output_q s @ concat (map emitted_of (attempts parse_packet evs s))"
  by (induction evs arbitrary: s) (simp_all add: output_q_step)

lemma pending_run_step:
  "mset (input (run_step parse_packet now s)) + mset (to_retry (run_step parse_packet now s)) +
     mset (map fst (filter (\<lambda>a. \<not> isl (snd a)) (attempt_at parse_packet s)))
   \<subseteq># mset (input s) + mset (to_retry s)"
  by (cases rule: Iter_cases [of s parse_packet now])
    (simp_all add: input_retry to_retry_retry to_retry_template_not_recognized)

lemma pending_step:
  "mset (input (step parse_packet e s)) + mset (to_retry (step parse_packet e s)) +
     mset (map fst (filter (\<lambda>a. \<not> isl (snd a)) (attempt_of parse_packet e s)))
   \<subseteq># mset (input s) + mset (to_retry s) + mset (arrivals [e])"
proof (cases e)
  case (Iter now)
  then show ?thesis using pending_run_step [of parse_packet now s] by simp
qed (simp_all add: handle_def stop_def put_def)

lemma pending_run_events:
  "mset (input (run_events parse_packet evs s)) + mset (to_retry (run_events parse_packet evs s)) +
     mset (emitted_packets parse_packet evs s)
   \<subseteq># mset (input s) + mset (to_retry s) + mset (arrivals evs)"
proof (induction evs arbitrary: s)
  case Nil
  then show ?case by (simp add: emitted_packets_def)
next
  case (Cons e evs)
  let ?s = "step parse_packet e s"
  have a: "arrivals (e # evs) = arrivals [e] @ arrivals evs"
    by (cases e) simp_all
  have "mset (input (run_events parse_packet evs ?s)) + mset (to_retry (run_events parse_packet evs ?s)) +
          mset (emitted_packets parse_packet evs ?s) +
          mset (map fst (filter (\<lambda>a. \<not> isl (snd a)) (attempt_of parse_packet e s)))
        \<subseteq># mset (input ?s) + mset (to_retry ?s) + mset (arrivals evs) +
          mset (map fst (filter (\<lambda>a. \<not> isl (snd a)) (attempt_of parse_packet e s)))"
    using Cons.IH [of ?s] by (simp del: mset_map mset_filter)
  also have "\<dots> \<subseteq># mset (input s) + mset (to_retry s) + mset (arrivals [e]) + mset (arrivals evs)"
    using pending_step [of parse_packet e s]
    by (metis (no_types, lifting) add.assoc add.commute subset_mset.add_right_mono)
  finally show ?case
    by (simp add: emitted_packets_def a ac_simps del: mset_map mset_filter)
qed

lemma held_run_step:
  "set (input (run_step parse_packet now s)) \<union> set (to_retry (run_step parse_packet now s)) \<union>
     fst ` set (attempt_at parse_packet s)
   \<subseteq> set (input s) \<union> set (to_retry s)"
  by (cases rule: Iter_cases [of s parse_packet now])
    (auto simp add: input_retry to_retry_retry to_retry_template_not_recognized split: if_splits)

lemma held_step:
  "set (input (step parse_packet e s)) \<union> set (to_retry (step parse_packet e s)) \<union>
     fst ` set (attempt_of parse_packet e s)
   \<subseteq> set (input s) \<union> set (to_retry s) \<union> set (arrivals [e])"
proof (cases e)
  case (Iter now)
  then show ?thesis using held_run_step [of parse_packet now s] by auto
qed (auto simp add: handle_def stop_def put_def)

lemma held_run_events:
  "set (input (run_events parse_packet evs s)) \<union> set (to_retry (run_events parse_packet evs s)) \<union>
     fst ` set (attempts parse_packet evs s)
   \<subseteq> set (input s) \<union> set (to_retry s) \<union> set (arrivals evs)"
proof (induction evs arbitrary: s)
  case Nil
  then show ?case by simp
next
  case (Cons e evs)
  have a: "set (arrivals (e # evs)) = set (arrivals [e]) \<union> set (arrivals evs)"
    by (cases e) simp_all
  show ?case
    using Cons.IH [of "step parse_packet e s"] held_step [of parse_packet e s]
    unfolding a by (simp del: arrivals.simps) blast
qed

lemma quiet_run_step:
  assumes "shutdown s \<or> status s \<noteq> Running"
  shows "attempt_at parse_packet s = []"
    and "input (run_step parse_packet now s) = input s"
    and "output_q (run_step parse_packet now s) = output_q s"
    and "to_retry (run_step parse_packet now s) = to_retry s"
    and "templates (run_step parse_packet now s) = templates s"
    and "shutdown (run_step parse_packet now s) = shutdown s"
    and "status (run_step parse_packet now s) \<noteq> Running"
  using assms by (auto simp add: run_step_def attempt_at_def)

lemma quiet_step:
  assumes "shutdown s \<or> status s \<noteq> Running"
  shows "attempt_of parse_packet e s = []"
    and "output_q (step parse_packet e s) = output_q s"
    and "to_retry (step parse_packet e s) = to_retry s"
    and "templates (step parse_packet e s) = templates s"
    and "shutdown (step parse_packet e s) \<or> status (step parse_packet e s) \<noteq> Running"
    and "\<exists>more. input (step parse_packet e s) = input s @ more"
    and "\<not> serving s \<Longrightarrow> input (step parse_packet e s) = input s"
    and "\<not> serving s \<Longrightarrow> \<not> serving (step parse_packet e s)"
  using assms quiet_run_step [OF assms, of parse_packet]
  by (cases e; auto simp add: handle_def stop_def put_def run_step_def)+

lemma quiet_run_events:
  assumes "shutdown s \<or> status s \<noteq> Running"
  shows "attempts parse_packet evs s = [] \<and>
         output_q (run_events parse_packet evs s) = output_q s \<and>
         to_retry (run_events parse_packet evs s) = to_retry s \<and>
         templates (run_events parse_packet evs s) = templates s \<and>
         (\<exists>more. input (run_events parse_packet evs s) = input s @ more) \<and>
         (\<not> serving s \<longrightarrow> input (run_events parse_packet evs s) = input s)"
  using assms
proof (induction evs arbitrary: s)
  case Nil
  then show ?case by simp
next
  case (Cons e evs)
  note q = quiet_step [OF Cons.prems, of parse_packet e]
  from Cons.IH [OF q(5)] q show ?case by auto
qed

lemma join_started:
  assumes "status s \<noteq> NotStarted" and "timeout = None \<or> (\<exists>t. timeout = Some t \<and> t \<le> timeout_max)"
  shows "join timeout_max timeout s \<noteq> Raises e"
  using assms
  by (cases "status s"; cases timeout)
    (auto simp add: join_def thread_join_def server_thread_def run_thread_def)

lemma started_run_step:
  "status s \<noteq> NotStarted \<Longrightarrow> status (run_step parse_packet now s) \<noteq> NotStarted"
  by (cases rule: Iter_cases [of s parse_packet now]) simp_all

lemma started_step:
  "status s \<noteq> NotStarted \<Longrightarrow> status (step parse_packet e s) \<noteq> NotStarted"
  by (cases e) (simp_all add: handle_def stop_def started_run_step)

lemma started_run_events:
  "status s \<noteq> NotStarted \<Longrightarrow> status (run_events parse_packet evs s) \<noteq> NotStarted"
  by (induction evs arbitrary: s) (simp_all add: started_step)

lemma attempt_of_templates:
  "(attempt_of parse_packet e s = [] \<and> templates (step parse_packet e s) = templates s) \<or>
   (\<exists>x. attempt_of parse_packet e s = [(x, fst (parse_packet (data x) (templates s)))] \<and>
        templates (step parse_packet e s) = snd (parse_packet (data x) (templates s)))"
proof (cases e)
  case (Iter now)
  show ?thesis unfolding Iter step.simps attempt_of.simps
    by (cases rule: Iter_cases [of s parse_packet now]) simp_all
qed (simp_all add: handle_def stop_def)

lemma attempt_at_survives:
  assumes "attempt_at parse_packet s = [a]" and "\<not> uncaught a"
  shows "status (run_step parse_packet now s) = Running \<and> \<not> shutdown (run_step parse_packet now s) \<and>
         (\<exists>more. input (run_step parse_packet now s) = tl (input s) @ more)"
  using assms
  by (cases rule: Iter_cases [of s parse_packet now]) (auto simp add: input_retry)

lemma attempt_at_head:
  assumes "status s = Running" and "\<not> shutdown s" and "input s = x # rest"
  shows "attempt_at parse_packet s = [(x, fst (parse_packet (data x) (templates s)))]"
  using assms by (simp add: attempt_at_def)

lemma reattempted:
  assumes "status s = Running" and "\<not> shutdown s" and "input s = pre @ p # post"
    and "\<forall>e \<in> set evs. \<not> is_stop e"
    and "length pre < length (filter is_iter evs)"
    and "\<forall>a \<in> set (attempts parse_packet evs s). \<not> uncaught a"
  shows "\<exists>r. (p, r) \<in> set (attempts parse_packet evs s) \<and>
           set (emitted_of (p, r)) \<subseteq> set (output_q (run_events parse_packet evs s))"
  using assms
proof (induction evs arbitrary: s pre post)
  case Nil
  then show ?case by simp
next
  case (Cons e evs)
  show ?case
  proof (cases e)
    case Stop
    then show ?thesis using Cons.prems(4) by simp
  next
    case (Datagram now c d)
    let ?s = "step parse_packet e s"
    have "status ?s = Running" "\<not> shutdown ?s"
      "\<exists>post'. input ?s = pre @ p # post'"
      using Cons.prems(1,2,3) Datagram by (auto simp add: handle_def put_def)
    then obtain post' where "input ?s = pre @ p # post'" by blast
    from Cons.IH [OF \<open>status ?s = Running\<close> \<open>\<not> shutdown ?s\<close> this]
    show ?thesis using Cons.prems(4,5,6) Datagram by simp
  next
    case (Iter now)
    let ?s = "step parse_packet e s"
    show ?thesis
    proof (cases pre)
      case Nil
      let ?r = "fst (parse_packet (data p) (templates s))"
      have at: "attempt_at parse_packet s = [(p, ?r)]"
        using Cons.prems(1,2,3) Nil by (simp add: attempt_at_def)
      have "set (emitted_of (p, ?r)) \<subseteq> set (output_q (run_events parse_packet (e # evs) s))"
        using at Iter by (auto simp add: output_q_run_events output_q_run_step)
      then show ?thesis using at Iter by auto
    next
      case (Cons x pre')
      let ?a = "(x, fst (parse_packet (data x) (templates s)))"
      have at: "attempt_at parse_packet s = [?a]"
        using Cons.prems(1,2,3) Cons by (simp add: attempt_at_def)
      have ok: "\<not> uncaught ?a"
        using Cons.prems(6) at Iter by simp
      from attempt_at_survives [OF at ok, of now]
      obtain more where s': "status ?s = Running" "\<not> shutdown ?s"
        "input ?s = pre' @ p # (post @ more)"
        using Iter Cons Cons.prems(3) by auto
      have len: "length pre' < length (filter is_iter evs)"
        using Cons.prems(5) Iter Cons by simp
      from Cons.IH [OF s' _ len] Cons.prems(4,6)
      obtain r where "(p, r) \<in> set (attempts parse_packet evs ?s)"
        "set (emitted_of (p, r)) \<subseteq> set (output_q (run_events parse_packet evs ?s))"
        by auto
      then show ?thesis by auto
    qed
  qed
qed

lemma not_before_definition:
  assumes needs: "\<And>d tpl ex. fst (parse_packet d tpl) = Inr ex \<Longrightarrow> refers d T \<Longrightarrow>
                    known (snd (parse_packet d tpl)) T"
    and learns: "\<And>d tpl. known (snd (parse_packet d tpl)) T \<Longrightarrow> known tpl T \<or> defined_in d T"
    and "refers (data p) T" and "\<not> defined_in (data p) T"
    and "\<not> known (templates s) T"
    and "attempts parse_packet evs s = xs @ (p, Inr ex) # ys"
  shows "\<exists>q \<in> fst ` set xs. defined_in (data q) T"
  using assms(5,6)
proof (induction evs arbitrary: s xs)
  case Nil
  then show ?case by simp
next
  case (Cons e evs)
  let ?s = "step parse_packet e s"
  from attempt_of_templates [of parse_packet e s]
  show ?case
  proof (elim disjE conjE exE)
    assume "attempt_of parse_packet e s = []" and "templates ?s = templates s"
    then show ?thesis using Cons.IH [of ?s xs] Cons.prems by simp
  next
    fix x
    assume at: "attempt_of parse_packet e s = [(x, fst (parse_packet (data x) (templates s)))]"
      and tpl: "templates ?s = snd (parse_packet (data x) (templates s))"
    let ?r = "fst (parse_packet (data x) (templates s))"
    show ?thesis
    proof (cases xs)
      case Nil
      then have "x = p" "?r = Inr ex"
        using Cons.prems(2) at by auto
      then have "known (snd (parse_packet (data p) (templates s))) T"
        using needs assms(3) by blast
      then show ?thesis
        using learns Cons.prems(1) assms(4) by blast
    next
      case (Cons a xs')
      then have a: "a = (x, ?r)" and rest: "attempts parse_packet evs ?s = xs' @ (p, Inr ex) # ys"
        using Cons.prems(2) at by auto
      show ?thesis
      proof (cases "defined_in (data x) T")
        case True
        then show ?thesis using Cons a by auto
      next
        case False
        then have "\<not> known (templates ?s) T"
          using learns Cons.prems(1) tpl by auto
        from Cons.IH [OF this rest] show ?thesis using Cons by auto
      qed
    qed
  qed
qed

lemma not_reinjected_run_step:
  assumes "\<forall>a \<in> set (attempt_at parse_packet s). \<not> new_template_event a"
  shows "\<exists>more. to_retry (run_step parse_packet now s) = to_retry s @ more"
  using assms
  by (cases rule: Iter_cases [of s parse_packet now])
    (auto simp add: to_retry_retry to_retry_template_not_recognized)

lemma not_reinjected_step:
  assumes "\<forall>a \<in> set (attempt_of parse_packet e s). \<not> new_template_event a"
  shows "\<exists>more. to_retry (step parse_packet e s) = to_retry s @ more"
  using assms not_reinjected_run_step [of parse_packet s]
  by (cases e) (simp_all add: handle_def stop_def)

lemma not_reinjected_run_events:
  assumes "\<forall>a \<in> set (attempts parse_packet evs s). \<not> new_template_event a"
  shows "\<exists>more. to_retry (run_events parse_packet evs s) = to_retry s @ more"
  using assms
proof (induction evs arbitrary: s)
  case Nil
  then show ?case by simp
next
  case (Cons e evs)
  from Cons.prems not_reinjected_step [of parse_packet e s]
  obtain m1 where m1: "to_retry (step parse_packet e s) = to_retry s @ m1" by auto
  from Cons.prems Cons.IH [of "step parse_packet e s"]
  obtain m2 where "to_retry (run_events parse_packet evs (step parse_packet e s)) =
      to_retry (step parse_packet e s) @ m2" by auto
  then show ?case using m1 by simp
qed

lemma held_packet_reinjected:
  assumes "status s = Running" and "\<not> shutdown s" and "input s = q # rest"
    and "fst (parse_packet (data q) (templates s)) = Inr ex" and "new_template_event (q, Inr ex)"
    and "p \<in> set (to_retry s)"
  shows "p \<in> set (input (step parse_packet (Iter now) s))"
    and "to_retry (step parse_packet (Iter now) s) = []"
proof -
  have "to_retry s \<noteq> []" using assms(6) by auto
  with assms show "p \<in> set (input (step parse_packet (Iter now) s))"
    and "to_retry (step parse_packet (Iter now) s) = []"
    by (auto simp add: run_step_loop loop_body_decoded input_retry to_retry_retry)
qed

lemma stale_miss_dropped:
  assumes "status s = Running" and "\<not> shutdown s" and "input s = p # rest"
    and "fst (parse_packet (data p) (templates s)) = Inl e"
    and "e = V9TemplateNotRecognized \<or> e = IPFIXTemplateNotRecognized"
    and "now - RawPacket.ts p > PACKET_TIMEOUT"
  shows "input (step parse_packet (Iter now) s) = rest"
    and "to_retry (step parse_packet (Iter now) s) = to_retry s"
    and "output_q (step parse_packet (Iter now) s) = output_q s"
    and "p \<notin> set rest \<union> set (to_retry s) \<union> set (arrivals evs) \<Longrightarrow>
         p \<notin> fst ` set (attempts parse_packet evs (step parse_packet (Iter now) s)) \<and>
         p \<notin> set (to_retry (run_events parse_packet evs (step parse_packet (Iter now) s)))"
proof -
  let ?s = "run_step parse_packet now s"
  have eq: "?s = template_not_recognized now p
      (s\<lparr>input := rest, templates := snd (parse_packet (data p) (templates s))\<rparr>)"
    using assms by (simp add: run_step_loop loop_body_template_miss [where e = e])
  have local: "input ?s = rest" "to_retry ?s = to_retry s" "output_q ?s = output_q s"
    using assms(6) by (simp_all add: eq to_retry_template_not_recognized)
  show "input (step parse_packet (Iter now) s) = rest"
    and "to_retry (step parse_packet (Iter now) s) = to_retry s"
    and "output_q (step parse_packet (Iter now) s) = output_q s"
    using local by simp_all
  show "p \<notin> fst ` set (attempts parse_packet evs (step parse_packet (Iter now) s)) \<and>
        p \<notin> set (to_retry (run_events parse_packet evs (step parse_packet (Iter now) s)))"
    if "p \<notin> set rest \<union> set (to_retry s) \<union> set (arrivals evs)"
    using that held_run_events [of parse_packet evs ?s] local by auto
qed

lemma stop_fields:
  "shutdown (stop s)" "status (stop s) = status s" "input (stop s) = input s"
  "output_q (stop s) = output_q s" "to_retry (stop s) = to_retry s"
  "templates (stop s) = templates s" "serving (stop s) = serving s"
  "socket_open (stop s) = socket_open s"
  by (simp_all add: stop_def)

lemma shutdown_run_step:
  "shutdown s \<Longrightarrow> shutdown (run_step parse_packet now s)"
  by (cases rule: Iter_cases [of s parse_packet now]) simp_all

lemma shutdown_step:
  "shutdown s \<Longrightarrow> shutdown (step parse_packet e s)"
  by (cases e) (simp_all add: handle_def shutdown_run_step stop_fields)

lemma shutdown_run_events:
  "shutdown s \<Longrightarrow> shutdown (run_events parse_packet evs s)"
  by (induction evs arbitrary: s) (simp_all add: shutdown_step)

lemma shutdown_loop_body:
  "shutdown s \<Longrightarrow> shutdown (loop_body parse_packet now s)"
proof (cases "input s")
  case Nil
  then show "shutdown s \<Longrightarrow> ?thesis" by (simp add: loop_body_def)
next
  case (Cons pkt rest)
  obtain r tpl where p: "parse_packet (data pkt) (templates s) = (r, tpl)"
    by (cases "parse_packet (data pkt) (templates s)")
  show "shutdown s \<Longrightarrow> ?thesis"
  proof (cases r)
    case (Inl x)
    then show "shutdown s \<Longrightarrow> ?thesis" using Cons p
      by (cases x) (simp_all add: loop_body_def)
  next
    case (Inr ex)
    then show "shutdown s \<Longrightarrow> ?thesis" using Cons p by (simp add: loop_body_def)
  qed
qed

lemma loop_body_stop:
  "(loop_body parse_packet now (stop s))\<lparr>logged := l\<rparr> =
   (stop (loop_body parse_packet now s))\<lparr>logged := l\<rparr>"
proof (cases "input s")
  case Nil
  then show ?thesis by (simp add: loop_body_def stop_def)
next
  case (Cons pkt rest)
  obtain r tpl where p: "parse_packet (data pkt) (templates s) = (r, tpl)"
    by (cases "parse_packet (data pkt) (templates s)")
  show ?thesis
  proof (cases r)
    case (Inl x)
    then show ?thesis using Cons p
      by (cases x)
        (simp_all add: loop_body_def stop_def template_not_recognized_def finally_clause_def)
  next
    case (Inr ex)
    then show ?thesis using Cons p
      by (simp add: loop_body_def stop_def emit_def retry_on_new_templates_def
          log_processed_def)
  qed
qed

lemma observed_exit:
  assumes "status s = Running" and "shutdown s"
  shows "attempt_at parse_packet s = []"
    and "run_step parse_packet now s = finally_clause (s\<lparr>status := Exited\<rparr>)"
  using assms by (simp_all add: attempt_at_def run_step_def)

lemma run_events_append:
  "run_events parse_packet (xs @ ys) s = run_events parse_packet ys (run_events parse_packet xs s)"
  by (induction xs arbitrary: s) simp_all

lemma attempts_append:
  "attempts parse_packet (xs @ ys) s =
     attempts parse_packet xs s @ attempts parse_packet ys (run_events parse_packet xs s)"
  by (induction xs arbitrary: s) simp_all

lemma reaches_head:
  assumes "status s = Running" and "\<not> shutdown s" and "input s = pre @ p # post"
    and "\<forall>e \<in> set evs. \<not> is_stop e"
    and "length pre < length (filter is_iter evs)"
    and "\<forall>a \<in> set (attempts parse_packet evs s). \<not> uncaught a"
  shows "\<exists>evs1 now evs2 rest'. evs = evs1 @ Iter now # evs2 \<and>
           length (filter is_iter evs1) = length pre \<and>
           status (run_events parse_packet evs1 s) = Running \<and>
           \<not> shutdown (run_events parse_packet evs1 s) \<and>
           input (run_events parse_packet evs1 s) = p # rest'"
  using assms
proof (induction evs arbitrary: s pre post)
  case Nil
  then show ?case by simp
next
  case (Cons e evs)
  show ?case
  proof (cases e)
    case Stop
    then show ?thesis using Cons.prems(4) by simp
  next
    case (Datagram now c d)
    let ?s = "step parse_packet e s"
    have st: "status ?s = Running" "\<not> shutdown ?s"
      and "\<exists>post'. input ?s = pre @ p # post'"
      using Cons.prems(1,2,3) Datagram by (auto simp add: handle_def put_def)
    then obtain post' where i: "input ?s = pre @ p # post'" by blast
    have a: "\<forall>e \<in> set evs. \<not> is_stop e" "length pre < length (filter is_iter evs)"
      "\<forall>a \<in> set (attempts parse_packet evs ?s). \<not> uncaught a"
      using Cons.prems(4,5,6) Datagram by simp_all
    from Cons.IH [OF st i a]
    obtain evs1 now' evs2 rest' where r: "evs = evs1 @ Iter now' # evs2"
      "length (filter is_iter evs1) = length pre"
      "status (run_events parse_packet evs1 ?s) = Running"
      "\<not> shutdown (run_events parse_packet evs1 ?s)"
      "input (run_events parse_packet evs1 ?s) = p # rest'"
      by blast
    show ?thesis
    proof (intro exI conjI)
      show "e # evs = (e # evs1) @ Iter now' # evs2" using r(1) by simp
      show "length (filter is_iter (e # evs1)) = length pre" using r(2) Datagram by simp
      show "status (run_events parse_packet (e # evs1) s) = Running" using r(3) by simp
      show "\<not> shutdown (run_events parse_packet (e # evs1) s)" using r(4) by simp
      show "input (run_events parse_packet (e # evs1) s) = p # rest'" using r(5) by simp
    qed
  next
    case (Iter now)
    let ?s = "step parse_packet e s"
    show ?thesis
    proof (cases pre)
      case Nil
      show ?thesis
      proof (intro exI conjI)
        show "e # evs = [] @ Iter now # evs" using Iter by simp
        show "length (filter is_iter ([] :: 'a event list)) = length pre" using Nil by simp
        show "status (run_events parse_packet [] s) = Running" using Cons.prems(1) by simp
        show "\<not> shutdown (run_events parse_packet [] s)" using Cons.prems(2) by simp
        show "input (run_events parse_packet [] s) = p # post" using Cons.prems(3) Nil by simp
      qed
    next
      case (Cons x pre')
      let ?a = "(x, fst (parse_packet (data x) (templates s)))"
      have at: "attempt_at parse_packet s = [?a]"
        using Cons.prems(1,2,3) Cons by (simp add: attempt_at_def)
      have ok: "\<not> uncaught ?a"
        using Cons.prems(6) at Iter by simp
      from attempt_at_survives [OF at ok, of now]
      obtain more where s': "status ?s = Running" "\<not> shutdown ?s"
        "input ?s = pre' @ p # (post @ more)"
        using Iter Cons Cons.prems(3) by auto
      have a: "\<forall>e \<in> set evs. \<not> is_stop e" "length pre' < length (filter is_iter evs)"
        "\<forall>a \<in> set (attempts parse_packet evs ?s). \<not> uncaught a"
        using Cons.prems(4,5,6) Iter Cons by simp_all
      from Cons.IH [OF s' a]
      obtain evs1 now' evs2 rest' where r: "evs = evs1 @ Iter now' # evs2"
        "length (filter is_iter evs1) = length pre'"
        "status (run_events parse_packet evs1 ?s) = Running"
        "\<not> shutdown (run_events parse_packet evs1 ?s)"
        "input (run_events parse_packet evs1 ?s) = p # rest'"
        by blast
      show ?thesis
      proof (intro exI conjI)
        show "e # evs = (e # evs1) @ Iter now' # evs2" using r(1) by simp
        show "length (filter is_iter (e # evs1)) = length pre" using r(2) Iter Cons by simp
        show "status (run_events parse_packet (e # evs1) s) = Running" using r(3) by simp
        show "\<not> shutdown (run_events parse_packet (e # evs1) s)" using r(4) by simp
        show "input (run_events parse_packet (e # evs1) s) = p # rest'" using r(5) by simp
      qed
    qed
  qed
qed

lemma reinjected_then_attempted:
  assumes "status s = Running" and "\<not> shutdown s" and "input s = q # rest"
    and "fst (parse_packet (data q) (templates s)) = Inr ex" and "new_template_event (q, Inr ex)"
    and "p \<in> set (to_retry s)"
  shows "input (step parse_packet (Iter now) s) = rest @ to_retry s"
    and "to_retry (step parse_packet (Iter now) s) = []"
    and "status (step parse_packet (Iter now) s) = Running"
    and "\<not> shutdown (step parse_packet (Iter now) s)"
    and "(\<forall>e \<in> set evs. \<not> is_stop e) \<Longrightarrow>
         length rest + length (to_retry s) \<le> length (filter is_iter evs) \<Longrightarrow>
         (\<forall>a \<in> set (attempts parse_packet evs (step parse_packet (Iter now) s)). \<not> uncaught a) \<Longrightarrow>
         \<exists>evs1 now' evs2 rest'. evs = evs1 @ Iter now' # evs2 \<and>
           status (run_events parse_packet evs1 (step parse_packet (Iter now) s)) = Running \<and>
           \<not> shutdown (run_events parse_packet evs1 (step parse_packet (Iter now) s)) \<and>
           input (run_events parse_packet evs1 (step parse_packet (Iter now) s)) = p # rest' \<and>
           (p, fst (parse_packet (data p)
                 (templates (run_events parse_packet evs1 (step parse_packet (Iter now) s))))) \<in>
             set (attempts parse_packet evs (step parse_packet (Iter now) s))"
proof -
  let ?s = "step parse_packet (Iter now) s"
  from assms(6) obtain pre post where split: "to_retry s = pre @ p # post"
    by (auto simp add: in_set_conv_decomp)
  then have ne: "to_retry s \<noteq> []" by simp
  show s': "input ?s = rest @ to_retry s" "to_retry ?s = []" "status ?s = Running" "\<not> shutdown ?s"
    using assms(1-5) ne
    by (simp_all add: run_step_loop loop_body_decoded input_retry to_retry_retry)
  show "\<exists>evs1 now' evs2 rest'. evs = evs1 @ Iter now' # evs2 \<and>
           status (run_events parse_packet evs1 ?s) = Running \<and>
           \<not> shutdown (run_events parse_packet evs1 ?s) \<and>
           input (run_events parse_packet evs1 ?s) = p # rest' \<and>
           (p, fst (parse_packet (data p) (templates (run_events parse_packet evs1 ?s)))) \<in>
             set (attempts parse_packet evs ?s)"
    if run: "\<forall>e \<in> set evs. \<not> is_stop e"
      "length rest + length (to_retry s) \<le> length (filter is_iter evs)"
      "\<forall>a \<in> set (attempts parse_packet evs ?s). \<not> uncaught a"
  proof -
    have i: "input ?s = (rest @ pre) @ p # post"
      using s'(1) split by simp
    have len: "length (rest @ pre) < length (filter is_iter evs)"
      using run(2) split by simp
    from reaches_head [OF s'(3) s'(4) i run(1) len run(3)]
    obtain evs1 now' evs2 rest' where r: "evs = evs1 @ Iter now' # evs2"
      "status (run_events parse_packet evs1 ?s) = Running"
      "\<not> shutdown (run_events parse_packet evs1 ?s)"
      "input (run_events parse_packet evs1 ?s) = p # rest'"
      by blast
    have "attempts parse_packet evs ?s =
        attempts parse_packet evs1 ?s @
        attempt_at parse_packet (run_events parse_packet evs1 ?s) @
        attempts parse_packet evs2
          (step parse_packet (Iter now') (run_events parse_packet evs1 ?s))"
      unfolding r(1) attempts_append by simp
    then have "(p, fst (parse_packet (data p) (templates (run_events parse_packet evs1 ?s)))) \<in>
        set (attempts parse_packet evs ?s)"
      using attempt_at_head [OF r(2,3,4), of parse_packet] by simp
    then show ?thesis using r by blast
  qed
qed

lemma input_without_event_run_step:
  assumes "\<forall>a \<in> set (attempt_at parse_packet s). \<not> new_template_event a"
  shows "set (input (run_step parse_packet now s)) \<union> fst ` set (attempt_at parse_packet s)
           \<subseteq> set (input s)"
  using assms
  by (cases rule: Iter_cases [of s parse_packet now]) (auto simp add: input_retry split: if_splits)

lemma input_without_event_step:
  assumes "\<forall>a \<in> set (attempt_of parse_packet e s). \<not> new_template_event a"
  shows "set (input (step parse_packet e s)) \<union> fst ` set (attempt_of parse_packet e s)
           \<subseteq> set (input s) \<union> set (arrivals [e])"
proof (cases e)
  case (Iter now)
  then show ?thesis using assms input_without_event_run_step [of parse_packet s now] by auto
qed (auto simp add: handle_def stop_def put_def)

lemma input_without_event_run_events:
  assumes "\<forall>a \<in> set (attempts parse_packet evs s). \<not> new_template_event a"
  shows "set (input (run_events parse_packet evs s)) \<union> fst ` set (attempts parse_packet evs s)
           \<subseteq> set (input s) \<union> set (arrivals evs)"
  using assms
proof (induction evs arbitrary: s)
  case Nil
  then show ?case by simp
next
  case (Cons e evs)
  have a: "set (arrivals (e # evs)) = set (arrivals [e]) \<union> set (arrivals evs)"
    by (cases e) simp_all
  have 1: "\<forall>a \<in> set (attempt_of parse_packet e s). \<not> new_template_event a"
    and 2: "\<forall>a \<in> set (attempts parse_packet evs (step parse_packet e s)). \<not> new_template_event a"
    using Cons.prems by simp_all
  show ?case
    using Cons.IH [OF 2] input_without_event_step [OF 1]
    unfolding a by (simp del: arrivals.simps) blast
qed

lemma held_without_event:
  assumes "p \<in> set (to_retry s)" and "p \<notin> set (input s) \<union> set (arrivals evs)"
    and "\<forall>a \<in> set (attempts parse_packet evs s). \<not> new_template_event a"
  shows "p \<notin> fst ` set (attempts parse_packet evs s)"
    and "p \<notin> set (emitted_packets parse_packet evs s)"
    and "p \<in> set (to_retry (run_events parse_packet evs s))"
proof -
  show a: "p \<notin> fst ` set (attempts parse_packet evs s)"
    using input_without_event_run_events [OF assms(3)] assms(2) by blast
  then show "p \<notin> set (emitted_packets parse_packet evs s)"
    by (auto simp add: emitted_packets_def)
  from not_reinjected_run_events [OF assms(3)]
  show "p \<in> set (to_retry (run_events parse_packet evs s))"
    using assms(1) by auto
qed

lemma emitted_count_le:
  "count (mset (emitted_packets parse_packet evs s)) p \<le>
     count (mset (input s) + mset (to_retry s) + mset (arrivals evs)) p"
proof -
  have "mset (emitted_packets parse_packet evs s) \<subseteq>#
      mset (input (run_events parse_packet evs s)) +
      mset (to_retry (run_events parse_packet evs s)) +
      mset (emitted_packets parse_packet evs s)"
    by simp
  also have "\<dots> \<subseteq># mset (input s) + mset (to_retry s) + mset (arrivals evs)"
    by (rule pending_run_events)
  finally show ?thesis
    by (rule mset_subset_eq_count)
qed

lemma emitted_exactly_once:
  assumes "status s = Running" and "\<not> shutdown s" and "input s = q # rest"
    and "fst (parse_packet (data q) (templates s)) = Inr exq"
    and "new_template_event (q, Inr exq)"
    and "p \<in> set (to_retry s)"
    and "\<forall>e \<in> set evs. \<not> is_stop e"
    and "length rest + length (to_retry s) \<le> length (filter is_iter evs)"
    and "\<forall>a \<in> set (attempts parse_packet evs (step parse_packet (Iter now) s)). \<not> uncaught a"
    and "\<forall>a \<in> set (attempts parse_packet evs (step parse_packet (Iter now) s)).
           fst a = p \<longrightarrow> \<not> isl (snd a)"
    and "count (mset (input s) + mset (to_retry s) + mset (arrivals evs)) p = 1"
  shows "count (mset (emitted_packets parse_packet (Iter now # evs) s)) p = 1"
    and "\<exists>ex. (p, Inr ex) \<in> set (attempts parse_packet (Iter now # evs) s) \<and>
           \<lparr>ParsedPacket.ts = RawPacket.ts p, client = RawPacket.client p, export = ex\<rparr> \<in>
             set (output_q (run_events parse_packet (Iter now # evs) s))"
proof -
  let ?s = "step parse_packet (Iter now) s"
  from assms(6) obtain pre post where split: "to_retry s = pre @ p # post"
    by (auto simp add: in_set_conv_decomp)
  then have "to_retry s \<noteq> []" by simp
  then have s': "status ?s = Running" "\<not> shutdown ?s" "input ?s = (rest @ pre) @ p # post"
    using assms(1-5) split by (simp_all add: run_step_loop loop_body_decoded input_retry)
  have len: "length (rest @ pre) < length (filter is_iter evs)"
    using assms(8) split by simp
  from reattempted [OF s' assms(7) len assms(9)]
  obtain r where r: "(p, r) \<in> set (attempts parse_packet evs ?s)"
    "set (emitted_of (p, r)) \<subseteq> set (output_q (run_events parse_packet evs ?s))"
    by blast
  from r(1) assms(10) have "\<not> isl r" by fastforce
  then obtain ex where ex: "r = Inr ex" by (cases r) simp_all
  have mem: "(p, Inr ex) \<in> set (attempts parse_packet (Iter now # evs) s)"
    using r(1) ex by simp
  show "\<exists>ex. (p, Inr ex) \<in> set (attempts parse_packet (Iter now # evs) s) \<and>
           \<lparr>ParsedPacket.ts = RawPacket.ts p, client = RawPacket.client p, export = ex\<rparr> \<in>
             set (output_q (run_events parse_packet (Iter now # evs) s))"
    using mem r(2) ex by auto
  have "p \<in> set (emitted_packets parse_packet (Iter now # evs) s)"
    unfolding emitted_packets_def using mem by force
  then have "count (mset (emitted_packets parse_packet (Iter now # evs) s)) p \<noteq> 0"
    by (simp add: count_mset_0_iff)
  moreover have "count (mset (emitted_packets parse_packet (Iter now # evs) s)) p \<le> 1"
    using emitted_count_le [of parse_packet "Iter now # evs" s p] assms(11) by simp
  ultimately show "count (mset (emitted_packets parse_packet (Iter now # evs) s)) p = 1"
    by arith
qed

lemma not_emitted_before_definition:
  assumes needs: "\<And>d tpl ex. fst (parse_packet d tpl) = Inr ex \<Longrightarrow> refers d T \<Longrightarrow>
                    known (snd (parse_packet d tpl)) T"
    and learns: "\<And>d tpl. known (snd (parse_packet d tpl)) T \<Longrightarrow> known tpl T \<or> defined_in d T"
    and "refers (data p) T" and "\<not> defined_in (data p) T"
    and "\<not> known (templates s) T"
    and "\<forall>a \<in> set (attempts parse_packet evs s). \<not> defined_in (data (fst a)) T"
  shows "p \<notin> set (emitted_packets parse_packet evs s)"
proof
  assume "p \<in> set (emitted_packets parse_packet evs s)"
  then obtain r where "(p, r) \<in> set (attempts parse_packet evs s)" "\<not> isl r"
    by (auto simp add: emitted_packets_def)
  then obtain ex where "(p, Inr ex) \<in> set (attempts parse_packet evs s)"
    by (cases r) auto
  then obtain xs ys where sp: "attempts parse_packet evs s = xs @ (p, Inr ex) # ys"
    by (auto simp add: in_set_conv_decomp)
  have "\<exists>q \<in> fst ` set xs. defined_in (data q) T"
    by (rule not_before_definition
        [where parse_packet = parse_packet and known = known and refers = refers
            and defined_in = defined_in and T = T,
          OF needs learns assms(3) assms(4) assms(5) sp])
  then obtain a where "a \<in> set xs" "defined_in (data (fst a)) T" by auto
  then show False using assms(6) sp by auto
qed

text \<open>The sample decoder meets the two conditions on a decoder that the retry theorem asks for.\<close>

lemma sample_needs:
  assumes "fst (sample_parse_packet d tpl) = Inr ex" and "sample_refers d t"
  shows "sample_knows (snd (sample_parse_packet d tpl)) t"
proof -
  from assms(2) obtain kind where d: "d = [0, 9, kind, t]" and k: "kind \<noteq> 0"
    by (auto simp add: sample_refers_def split: list.splits)
  show ?thesis
    using assms(1) k unfolding d
    by (auto simp add: sample_parse_packet_def sample_record_def sample_knows_def
        split: if_splits)
qed

lemma sample_record_learns:
  assumes "snd (sample_record miss v rest m) t \<noteq> None"
  shows "m t \<noteq> None \<or> rest = [0, t]"
  using assms
  by (auto simp add: sample_record_def split: list.splits if_splits)

lemma sample_learns:
  assumes "sample_knows (snd (sample_parse_packet d tpl)) t"
  shows "sample_knows tpl t \<or> sample_defines d t"
proof (cases d)
  case Nil
  then show ?thesis using assms by (simp add: sample_parse_packet_def)
next
  case (Cons hi d')
  show ?thesis
  proof (cases d')
    case Nil
    then show ?thesis using assms Cons by (simp add: sample_parse_packet_def)
  next
    case (Cons lo rest)
    note d = \<open>d = hi # d'\<close> Cons
    show ?thesis
    proof (cases "hi = 0 \<and> lo = 9")
      case True
      then have "snd (sample_record V9TemplateNotRecognized 9 rest (netflow tpl)) t \<noteq> None"
        using assms d
        by (simp add: sample_parse_packet_def sample_knows_def split: prod.splits)
      from sample_record_learns [OF this] show ?thesis
        using True d by (auto simp add: sample_knows_def sample_defines_def)
    next
      case False
      then have "netflow (snd (sample_parse_packet d tpl)) = netflow tpl"
        using d by (auto simp add: sample_parse_packet_def split: prod.splits)
      then show ?thesis using assms by (simp add: sample_knows_def)
    qed
  qed
qed

text \<open>The second sample decoder meets the same two conditions.\<close>

lemma six_or_not:
  "(\<exists>a b c e f g. d = [a, b, c, e, f, g]) \<or>
   (sample_parse_packet2 d = sample_parse_packet d \<and> sample_defines2 d = sample_defines d \<and>
    sample_refers2 d = sample_refers d)"
proof (cases "\<exists>a b c e f g. d = [a, b, c, e, f, g]")
  case True
  then show ?thesis by (rule disjI1)
next
  case False
  then have "sample_parse_packet2 d = sample_parse_packet d \<and>
      sample_defines2 d = sample_defines d \<and> sample_refers2 d = sample_refers d"
    by (auto simp add: sample_parse_packet2_def sample_defines2_def sample_refers2_def
        fun_eq_iff split: list.splits)
  then show ?thesis by (rule disjI2)
qed

lemma sample2_needs:
  assumes "fst (sample_parse_packet2 d tpl) = Inr ex" and "sample_refers2 d t"
  shows "sample_knows (snd (sample_parse_packet2 d tpl)) t"
  using six_or_not [of d]
proof (elim disjE exE conjE)
  fix a b c e f g
  assume "d = [a, b, c, e, f, g]"
  then show ?thesis using assms
    by (auto simp add: sample_parse_packet2_def sample_refers2_def sample_knows_def
        split: if_splits)
next
  assume "sample_parse_packet2 d = sample_parse_packet d" "sample_refers2 d = sample_refers d"
  then show ?thesis using assms sample_needs [of d tpl ex t] by simp
qed

lemma sample2_learns:
  assumes "sample_knows (snd (sample_parse_packet2 d tpl)) t"
  shows "sample_knows tpl t \<or> sample_defines2 d t"
  using six_or_not [of d]
proof (elim disjE exE conjE)
  fix a b c e f g
  assume "d = [a, b, c, e, f, g]"
  then show ?thesis using assms
    by (auto simp add: sample_parse_packet2_def sample_defines2_def sample_knows_def
        split: if_splits)
next
  assume "sample_parse_packet2 d = sample_parse_packet d" "sample_defines2 d = sample_defines d"
  then show ?thesis using assms sample_learns [of d tpl t] by simp
qed

section \<open>A packet that decodes\<close>

text \<open>
  Claim C9. Every packet that decodes is put on the output queue as a
  \<^verbatim>\<open>ParsedPacket\<close> with the time stamp and the client address of its
  \<^verbatim>\<open>RawPacket\<close>, whatever its age: the clock is not read on this path, so the
  statement holds for every reading \<open>now\<close> of the clock, also when the packet is older
  than \<^verbatim>\<open>PACKET_TIMEOUT\<close>.
\<close>

theorem decoded_packet_is_emitted:
  assumes "status s = Running" and "\<not> shutdown s" and "input s = pkt # rest"
    and "fst (parse_packet (data pkt) (templates s)) = Inr ex"
  shows "\<forall>now. output_q (step parse_packet (Iter now) s) =
           output_q s @
             [\<lparr>ParsedPacket.ts = RawPacket.ts pkt, client = RawPacket.client pkt, export = ex\<rparr>]"
  using assms by (simp add: run_step_loop loop_body_decoded)

theorem decoded_packet_is_emitted_witness:
  "status (started [v5_pkt 0]) = Running \<and> \<not> shutdown (started [v5_pkt 0]) \<and>
   input (started [v5_pkt 0]) = [v5_pkt 0] \<and>
   fst (sample_parse_packet (data (v5_pkt 0)) (templates (started [v5_pkt 0]))) =
     Inr (sample_export 5 False []) \<and>
   10000 - RawPacket.ts (v5_pkt 0) > PACKET_TIMEOUT \<and>
   output_q (step sample_parse_packet (Iter 10000) (started [v5_pkt 0])) =
     [\<lparr>ParsedPacket.ts = 0, client = exporter, export = sample_export 5 False []\<rparr>]"
proof -
  have h1: "status (started [v5_pkt 0]) = Running"
    and h2: "\<not> shutdown (started [v5_pkt 0])"
    and h3: "input (started [v5_pkt 0]) = v5_pkt 0 # []"
    by (simp_all add: started_def init_listener_def)
  have h4: "fst (sample_parse_packet (data (v5_pkt 0)) (templates (started [v5_pkt 0]))) =
              Inr (sample_export 5 False [])"
    by (simp add: sample_parse_packet_def v5_pkt_def)
  have old: "10000 - RawPacket.ts (v5_pkt 0) > PACKET_TIMEOUT"
    by (simp add: v5_pkt_def PACKET_TIMEOUT_def)
  from decoded_packet_is_emitted [where parse_packet = sample_parse_packet, OF h1 h2 h3 h4]
  have "output_q (step sample_parse_packet (Iter 10000) (started [v5_pkt 0])) =
          output_q (started [v5_pkt 0]) @
            [\<lparr>ParsedPacket.ts = RawPacket.ts (v5_pkt 0), client = RawPacket.client (v5_pkt 0),
              export = sample_export 5 False []\<rparr>]"
    by blast
  then show ?thesis
    using h1 h2 h3 h4 old by (simp add: started_def init_listener_def v5_pkt_def)
qed

section \<open>A packet whose template is not known\<close>

text \<open>
  Claim C2. When the decoder raises one of the two template-not-recognized exceptions
  for the packet at the head of the input queue: if the clock reading minus the
  packet's time stamp is greater than \<^verbatim>\<open>PACKET_TIMEOUT\<close>, which is 3600 seconds, the
  packet is dropped with a warning and the retry list stays as it was; otherwise the
  packet is appended to the retry list. In both cases the packet has left the input
  queue and nothing is put on the output queue.
\<close>

theorem template_miss_dropped_or_buffered:
  assumes "status s = Running" and "\<not> shutdown s" and "input s = pkt # rest"
    and "fst (parse_packet (data pkt) (templates s)) = Inl e"
    and "e = V9TemplateNotRecognized \<or> e = IPFIXTemplateNotRecognized"
  shows "PACKET_TIMEOUT = 3600 \<and>
         (if now - RawPacket.ts pkt > PACKET_TIMEOUT
          then to_retry (step parse_packet (Iter now) s) = to_retry s \<and>
               logged (step parse_packet (Iter now) s) = logged s @ [Warning_Dropping_old]
          else to_retry (step parse_packet (Iter now) s) = to_retry s @ [pkt]) \<and>
         input (step parse_packet (Iter now) s) = rest \<and>
         output_q (step parse_packet (Iter now) s) = output_q s"
  using assms
  by (simp add: run_step_loop loop_body_template_miss [where e = e]
      to_retry_template_not_recognized logged_template_not_recognized PACKET_TIMEOUT_def)

theorem template_miss_dropped_or_buffered_witness:
  "status (started [data_pkt 0]) = Running \<and> \<not> shutdown (started [data_pkt 0]) \<and>
   input (started [data_pkt 0]) = [data_pkt 0] \<and>
   fst (sample_parse_packet (data (data_pkt 0)) (templates (started [data_pkt 0]))) =
     Inl V9TemplateNotRecognized \<and>
   to_retry (step sample_parse_packet (Iter 4000) (started [data_pkt 0])) = [] \<and>
   logged (step sample_parse_packet (Iter 4000) (started [data_pkt 0])) = [Warning_Dropping_old] \<and>
   to_retry (step sample_parse_packet (Iter 3600) (started [data_pkt 0])) = [data_pkt 0] \<and>
   output_q (step sample_parse_packet (Iter 4000) (started [data_pkt 0])) = [] \<and>
   output_q (step sample_parse_packet (Iter 3600) (started [data_pkt 0])) = []"
proof -
  have h1: "status (started [data_pkt 0]) = Running"
    and h2: "\<not> shutdown (started [data_pkt 0])"
    and h3: "input (started [data_pkt 0]) = data_pkt 0 # []"
    by (simp_all add: started_def init_listener_def)
  have h4: "fst (sample_parse_packet (data (data_pkt 0)) (templates (started [data_pkt 0]))) =
              Inl V9TemplateNotRecognized"
    by (simp add: sample_defs)
  have h5: "V9TemplateNotRecognized = V9TemplateNotRecognized \<or>
            V9TemplateNotRecognized = IPFIXTemplateNotRecognized"
    by simp
  note inst = template_miss_dropped_or_buffered
    [where parse_packet = sample_parse_packet, OF h1 h2 h3 h4 h5]
  have old: "4000 - RawPacket.ts (data_pkt 0) > PACKET_TIMEOUT"
    and young: "\<not> 3600 - RawPacket.ts (data_pkt 0) > PACKET_TIMEOUT"
    by (simp_all add: data_pkt_def PACKET_TIMEOUT_def)
  have a: "to_retry (step sample_parse_packet (Iter 4000) (started [data_pkt 0])) =
             to_retry (started [data_pkt 0]) \<and>
           logged (step sample_parse_packet (Iter 4000) (started [data_pkt 0])) =
             logged (started [data_pkt 0]) @ [Warning_Dropping_old] \<and>
           output_q (step sample_parse_packet (Iter 4000) (started [data_pkt 0])) =
             output_q (started [data_pkt 0])"
    using inst [of 4000] old by (simp add: PACKET_TIMEOUT_def)
  have b: "to_retry (step sample_parse_packet (Iter 3600) (started [data_pkt 0])) =
             to_retry (started [data_pkt 0]) @ [data_pkt 0] \<and>
           output_q (step sample_parse_packet (Iter 3600) (started [data_pkt 0])) =
             output_q (started [data_pkt 0])"
    using inst [of 3600] young by (simp add: PACKET_TIMEOUT_def)
  have c: "to_retry (started [data_pkt 0]) = []" "logged (started [data_pkt 0]) = []"
    "output_q (started [data_pkt 0]) = []"
    by (simp_all add: started_def init_listener_def)
  show ?thesis
    using a b c h1 h2 h3 h4 by simp
qed

section \<open>New templates: the retry pass\<close>

text \<open>
  Claim C3. After a packet has decoded: when the export has version 9 or 10, says
  that it contains new templates, and the retry list is not empty, the whole retry list
  (every held packet, whoever sent it) is put on the input queue behind what the queue
  holds, in the order of the list, and the list is cleared; when one of the three
  conditions fails the retry list stays as it was and nothing is added to the input
  queue.
\<close>

theorem retry_buffer_reinjected:
  assumes "status s = Running" and "\<not> shutdown s" and "input s = pkt # rest"
    and "fst (parse_packet (data pkt) (templates s)) = Inr ex"
  shows "if version (header ex) \<in> {9, 10} \<and> contains_new_templates ex \<and> to_retry s \<noteq> []
         then input (step parse_packet (Iter now) s) = rest @ to_retry s \<and>
              to_retry (step parse_packet (Iter now) s) = []
         else to_retry (step parse_packet (Iter now) s) = to_retry s \<and>
              input (step parse_packet (Iter now) s) = rest"
  using assms
  by (auto simp add: run_step_loop loop_body_decoded input_retry to_retry_retry)

theorem retry_buffer_reinjected_witness:
  "status ((started [template_pkt 5, v5_pkt 6])\<lparr>to_retry := [data_pkt 0, data_pkt 1]\<rparr>) = Running \<and>
   \<not> shutdown ((started [template_pkt 5, v5_pkt 6])\<lparr>to_retry := [data_pkt 0, data_pkt 1]\<rparr>) \<and>
   input ((started [template_pkt 5, v5_pkt 6])\<lparr>to_retry := [data_pkt 0, data_pkt 1]\<rparr>) =
     [template_pkt 5, v5_pkt 6] \<and>
   fst (sample_parse_packet (data (template_pkt 5))
          (templates ((started [template_pkt 5, v5_pkt 6])\<lparr>to_retry := [data_pkt 0, data_pkt 1]\<rparr>))) =
     Inr (sample_export 9 True [0, 42]) \<and>
   input (step sample_parse_packet (Iter 7)
            ((started [template_pkt 5, v5_pkt 6])\<lparr>to_retry := [data_pkt 0, data_pkt 1]\<rparr>)) =
     [v5_pkt 6, data_pkt 0, data_pkt 1] \<and>
   to_retry (step sample_parse_packet (Iter 7)
            ((started [template_pkt 5, v5_pkt 6])\<lparr>to_retry := [data_pkt 0, data_pkt 1]\<rparr>)) = []"
proof -
  let ?s = "(started [template_pkt 5, v5_pkt 6])\<lparr>to_retry := [data_pkt 0, data_pkt 1]\<rparr>"
  have h1: "status ?s = Running"
    and h2: "\<not> shutdown ?s"
    and h3: "input ?s = template_pkt 5 # [v5_pkt 6]"
    by (simp_all add: started_def init_listener_def)
  have h4: "fst (sample_parse_packet (data (template_pkt 5)) (templates ?s)) =
              Inr (sample_export 9 True [0, 42])"
    by (simp add: sample_defs)
  show ?thesis
    using retry_buffer_reinjected [where parse_packet = sample_parse_packet and now = 7,
        OF h1 h2 h3 h4] h1 h2 h3 h4
    by (simp add: sample_export_def started_def init_listener_def)
qed

section \<open>A packet of an unsupported version\<close>

text \<open>
  Claim C6. When the decoder raises the unsupported-version exception for the packet
  at the head of the input queue, the packet is logged (an error message) and
  discarded: it is not appended to the retry list, it is not put back on the input
  queue, nothing is put on the output queue. The thread stays in its loop, and its
  next pass takes the packet that follows. In every later run in which the same raw
  packet is not received again, the packet is never handed to the decoder again, sits
  in neither list, and everything on the output queue comes from attempts on other
  packets.
\<close>

theorem unsupported_version_discarded:
  assumes "status s = Running" and "\<not> shutdown s" and "input s = pkt # rest"
    and "fst (parse_packet (data pkt) (templates s)) = Inl UnknownExportVersion"
  shows "to_retry (step parse_packet (Iter now) s) = to_retry s \<and>
         input (step parse_packet (Iter now) s) = rest \<and>
         output_q (step parse_packet (Iter now) s) = output_q s \<and>
         logged (step parse_packet (Iter now) s) = logged s @ [Error_ignoring_the_packet] \<and>
         status (step parse_packet (Iter now) s) = Running \<and>
         \<not> shutdown (step parse_packet (Iter now) s) \<and>
         (\<forall>q qs. rest = q # qs \<longrightarrow>
            attempt_at parse_packet (step parse_packet (Iter now) s) =
              [(q, fst (parse_packet (data q) (templates (step parse_packet (Iter now) s))))]) \<and>
         (\<forall>evs. pkt \<notin> set rest \<union> set (to_retry s) \<union> set (arrivals evs) \<longrightarrow>
            pkt \<notin> fst ` set (attempts parse_packet evs (step parse_packet (Iter now) s)) \<and>
            pkt \<notin> set (to_retry (run_events parse_packet evs (step parse_packet (Iter now) s))) \<and>
            pkt \<notin> set (input (run_events parse_packet evs (step parse_packet (Iter now) s))) \<and>
            output_q (run_events parse_packet evs (step parse_packet (Iter now) s)) =
              output_q s @
                concat (map emitted_of (attempts parse_packet evs (step parse_packet (Iter now) s))))"
proof -
  let ?s = "run_step parse_packet now s"
  have eq: "?s = s\<lparr>input := rest, templates := snd (parse_packet (data pkt) (templates s)),
                    logged := logged s @ [Error_ignoring_the_packet]\<rparr>"
    using assms by (simp add: run_step_loop loop_body_unknown_version)
  have local: "to_retry ?s = to_retry s" "input ?s = rest" "output_q ?s = output_q s"
    "logged ?s = logged s @ [Error_ignoring_the_packet]" "status ?s = Running" "\<not> shutdown ?s"
    using assms(1,2) by (simp_all add: eq)
  have next_pkt: "\<forall>q qs. rest = q # qs \<longrightarrow>
      attempt_at parse_packet ?s = [(q, fst (parse_packet (data q) (templates ?s)))]"
    using local by (simp add: attempt_at_def)
  have later: "pkt \<notin> fst ` set (attempts parse_packet evs ?s) \<and>
      pkt \<notin> set (to_retry (run_events parse_packet evs ?s)) \<and>
      pkt \<notin> set (input (run_events parse_packet evs ?s)) \<and>
      output_q (run_events parse_packet evs ?s) =
        output_q s @ concat (map emitted_of (attempts parse_packet evs ?s))"
    if "pkt \<notin> set rest \<union> set (to_retry s) \<union> set (arrivals evs)" for evs
    using that held_run_events [of parse_packet evs ?s] output_q_run_events [of parse_packet evs ?s]
      local
    by auto
  show ?thesis
    unfolding step.simps using local next_pkt later by blast
qed

theorem unsupported_version_discarded_witness:
  "status (started [bad_version_pkt 0, v5_pkt 1]) = Running \<and>
   \<not> shutdown (started [bad_version_pkt 0, v5_pkt 1]) \<and>
   input (started [bad_version_pkt 0, v5_pkt 1]) = [bad_version_pkt 0, v5_pkt 1] \<and>
   fst (sample_parse_packet (data (bad_version_pkt 0))
          (templates (started [bad_version_pkt 0, v5_pkt 1]))) = Inl UnknownExportVersion \<and>
   bad_version_pkt 0 \<notin> set [v5_pkt 1] \<union> set (to_retry (started [bad_version_pkt 0, v5_pkt 1])) \<union>
      set (arrivals [Iter 3, Iter 4]) \<and>
   to_retry (step sample_parse_packet (Iter 2) (started [bad_version_pkt 0, v5_pkt 1])) = [] \<and>
   logged (step sample_parse_packet (Iter 2) (started [bad_version_pkt 0, v5_pkt 1])) =
     [Error_ignoring_the_packet] \<and>
   bad_version_pkt 0 \<notin> fst ` set (attempts sample_parse_packet [Iter 3, Iter 4]
      (step sample_parse_packet (Iter 2) (started [bad_version_pkt 0, v5_pkt 1]))) \<and>
   output_q (run_events sample_parse_packet [Iter 3, Iter 4]
      (step sample_parse_packet (Iter 2) (started [bad_version_pkt 0, v5_pkt 1]))) =
     [\<lparr>ParsedPacket.ts = 1, client = exporter, export = sample_export 5 False []\<rparr>]"
proof -
  let ?s = "started [bad_version_pkt 0, v5_pkt 1]"
  have h1: "status ?s = Running"
    and h2: "\<not> shutdown ?s"
    and h3: "input ?s = bad_version_pkt 0 # [v5_pkt 1]"
    by (simp_all add: started_def init_listener_def)
  have h4: "fst (sample_parse_packet (data (bad_version_pkt 0)) (templates ?s)) =
              Inl UnknownExportVersion"
    by (simp add: sample_defs)
  have h5: "bad_version_pkt 0 \<notin> set [v5_pkt 1] \<union> set (to_retry ?s) \<union>
              set (arrivals [Iter 3, Iter 4])"
    by (simp add: sample_defs)
  note inst = unsupported_version_discarded
    [where parse_packet = sample_parse_packet and now = 2, OF h1 h2 h3 h4]
  from inst h5
  have c: "to_retry (step sample_parse_packet (Iter 2) ?s) = to_retry ?s \<and>
           logged (step sample_parse_packet (Iter 2) ?s) = logged ?s @ [Error_ignoring_the_packet] \<and>
           bad_version_pkt 0 \<notin> fst ` set (attempts sample_parse_packet [Iter 3, Iter 4]
              (step sample_parse_packet (Iter 2) ?s)) \<and>
           output_q (run_events sample_parse_packet [Iter 3, Iter 4]
              (step sample_parse_packet (Iter 2) ?s)) =
             output_q ?s @ concat (map emitted_of (attempts sample_parse_packet [Iter 3, Iter 4]
              (step sample_parse_packet (Iter 2) ?s)))"
    by blast
  have ev: "attempts sample_parse_packet [Iter 3, Iter 4] (step sample_parse_packet (Iter 2) ?s) =
              [(v5_pkt 1, Inr (sample_export 5 False []))]"
    by (simp add: sample_defs run_defs)
  have init: "to_retry ?s = []" "logged ?s = []" "output_q ?s = []"
    by (simp_all add: started_def init_listener_def)
  have v5: "RawPacket.ts (v5_pkt 1) = 1" "RawPacket.client (v5_pkt 1) = exporter"
    by (simp_all add: v5_pkt_def)
  show ?thesis
    using c h1 h2 h3 h4 h5 unfolding ev init by (simp add: v5)
qed

section \<open>An exception that \<open>run\<close> does not catch\<close>

text \<open>
  Claim C1, as stated: an exception of the decoder other than the unsupported-version
  and template-not-recognized ones is contained in the loop, the packet is logged and
  discarded, and the loop goes on with the packets that follow. The \<^verbatim>\<open>try\<close>
  statement around the call has handlers for \<^verbatim>\<open>UnknownExportVersion\<close>,
  \<^verbatim>\<open>V9TemplateNotRecognized\<close> and \<^verbatim>\<open>IPFIXTemplateNotRecognized\<close> only. With
  the sample decoder, a datagram of one byte raises another exception: the thread is
  no longer in its loop, and three passes later the version 5 packet behind it is
  still on the input queue, never handed to the decoder, and the output queue is
  empty.
\<close>

theorem uncaught_exception_counterexample:
  "fst (sample_parse_packet (data (truncated_pkt 0))
          (templates (started [truncated_pkt 0, v5_pkt 1]))) =
     Inl (OtherException ''struct.error'') \<and>
   status (step sample_parse_packet (Iter 2) (started [truncated_pkt 0, v5_pkt 1])) \<noteq> Running \<and>
   attempts sample_parse_packet [Iter 2, Iter 3, Iter 4] (started [truncated_pkt 0, v5_pkt 1]) =
     [(truncated_pkt 0, Inl (OtherException ''struct.error''))] \<and>
   input (run_events sample_parse_packet [Iter 2, Iter 3, Iter 4]
            (started [truncated_pkt 0, v5_pkt 1])) = [v5_pkt 1] \<and>
   output_q (run_events sample_parse_packet [Iter 2, Iter 3, Iter 4]
            (started [truncated_pkt 0, v5_pkt 1])) = []"
  by (simp add: sample_defs run_defs)

text \<open>
  Claim C1, amended. An exception of the decoder other than the unsupported-version
  and template-not-recognized ones is not caught in \<^verbatim>\<open>run\<close>: the packet has left
  the input queue and is neither held for a retry nor put on the output queue, the
  collector logs nothing, the exception leaves the loop through the \<^verbatim>\<open>finally\<close>
  clause, which shuts the server down and closes it, and the thread ends with that
  exception. In every later run no packet is handed to the decoder, and the input
  queue, the retry list and the output queue stay as they are.
\<close>

theorem uncaught_exception_ends_loop:
  assumes "status s = Running" and "\<not> shutdown s" and "input s = pkt # rest"
    and "fst (parse_packet (data pkt) (templates s)) = Inl (OtherException e)"
  shows "input (step parse_packet (Iter now) s) = rest \<and>
         to_retry (step parse_packet (Iter now) s) = to_retry s \<and>
         output_q (step parse_packet (Iter now) s) = output_q s \<and>
         logged (step parse_packet (Iter now) s) = logged s \<and>
         status (step parse_packet (Iter now) s) = Raised (OtherException e) \<and>
         \<not> serving (step parse_packet (Iter now) s) \<and>
         \<not> socket_open (step parse_packet (Iter now) s) \<and>
         (\<forall>evs. attempts parse_packet evs (step parse_packet (Iter now) s) = [] \<and>
            input (run_events parse_packet evs (step parse_packet (Iter now) s)) = rest \<and>
            to_retry (run_events parse_packet evs (step parse_packet (Iter now) s)) = to_retry s \<and>
            output_q (run_events parse_packet evs (step parse_packet (Iter now) s)) = output_q s)"
proof -
  let ?s = "run_step parse_packet now s"
  have eq: "?s = finally_clause
      (s\<lparr>input := rest, templates := snd (parse_packet (data pkt) (templates s)),
         status := Raised (OtherException e)\<rparr>)"
    using assms by (simp add: run_step_loop loop_body_uncaught)
  have local: "input ?s = rest" "to_retry ?s = to_retry s" "output_q ?s = output_q s"
    "logged ?s = logged s" "status ?s = Raised (OtherException e)" "\<not> serving ?s"
    "\<not> socket_open ?s"
    by (simp_all add: eq)
  have quiet: "shutdown ?s \<or> status ?s \<noteq> Running"
    using local by simp
  show ?thesis
    unfolding step.simps using local quiet_run_events [OF quiet, of parse_packet] by simp
qed

theorem uncaught_exception_ends_loop_witness:
  "status (started [truncated_pkt 0, v5_pkt 1]) = Running \<and>
   \<not> shutdown (started [truncated_pkt 0, v5_pkt 1]) \<and>
   input (started [truncated_pkt 0, v5_pkt 1]) = [truncated_pkt 0, v5_pkt 1] \<and>
   fst (sample_parse_packet (data (truncated_pkt 0))
          (templates (started [truncated_pkt 0, v5_pkt 1]))) =
     Inl (OtherException ''struct.error'') \<and>
   status (step sample_parse_packet (Iter 2) (started [truncated_pkt 0, v5_pkt 1])) =
     Raised (OtherException ''struct.error'') \<and>
   \<not> serving (step sample_parse_packet (Iter 2) (started [truncated_pkt 0, v5_pkt 1])) \<and>
   attempts sample_parse_packet [Iter 3, Datagram 4 exporter [0, 5], Iter 5]
     (step sample_parse_packet (Iter 2) (started [truncated_pkt 0, v5_pkt 1])) = [] \<and>
   input (run_events sample_parse_packet [Iter 3, Datagram 4 exporter [0, 5], Iter 5]
     (step sample_parse_packet (Iter 2) (started [truncated_pkt 0, v5_pkt 1]))) = [v5_pkt 1] \<and>
   output_q (run_events sample_parse_packet [Iter 3, Datagram 4 exporter [0, 5], Iter 5]
     (step sample_parse_packet (Iter 2) (started [truncated_pkt 0, v5_pkt 1]))) = []"
proof -
  let ?s = "started [truncated_pkt 0, v5_pkt 1]"
  have h1: "status ?s = Running"
    and h2: "\<not> shutdown ?s"
    and h3: "input ?s = truncated_pkt 0 # [v5_pkt 1]"
    by (simp_all add: started_def init_listener_def)
  have h4: "fst (sample_parse_packet (data (truncated_pkt 0)) (templates ?s)) =
              Inl (OtherException ''struct.error'')"
    by (simp add: sample_defs)
  note inst = uncaught_exception_ends_loop
    [where parse_packet = sample_parse_packet and now = 2, OF h1 h2 h3 h4]
  have init: "output_q ?s = []"
    by (simp add: started_def init_listener_def)
  from inst have
    "status (step sample_parse_packet (Iter 2) ?s) = Raised (OtherException ''struct.error'') \<and>
     \<not> serving (step sample_parse_packet (Iter 2) ?s) \<and>
     attempts sample_parse_packet [Iter 3, Datagram 4 exporter [0, 5], Iter 5]
       (step sample_parse_packet (Iter 2) ?s) = [] \<and>
     input (run_events sample_parse_packet [Iter 3, Datagram 4 exporter [0, 5], Iter 5]
       (step sample_parse_packet (Iter 2) ?s)) = [v5_pkt 1] \<and>
     output_q (run_events sample_parse_packet [Iter 3, Datagram 4 exporter [0, 5], Iter 5]
       (step sample_parse_packet (Iter 2) ?s)) = output_q ?s"
    by blast
  then show ?thesis
    using h1 h2 h3 h4 unfolding init by simp
qed

section \<open>The packet that brings new templates\<close>

text \<open>
  Claim C10. A packet whose export has version 9 or 10 and contains new templates is
  put on the output queue in the pass that decodes it, after the retry list has been
  put back on the input queue: the state between the two has the retry list behind
  the input queue, an empty retry list, and the output queue as before. Whatever
  happens later, the output queue is the old one, then this packet, then what later
  attempts emit, and the packets of the retry list are decoded by later attempts: the
  packet with the templates comes before every packet decoded again because of it. In
  a run in which the same raw packet is not present elsewhere and does not arrive
  again, it is emitted exactly once.
\<close>

theorem template_packet_precedes_retries:
  assumes "status s = Running" and "\<not> shutdown s" and "input s = pkt # rest"
    and "parse_packet (data pkt) (templates s) = (Inr ex, tpl)"
    and "new_template_event (pkt, Inr ex)"
  shows "step parse_packet (Iter now) s =
           emit pkt ex (retry_on_new_templates ex
             (log_processed ex (s\<lparr>input := rest, templates := tpl\<rparr>))) \<and>
         input (retry_on_new_templates ex
             (log_processed ex (s\<lparr>input := rest, templates := tpl\<rparr>))) = rest @ to_retry s \<and>
         to_retry (retry_on_new_templates ex
             (log_processed ex (s\<lparr>input := rest, templates := tpl\<rparr>))) = [] \<and>
         output_q (retry_on_new_templates ex
             (log_processed ex (s\<lparr>input := rest, templates := tpl\<rparr>))) = output_q s \<and>
         output_q (step parse_packet (Iter now) s) =
           output_q s @
             [\<lparr>ParsedPacket.ts = RawPacket.ts pkt, client = RawPacket.client pkt, export = ex\<rparr>] \<and>
         (\<forall>evs. output_q (run_events parse_packet evs (step parse_packet (Iter now) s)) =
            output_q s @
              [\<lparr>ParsedPacket.ts = RawPacket.ts pkt, client = RawPacket.client pkt, export = ex\<rparr>] @
              concat (map emitted_of (attempts parse_packet evs (step parse_packet (Iter now) s)))) \<and>
         (\<forall>evs. pkt \<notin> set rest \<union> set (to_retry s) \<union> set (arrivals evs) \<longrightarrow>
            count_list (emitted_packets parse_packet (Iter now # evs) s) pkt = 1)"
proof -
  let ?mid = "retry_on_new_templates ex (log_processed ex (s\<lparr>input := rest, templates := tpl\<rparr>))"
  let ?s = "run_step parse_packet now s"
  let ?pp = "\<lparr>ParsedPacket.ts = RawPacket.ts pkt, client = RawPacket.client pkt, export = ex\<rparr>"
  have dec: "fst (parse_packet (data pkt) (templates s)) = Inr ex"
    "snd (parse_packet (data pkt) (templates s)) = tpl"
    using assms(4) by simp_all
  have eq: "?s = emit pkt ex ?mid"
    using assms(1,2,3) dec by (simp add: run_step_loop loop_body_decoded)
  have mid: "input ?mid = rest @ to_retry s" "to_retry ?mid = []" "output_q ?mid = output_q s"
    using assms(5) by (auto simp add: input_retry to_retry_retry)
  have out: "output_q ?s = output_q s @ [?pp]"
    by (simp add: eq mid)
  have later: "output_q (run_events parse_packet evs ?s) =
      output_q s @ [?pp] @ concat (map emitted_of (attempts parse_packet evs ?s))" for evs
    by (simp add: output_q_run_events out)
  have at: "attempt_at parse_packet s = [(pkt, Inr ex)]"
    using assms(1,2,3) dec by (simp add: attempt_at_def)
  have once: "count_list (emitted_packets parse_packet (Iter now # evs) s) pkt = 1"
    if "pkt \<notin> set rest \<union> set (to_retry s) \<union> set (arrivals evs)" for evs
  proof -
    have "pkt \<notin> fst ` set (attempts parse_packet evs ?s)"
      using that held_run_events [of parse_packet evs ?s] by (auto simp add: eq mid)
    then have "pkt \<notin> set (emitted_packets parse_packet evs ?s)"
      by (auto simp add: emitted_packets_def)
    then have "count_list (emitted_packets parse_packet evs ?s) pkt = 0"
      by (simp add: count_list_0_iff)
    then show ?thesis
      using at by (simp add: emitted_packets_def)
  qed
  show ?thesis
    unfolding step.simps using eq mid out later once by blast
qed

theorem template_packet_precedes_retries_witness:
  "status ((started [template_pkt 5, v5_pkt 6])\<lparr>to_retry := [data_pkt 0]\<rparr>) = Running \<and>
   \<not> shutdown ((started [template_pkt 5, v5_pkt 6])\<lparr>to_retry := [data_pkt 0]\<rparr>) \<and>
   input ((started [template_pkt 5, v5_pkt 6])\<lparr>to_retry := [data_pkt 0]\<rparr>) =
     [template_pkt 5, v5_pkt 6] \<and>
   fst (sample_parse_packet (data (template_pkt 5))
     (templates ((started [template_pkt 5, v5_pkt 6])\<lparr>to_retry := [data_pkt 0]\<rparr>))) =
     Inr (sample_export 9 True [0, 42]) \<and>
   new_template_event (template_pkt 5, Inr (sample_export 9 True [0, 42])) \<and>
   template_pkt 5 \<notin> set [v5_pkt 6] \<union>
     set (to_retry ((started [template_pkt 5, v5_pkt 6])\<lparr>to_retry := [data_pkt 0]\<rparr>)) \<union>
     set (arrivals [Iter 8, Iter 9]) \<and>
   map ParsedPacket.ts (output_q (run_events sample_parse_packet [Iter 8, Iter 9]
     (step sample_parse_packet (Iter 7)
       ((started [template_pkt 5, v5_pkt 6])\<lparr>to_retry := [data_pkt 0]\<rparr>)))) = [5, 6, 0] \<and>
   count_list (emitted_packets sample_parse_packet [Iter 7, Iter 8, Iter 9]
     ((started [template_pkt 5, v5_pkt 6])\<lparr>to_retry := [data_pkt 0]\<rparr>)) (template_pkt 5) = 1"
proof -
  let ?s = "(started [template_pkt 5, v5_pkt 6])\<lparr>to_retry := [data_pkt 0]\<rparr>"
  let ?ex = "sample_export 9 True [0, 42]"
  have h1: "status ?s = Running"
    and h2: "\<not> shutdown ?s"
    and h3: "input ?s = template_pkt 5 # [v5_pkt 6]"
    by (simp_all add: started_def init_listener_def)
  have h4: "sample_parse_packet (data (template_pkt 5)) (templates ?s) =
      (Inr ?ex, \<lparr>netflow = [42 \<mapsto> ()], ipfix = Map.empty\<rparr>)"
    by (simp add: sample_defs)
  have h5: "new_template_event (template_pkt 5, Inr ?ex)"
    by (simp add: sample_export_def)
  have h6: "template_pkt 5 \<notin> set [v5_pkt 6] \<union> set (to_retry ?s) \<union> set (arrivals [Iter 8, Iter 9])"
    by (simp add: sample_defs)
  note inst = template_packet_precedes_retries
    [where parse_packet = sample_parse_packet and now = 7, OF h1 h2 h3 h4 h5]
  from inst h6 have
    c: "output_q (run_events sample_parse_packet [Iter 8, Iter 9] (step sample_parse_packet (Iter 7) ?s)) =
          output_q ?s @
          [\<lparr>ParsedPacket.ts = RawPacket.ts (template_pkt 5),
            client = RawPacket.client (template_pkt 5), export = ?ex\<rparr>] @
          concat (map emitted_of (attempts sample_parse_packet [Iter 8, Iter 9]
            (step sample_parse_packet (Iter 7) ?s))) \<and>
        count_list (emitted_packets sample_parse_packet [Iter 7, Iter 8, Iter 9] ?s)
          (template_pkt 5) = 1"
    by blast
  have ev: "attempts sample_parse_packet [Iter 8, Iter 9] (step sample_parse_packet (Iter 7) ?s) =
      [(v5_pkt 6, Inr (sample_export 5 False [])), (data_pkt 0, Inr (sample_export 9 False [1, 42]))]"
    by (simp add: sample_defs run_defs)
  have init: "output_q ?s = []"
    by (simp add: started_def init_listener_def)
  have tss: "RawPacket.ts (template_pkt 5) = 5" "RawPacket.ts (v5_pkt 6) = 6"
    "RawPacket.ts (data_pkt 0) = 0"
    by (simp_all add: sample_defs)
  show ?thesis
    using c h1 h2 h3 h4 h5 h6 unfolding ev init by (simp add: tss)
qed

section \<open>Stopping the listener\<close>

text \<open>
  Claim C8, as stated: calling \<^verbatim>\<open>stop\<close> and then \<^verbatim>\<open>join\<close> never raises an exception.
  \<^verbatim>\<open>join\<close> calls \<^verbatim>\<open>self.thread.join(timeout)\<close> and then \<^verbatim>\<open>Thread.join\<close> of the
  listener itself. On a listener that was constructed and never started, the second
  raises \<^verbatim>\<open>RuntimeError\<close> (cannot join thread before it is started); \<^verbatim>\<open>stop\<close> only
  sets the event and changes nothing about that, and as no loop runs to observe the
  event, the server keeps serving with its socket open. On a started listener whose
  threads are still alive, a timeout greater than \<^verbatim>\<open>threading.TIMEOUT_MAX\<close>
  (9223372036 seconds on the usual platforms) raises \<^verbatim>\<open>OverflowError\<close>.
\<close>

theorem join_before_start_counterexample:
  "status (stop (init_listener :: (addr, byte, unit, bytes) listener)) = NotStarted \<and>
   join 9223372036 (Some 1) (stop (init_listener :: (addr, byte, unit, bytes) listener)) =
     Raises RuntimeError \<and>
   serving (run_events sample_parse_packet [Stop, Iter 1, Iter 2] init_listener) \<and>
   socket_open (run_events sample_parse_packet [Stop, Iter 1, Iter 2] init_listener) \<and>
   join 9223372036 (Some 10000000000)
     (run_events sample_parse_packet [Stop] (started [v5_pkt 0])) = Raises OverflowError"
  by (simp add: join_def thread_join_def server_thread_def run_thread_def stop_def
      init_listener_def started_def run_step_def)

text \<open>
  Claim C8, amended. \<^verbatim>\<open>stop\<close> sets the shutdown event, and the event stays set for
  ever. When the loop observes the event, which is at the head of a pass, it hands no
  packet to the decoder: it leaves the loop, the \<^verbatim>\<open>finally\<close> clause shuts down and
  closes the server, the thread ends, and the queues and the retry list are as they
  were; nothing is attempted, received or emitted afterwards. A call of \<^verbatim>\<open>stop\<close> that
  falls inside a pass, after the test of the event, does not interrupt the pass: it
  ends in the state that the pass followed by \<^verbatim>\<open>stop\<close> gives (the log lines apart),
  so a packet may still be processed before the event is observed. When \<^verbatim>\<open>stop\<close>
  falls between two passes, no packet is handed to the decoder after it. On a
  listener that has been started, \<^verbatim>\<open>join\<close>, after any number of calls of \<^verbatim>\<open>stop\<close> and
  of \<^verbatim>\<open>join\<close> and at any moment of the run, does not raise, provided that the timeout
  is absent or at most \<^verbatim>\<open>threading.TIMEOUT_MAX\<close>.
\<close>

theorem shutdown_stops_the_loop:
  fixes parse_packet :: "('k, 'v, 'f) decoder" and s :: "('c, 'k, 'v, 'f) listener"
  shows
    "shutdown (stop s) \<and>
     (\<forall>evs. shutdown (run_events parse_packet evs (stop s))) \<and>
     (\<forall>now. shutdown (loop_body parse_packet now (stop s))) \<and>
     (\<forall>now l. (loop_body parse_packet now (stop s))\<lparr>logged := l\<rparr> =
        (stop (loop_body parse_packet now s))\<lparr>logged := l\<rparr>) \<and>
     (\<forall>(s' :: ('c, 'k, 'v, 'f) listener) now.
        status s' = Running \<and> shutdown s' \<longrightarrow>
        attempt_at parse_packet s' = [] \<and>
        step parse_packet (Iter now) s' = finally_clause (s'\<lparr>status := Exited\<rparr>) \<and>
        status (step parse_packet (Iter now) s') = Exited \<and>
        \<not> serving (step parse_packet (Iter now) s') \<and>
        \<not> socket_open (step parse_packet (Iter now) s') \<and>
        input (step parse_packet (Iter now) s') = input s' \<and>
        output_q (step parse_packet (Iter now) s') = output_q s' \<and>
        to_retry (step parse_packet (Iter now) s') = to_retry s' \<and>
        (\<forall>evs. attempts parse_packet evs (step parse_packet (Iter now) s') = [] \<and>
           input (run_events parse_packet evs (step parse_packet (Iter now) s')) = input s' \<and>
           output_q (run_events parse_packet evs (step parse_packet (Iter now) s')) = output_q s')) \<and>
     (\<forall>evs. attempts parse_packet evs (stop s) = [] \<and>
        output_q (run_events parse_packet evs (stop s)) = output_q s \<and>
        to_retry (run_events parse_packet evs (stop s)) = to_retry s \<and>
        (\<exists>more. input (run_events parse_packet evs (stop s)) = input s @ more)) \<and>
     (\<forall>evs (timeout_max :: real) timeout e.
        status s \<noteq> NotStarted \<and>
        (timeout = None \<or> (\<exists>t. timeout = Some t \<and> t \<le> timeout_max)) \<longrightarrow>
        join timeout_max timeout (run_events parse_packet evs s) \<noteq> Raises e)"
proof (intro conjI)
  show "shutdown (stop s)" by (simp add: stop_fields)
  show "\<forall>evs. shutdown (run_events parse_packet evs (stop s))"
    by (simp add: shutdown_run_events stop_fields)
  show "\<forall>now. shutdown (loop_body parse_packet now (stop s))"
    by (simp add: shutdown_loop_body stop_fields)
  show "\<forall>now l. (loop_body parse_packet now (stop s))\<lparr>logged := l\<rparr> =
        (stop (loop_body parse_packet now s))\<lparr>logged := l\<rparr>"
    by (intro allI) (rule loop_body_stop)
  show "\<forall>(s' :: ('c, 'k, 'v, 'f) listener) now.
        status s' = Running \<and> shutdown s' \<longrightarrow>
        attempt_at parse_packet s' = [] \<and>
        step parse_packet (Iter now) s' = finally_clause (s'\<lparr>status := Exited\<rparr>) \<and>
        status (step parse_packet (Iter now) s') = Exited \<and>
        \<not> serving (step parse_packet (Iter now) s') \<and>
        \<not> socket_open (step parse_packet (Iter now) s') \<and>
        input (step parse_packet (Iter now) s') = input s' \<and>
        output_q (step parse_packet (Iter now) s') = output_q s' \<and>
        to_retry (step parse_packet (Iter now) s') = to_retry s' \<and>
        (\<forall>evs. attempts parse_packet evs (step parse_packet (Iter now) s') = [] \<and>
           input (run_events parse_packet evs (step parse_packet (Iter now) s')) = input s' \<and>
           output_q (run_events parse_packet evs (step parse_packet (Iter now) s')) = output_q s')"
  proof (intro allI impI)
    fix s' :: "('c, 'k, 'v, 'f) listener" and now
    assume "status s' = Running \<and> shutdown s'"
    then have h: "status s' = Running" "shutdown s'" by blast+
    let ?x = "finally_clause (s'\<lparr>status := Exited\<rparr>)"
    have eq: "step parse_packet (Iter now) s' = ?x"
      using observed_exit(2) [OF h] by simp
    have quiet: "shutdown ?x \<or> status ?x \<noteq> Running" by simp
    have gone: "\<not> serving ?x" by simp
    have after: "attempts parse_packet evs ?x = [] \<and>
        input (run_events parse_packet evs ?x) = input s' \<and>
        output_q (run_events parse_packet evs ?x) = output_q s'" for evs
      using quiet_run_events [OF quiet, of parse_packet evs] gone by simp
    show "attempt_at parse_packet s' = [] \<and>
        step parse_packet (Iter now) s' = finally_clause (s'\<lparr>status := Exited\<rparr>) \<and>
        status (step parse_packet (Iter now) s') = Exited \<and>
        \<not> serving (step parse_packet (Iter now) s') \<and>
        \<not> socket_open (step parse_packet (Iter now) s') \<and>
        input (step parse_packet (Iter now) s') = input s' \<and>
        output_q (step parse_packet (Iter now) s') = output_q s' \<and>
        to_retry (step parse_packet (Iter now) s') = to_retry s' \<and>
        (\<forall>evs. attempts parse_packet evs (step parse_packet (Iter now) s') = [] \<and>
           input (run_events parse_packet evs (step parse_packet (Iter now) s')) = input s' \<and>
           output_q (run_events parse_packet evs (step parse_packet (Iter now) s')) = output_q s')"
      unfolding eq using observed_exit(1) [OF h] after by simp
  qed
  show "\<forall>evs. attempts parse_packet evs (stop s) = [] \<and>
        output_q (run_events parse_packet evs (stop s)) = output_q s \<and>
        to_retry (run_events parse_packet evs (stop s)) = to_retry s \<and>
        (\<exists>more. input (run_events parse_packet evs (stop s)) = input s @ more)"
  proof
    fix evs
    have quiet: "shutdown (stop s) \<or> status (stop s) \<noteq> Running"
      by (simp add: stop_fields)
    show "attempts parse_packet evs (stop s) = [] \<and>
        output_q (run_events parse_packet evs (stop s)) = output_q s \<and>
        to_retry (run_events parse_packet evs (stop s)) = to_retry s \<and>
        (\<exists>more. input (run_events parse_packet evs (stop s)) = input s @ more)"
      using quiet_run_events [OF quiet, of parse_packet evs] by (simp add: stop_fields)
  qed
  show "\<forall>evs (timeout_max :: real) timeout e.
        status s \<noteq> NotStarted \<and>
        (timeout = None \<or> (\<exists>t. timeout = Some t \<and> t \<le> timeout_max)) \<longrightarrow>
        join timeout_max timeout (run_events parse_packet evs s) \<noteq> Raises e"
  proof (intro allI impI)
    fix evs and timeout_max :: real and timeout e
    assume "status s \<noteq> NotStarted \<and>
        (timeout = None \<or> (\<exists>t. timeout = Some t \<and> t \<le> timeout_max))"
    then have a: "status s \<noteq> NotStarted"
      and b: "timeout = None \<or> (\<exists>t. timeout = Some t \<and> t \<le> timeout_max)"
      by blast+
    show "join timeout_max timeout (run_events parse_packet evs s) \<noteq> Raises e"
      using started_run_events [OF a] b by (rule join_started)
  qed
qed

theorem shutdown_stops_the_loop_witness:
  "status (stop (started [v5_pkt 0])) = Running \<and> shutdown (stop (started [v5_pkt 0])) \<and>
   attempt_at sample_parse_packet (stop (started [v5_pkt 0])) = [] \<and>
   status (step sample_parse_packet (Iter 1) (stop (started [v5_pkt 0]))) = Exited \<and>
   \<not> serving (step sample_parse_packet (Iter 1) (stop (started [v5_pkt 0]))) \<and>
   \<not> socket_open (step sample_parse_packet (Iter 1) (stop (started [v5_pkt 0]))) \<and>
   input (step sample_parse_packet (Iter 1) (stop (started [v5_pkt 0]))) = [v5_pkt 0] \<and>
   output_q (run_events sample_parse_packet [Iter 2, Stop, Iter 3]
     (step sample_parse_packet (Iter 1) (stop (started [v5_pkt 0])))) = [] \<and>
   shutdown (loop_body sample_parse_packet 1 (stop (started [v5_pkt 0]))) \<and>
   output_q (loop_body sample_parse_packet 1 (stop (started [v5_pkt 0]))) =
     [\<lparr>ParsedPacket.ts = 0, client = exporter, export = sample_export 5 False []\<rparr>] \<and>
   status (started [v5_pkt 0]) \<noteq> NotStarted \<and>
   (Some 1 = Some 1 \<and> (1 :: real) \<le> 9223372036) \<and>
   join 9223372036 (Some 1)
     (run_events sample_parse_packet [Stop, Stop, Iter 1, Stop] (started [v5_pkt 0])) \<noteq>
     Raises RuntimeError \<and>
   join 9223372036 None
     (run_events sample_parse_packet [Stop, Stop, Iter 1, Stop] (started [v5_pkt 0])) = Returns \<and>
   join 9223372036 None (run_events sample_parse_packet [Stop, Stop] (started [v5_pkt 0])) = Waits"
proof -
  let ?s = "started [v5_pkt 0]"
  note all = shutdown_stops_the_loop [where parse_packet = sample_parse_packet and s = ?s]
  note flag = all [THEN conjunct1]
  note body = all [THEN conjunct2, THEN conjunct2, THEN conjunct1, THEN spec]
  note exit = all [THEN conjunct2, THEN conjunct2, THEN conjunct2, THEN conjunct2, THEN conjunct1,
      THEN spec [where x = "stop (started [v5_pkt 0])"], THEN spec [where x = 1], THEN mp]
  note joins = all [THEN conjunct2, THEN conjunct2, THEN conjunct2, THEN conjunct2,
      THEN conjunct2, THEN conjunct2, THEN spec, THEN spec, THEN spec, THEN spec, THEN mp]
  have h: "status (stop ?s) = Running \<and> shutdown (stop ?s)"
    by (simp add: stop_def started_def init_listener_def)
  note x = exit [OF h]
  have init: "input (stop ?s) = [v5_pkt 0]" "output_q (stop ?s) = []"
    by (simp_all add: stop_def started_def init_listener_def)
  have c1: "attempt_at sample_parse_packet (stop ?s) = [] \<and>
      status (step sample_parse_packet (Iter 1) (stop ?s)) = Exited \<and>
      \<not> serving (step sample_parse_packet (Iter 1) (stop ?s)) \<and>
      \<not> socket_open (step sample_parse_packet (Iter 1) (stop ?s)) \<and>
      input (step sample_parse_packet (Iter 1) (stop ?s)) = input (stop ?s) \<and>
      output_q (run_events sample_parse_packet [Iter 2, Stop, Iter 3]
        (step sample_parse_packet (Iter 1) (stop ?s))) = output_q (stop ?s)"
    using x by blast
  have st: "status ?s \<noteq> NotStarted"
    by (simp add: started_def init_listener_def)
  have t: "Some 1 = Some 1 \<and> (1 :: real) \<le> 9223372036"
    by simp
  have j: "status ?s \<noteq> NotStarted \<and>
      (Some (1 :: real) = None \<or> (\<exists>t. Some 1 = Some t \<and> t \<le> (9223372036 :: real)))"
    using st by simp
  have c2: "join 9223372036 (Some 1)
      (run_events sample_parse_packet [Stop, Stop, Iter 1, Stop] ?s) \<noteq> Raises RuntimeError"
    by (rule joins [OF j])
  have c3: "join 9223372036 None
        (run_events sample_parse_packet [Stop, Stop, Iter 1, Stop] ?s) = Returns"
    "join 9223372036 None (run_events sample_parse_packet [Stop, Stop] ?s) = Waits"
    by (simp_all add: sample_defs run_defs join_def thread_join_def server_thread_def
        run_thread_def)
  have fl: "output_q (loop_body sample_parse_packet 1 (stop ?s)) =
      [\<lparr>ParsedPacket.ts = 0, client = exporter, export = sample_export 5 False []\<rparr>]"
    by (simp add: sample_defs run_defs)
  show ?thesis
    using h c1 body [of 1] fl st t c2 c3 unfolding init by blast
qed

section \<open>Taking a packet from the output queue\<close>

text \<open>
  Claim C7, as stated: with \<^verbatim>\<open>block\<close> true and a numeric timeout, \<^verbatim>\<open>get\<close> waits at most
  that long and then raises \<^verbatim>\<open>queue.Empty\<close> if no packet arrived. \<^verbatim>\<open>Queue.get\<close> tests
  the sign of the timeout before it looks at the queue: with a negative timeout it
  raises \<^verbatim>\<open>ValueError\<close>, on an empty queue and also when a packet is available. A
  timeout greater than \<^verbatim>\<open>threading.TIMEOUT_MAX\<close> raises \<^verbatim>\<open>OverflowError\<close> on an empty
  queue.
\<close>

theorem get_negative_timeout_counterexample:
  "output_q (init_listener :: (addr, byte, unit, bytes) listener) = [] \<and>
   get 9223372036 True (Some (- 1)) None (init_listener :: (addr, byte, unit, bytes) listener) =
     Throws ValueError 0 \<and>
   get 9223372036 True (Some (- 1)) None (init_listener :: (addr, byte, unit, bytes) listener) \<noteq>
     Throws Empty 0 \<and>
   output_q (step sample_parse_packet (Iter 1) (started [v5_pkt 0])) =
     [\<lparr>ParsedPacket.ts = 0, client = exporter, export = sample_export 5 False []\<rparr>] \<and>
   get 9223372036 True (Some (- 1)) None
     (step sample_parse_packet (Iter 1) (started [v5_pkt 0])) = Throws ValueError 0 \<and>
   get 9223372036 True (Some 10000000000) None
     (init_listener :: (addr, byte, unit, bytes) listener) = Throws OverflowError 0"
  by (simp add: get_def queue_get_def sample_defs run_defs)

text \<open>
  Claim C7, amended. With \<^verbatim>\<open>block\<close> true and no timeout, \<^verbatim>\<open>get\<close> returns the packet
  at the head of the output queue at once when there is one; on an empty queue it
  suspends the caller until the thread of \<^verbatim>\<open>run\<close> puts a packet, and returns that
  packet; it stays suspended when none is ever put. With \<^verbatim>\<open>block\<close> true and a
  timeout \<open>t\<close> that is not negative and at most \<^verbatim>\<open>threading.TIMEOUT_MAX\<close>, it returns
  the head at once when there is one, returns a packet that is put before \<open>t\<close> has
  passed, and otherwise raises \<^verbatim>\<open>queue.Empty\<close> after the time \<open>t\<close>. With a negative
  timeout it raises \<^verbatim>\<open>ValueError\<close> at once. With \<^verbatim>\<open>block\<close> false it returns at once,
  the head of the queue or \<^verbatim>\<open>queue.Empty\<close>, whatever the timeout is.
\<close>

theorem get_contract:
  fixes s :: "('c, 'k, 'v, 'f) listener"
  shows
    "(\<forall>x q' timeout_max arrival.
        output_q s = x # q' \<longrightarrow> get timeout_max True None arrival s = Got x q' 0) \<and>
     (\<forall>timeout_max d x.
        output_q s = [] \<longrightarrow> get timeout_max True None (Some (d, x)) s = Got x [] d) \<and>
     (\<forall>timeout_max. output_q s = [] \<longrightarrow> get timeout_max True None None s = Suspended) \<and>
     (\<forall>timeout_max t arrival x q'.
        0 \<le> t \<and> t \<le> timeout_max \<and> output_q s = x # q' \<longrightarrow>
        get timeout_max True (Some t) arrival s = Got x q' 0) \<and>
     (\<forall>timeout_max t d x.
        0 \<le> t \<and> t \<le> timeout_max \<and> output_q s = [] \<and> 0 \<le> d \<and> d < t \<longrightarrow>
        get timeout_max True (Some t) (Some (d, x)) s = Got x [] d) \<and>
     (\<forall>timeout_max t arrival.
        0 \<le> t \<and> t \<le> timeout_max \<and> output_q s = [] \<and>
        (arrival = None \<or> (\<exists>d x. arrival = Some (d, x) \<and> t \<le> d)) \<longrightarrow>
        get timeout_max True (Some t) arrival s = Throws Empty t) \<and>
     (\<forall>timeout_max t arrival.
        t < 0 \<longrightarrow> get timeout_max True (Some t) arrival s = Throws ValueError 0) \<and>
     (\<forall>timeout_max timeout arrival.
        get timeout_max False timeout arrival s =
          (case output_q s of [] \<Rightarrow> Throws Empty 0 | x # q' \<Rightarrow> Got x q' 0))"
  by (auto simp add: get_def queue_get_def split: list.splits option.splits)

theorem get_contract_witness:
  "output_q (step sample_parse_packet (Iter 1) (started [v5_pkt 0])) =
     [\<lparr>ParsedPacket.ts = 0, client = exporter, export = sample_export 5 False []\<rparr>] \<and>
   output_q (started [v5_pkt 0]) = [] \<and>
   get 9223372036 True None None (step sample_parse_packet (Iter 1) (started [v5_pkt 0])) =
     Got \<lparr>ParsedPacket.ts = 0, client = exporter, export = sample_export 5 False []\<rparr> [] 0 \<and>
   get 9223372036 True None
     (Some (3, \<lparr>ParsedPacket.ts = 0, client = exporter, export = sample_export 5 False []\<rparr>))
     (started [v5_pkt 0]) =
     Got \<lparr>ParsedPacket.ts = 0, client = exporter, export = sample_export 5 False []\<rparr> [] 3 \<and>
   get 9223372036 True None None (started [v5_pkt 0]) = Suspended \<and>
   ((0 :: real) \<le> 2 \<and> (2 :: real) \<le> 9223372036) \<and>
   get 9223372036 True (Some 2) None (step sample_parse_packet (Iter 1) (started [v5_pkt 0])) =
     Got \<lparr>ParsedPacket.ts = 0, client = exporter, export = sample_export 5 False []\<rparr> [] 0 \<and>
   ((0 :: real) \<le> 1 \<and> (1 :: real) < 2) \<and>
   get 9223372036 True (Some 2)
     (Some (1, \<lparr>ParsedPacket.ts = 0, client = exporter, export = sample_export 5 False []\<rparr>))
     (started [v5_pkt 0]) =
     Got \<lparr>ParsedPacket.ts = 0, client = exporter, export = sample_export 5 False []\<rparr> [] 1 \<and>
   get 9223372036 True (Some 2) None (started [v5_pkt 0]) = Throws Empty 2 \<and>
   get 9223372036 True (Some 2)
     (Some (3, \<lparr>ParsedPacket.ts = 0, client = exporter, export = sample_export 5 False []\<rparr>))
     (started [v5_pkt 0]) = Throws Empty 2 \<and>
   get 9223372036 True (Some 0) None (started [v5_pkt 0]) = Throws Empty 0 \<and>
   (- 1 :: real) < 0 \<and>
   get 9223372036 True (Some (- 1)) None (started [v5_pkt 0]) = Throws ValueError 0 \<and>
   get 9223372036 False (Some 2) None (started [v5_pkt 0]) = Throws Empty 0 \<and>
   get 9223372036 False (Some (- 1)) None
     (step sample_parse_packet (Iter 1) (started [v5_pkt 0])) =
     Got \<lparr>ParsedPacket.ts = 0, client = exporter, export = sample_export 5 False []\<rparr> [] 0"
proof -
  let ?s0 = "started [v5_pkt 0]"
  let ?s1 = "step sample_parse_packet (Iter 1) (started [v5_pkt 0])"
  let ?x = "\<lparr>ParsedPacket.ts = 0, client = exporter, export = sample_export 5 False []\<rparr>"
  have q1: "output_q ?s1 = ?x # []"
    by (simp add: sample_defs run_defs)
  have q0: "output_q ?s0 = []"
    by (simp add: started_def init_listener_def)
  note full = get_contract [where s = ?s1]
  note empty = get_contract [where s = ?s0]
  note f1 = full [THEN conjunct1, THEN spec, THEN spec, THEN spec, THEN spec, THEN mp]
  note e2 = empty [THEN conjunct2, THEN conjunct1, THEN spec, THEN spec, THEN spec, THEN mp]
  note e3 = empty [THEN conjunct2, THEN conjunct2, THEN conjunct1, THEN spec, THEN mp]
  note f4 = full [THEN conjunct2, THEN conjunct2, THEN conjunct2, THEN conjunct1,
      THEN spec, THEN spec, THEN spec, THEN spec, THEN spec, THEN mp]
  note e5 = empty [THEN conjunct2, THEN conjunct2, THEN conjunct2, THEN conjunct2,
      THEN conjunct1, THEN spec, THEN spec, THEN spec, THEN spec, THEN mp]
  note e6 = empty [THEN conjunct2, THEN conjunct2, THEN conjunct2, THEN conjunct2,
      THEN conjunct2, THEN conjunct1, THEN spec, THEN spec, THEN spec, THEN mp]
  note e7 = empty [THEN conjunct2, THEN conjunct2, THEN conjunct2, THEN conjunct2,
      THEN conjunct2, THEN conjunct2, THEN conjunct1, THEN spec, THEN spec, THEN spec, THEN mp]
  note e8 = empty [THEN conjunct2, THEN conjunct2, THEN conjunct2, THEN conjunct2,
      THEN conjunct2, THEN conjunct2, THEN conjunct2, THEN spec, THEN spec, THEN spec]
  note f8 = full [THEN conjunct2, THEN conjunct2, THEN conjunct2, THEN conjunct2,
      THEN conjunct2, THEN conjunct2, THEN conjunct2, THEN spec, THEN spec, THEN spec]
  have a: "get 9223372036 True None None ?s1 = Got ?x [] 0"
    by (rule f1) (rule q1)
  have b: "get 9223372036 True None (Some (3, ?x)) ?s0 = Got ?x [] 3"
    by (rule e2) (rule q0)
  have c: "get 9223372036 True None None ?s0 = Suspended"
    by (rule e3) (rule q0)
  have t: "(0 :: real) \<le> 2 \<and> (2 :: real) \<le> 9223372036"
    and d: "(0 :: real) \<le> 1 \<and> (1 :: real) < 2" and n: "(- 1 :: real) < 0"
    by simp_all
  have e: "get 9223372036 True (Some 2) None ?s1 = Got ?x [] 0"
    by (rule f4) (use q1 in simp)
  have f: "get 9223372036 True (Some 2) (Some (1, ?x)) ?s0 = Got ?x [] 1"
    by (rule e5) (use q0 in simp)
  have g: "get 9223372036 True (Some 2) None ?s0 = Throws Empty 2"
    by (rule e6) (use q0 in simp)
  have h: "get 9223372036 True (Some 2) (Some (3, ?x)) ?s0 = Throws Empty 2"
    by (rule e6) (use q0 in simp)
  have i: "get 9223372036 True (Some 0) None ?s0 = Throws Empty 0"
    by (rule e6) (use q0 in simp)
  have j: "get 9223372036 True (Some (- 1)) None ?s0 = Throws ValueError 0"
    by (rule e7) simp
  have k: "get 9223372036 False (Some 2) None ?s0 = Throws Empty 0"
    using e8 [of 9223372036 "Some 2" None] q0 by simp
  have l: "get 9223372036 False (Some (- 1)) None ?s1 = Got ?x [] 0"
    using f8 [of 9223372036 "Some (- 1)" None] q1 by simp
  show ?thesis
    using q1 q0 a b c t e d f g h i n j k l by simp
qed

section \<open>Old packets in the retry list\<close>

text \<open>
  Claim C5, as stated: an entry of the retry list older than \<^verbatim>\<open>PACKET_TIMEOUT\<close> is
  dropped, and not emitted, at the next retry pass that a new-template event starts.
  The age is tested only in the handler of the template-not-recognized exceptions,
  so an old entry that decodes at the retry pass is emitted. With the sample decoder:
  a data packet stamped 0 is held at time 10; at time 5000 the packet that defines its
  template arrives, which is a new-template event, and the data packet, by then older
  than 3600 seconds, is decoded next and put on the output queue.
\<close>

theorem stale_entry_counterexample:
  "to_retry (run_events sample_parse_packet [Iter 10] (started [data_pkt 0, template_pkt 5000])) =
     [data_pkt 0] \<and>
   5000 - RawPacket.ts (data_pkt 0) > PACKET_TIMEOUT \<and>
   attempts sample_parse_packet [Iter 5000, Iter 5001]
     (run_events sample_parse_packet [Iter 10] (started [data_pkt 0, template_pkt 5000])) =
     [(template_pkt 5000, Inr (sample_export 9 True [0, 42])),
      (data_pkt 0, Inr (sample_export 9 False [1, 42]))] \<and>
   new_template_event (template_pkt 5000, Inr (sample_export 9 True [0, 42])) \<and>
   output_q (run_events sample_parse_packet [Iter 10, Iter 5000, Iter 5001]
     (started [data_pkt 0, template_pkt 5000])) =
     [\<lparr>ParsedPacket.ts = 5000, client = exporter, export = sample_export 9 True [0, 42]\<rparr>,
      \<lparr>ParsedPacket.ts = 0, client = exporter, export = sample_export 9 False [1, 42]\<rparr>]"
  by (simp add: sample_defs run_defs)

text \<open>
  Claim C5, amended. At a retry pass that a new-template event starts, every entry of
  the retry list is put back on the input queue, behind the packets that wait there,
  and the list is cleared. If the loop keeps running, the entry is handed to the
  decoder again: in every continuation without a call of \<^verbatim>\<open>stop\<close> and without an
  uncaught exception that has at least as many passes as there are packets in the
  queue up to the entry, a pass finds the entry at the head of the queue and attempts it.
  An attempted packet that is then older than \<^verbatim>\<open>PACKET_TIMEOUT\<close> and for which the
  decoder raises a template-not-recognized exception is dropped: it leaves the input
  queue, is not held again and not emitted, and, unless the same raw packet is
  queued, held or received again, it is never handed to the decoder again, never
  held, and the output queue only grows by what the attempts on other packets put
  there. An entry that decodes at its new attempt is emitted, whatever its age, as
  in the run above. Eviction is not proactive: in every run without a new-template event,
  whatever the clock readings, the retry list keeps all its entries, in place.
\<close>

theorem stale_entry_eviction:
  fixes parse_packet :: "('k, 'v, 'f) decoder"
  shows
  "(\<forall>(s :: ('c, 'k, 'v, 'f) listener) q rest ex now p.
      status s = Running \<and> \<not> shutdown s \<and> input s = q # rest \<and>
      fst (parse_packet (data q) (templates s)) = Inr ex \<and> new_template_event (q, Inr ex) \<and>
      p \<in> set (to_retry s) \<longrightarrow>
      input (step parse_packet (Iter now) s) = rest @ to_retry s \<and>
      to_retry (step parse_packet (Iter now) s) = [] \<and>
      (\<forall>evs.
         (\<forall>e \<in> set evs. \<not> is_stop e) \<and>
         length rest + length (to_retry s) \<le> length (filter is_iter evs) \<and>
         (\<forall>a \<in> set (attempts parse_packet evs (step parse_packet (Iter now) s)). \<not> uncaught a) \<longrightarrow>
         (\<exists>evs1 now' evs2 rest'. evs = evs1 @ Iter now' # evs2 \<and>
            status (run_events parse_packet evs1 (step parse_packet (Iter now) s)) = Running \<and>
            \<not> shutdown (run_events parse_packet evs1 (step parse_packet (Iter now) s)) \<and>
            input (run_events parse_packet evs1 (step parse_packet (Iter now) s)) = p # rest' \<and>
            (p, fst (parse_packet (data p)
                  (templates (run_events parse_packet evs1 (step parse_packet (Iter now) s))))) \<in>
              set (attempts parse_packet evs (step parse_packet (Iter now) s))))) \<and>
   (\<forall>(s :: ('c, 'k, 'v, 'f) listener) p rest e now.
      status s = Running \<and> \<not> shutdown s \<and> input s = p # rest \<and>
      fst (parse_packet (data p) (templates s)) = Inl e \<and>
      (e = V9TemplateNotRecognized \<or> e = IPFIXTemplateNotRecognized) \<and>
      now - RawPacket.ts p > PACKET_TIMEOUT \<longrightarrow>
      input (step parse_packet (Iter now) s) = rest \<and>
      to_retry (step parse_packet (Iter now) s) = to_retry s \<and>
      output_q (step parse_packet (Iter now) s) = output_q s \<and>
      (\<forall>evs. p \<notin> set rest \<union> set (to_retry s) \<union> set (arrivals evs) \<longrightarrow>
         p \<notin> fst ` set (attempts parse_packet evs (step parse_packet (Iter now) s)) \<and>
         p \<notin> set (to_retry (run_events parse_packet evs (step parse_packet (Iter now) s))) \<and>
         output_q (run_events parse_packet evs (step parse_packet (Iter now) s)) =
           output_q s @
           concat (map emitted_of (attempts parse_packet evs (step parse_packet (Iter now) s))))) \<and>
   (\<forall>(s :: ('c, 'k, 'v, 'f) listener) evs.
      (\<forall>a \<in> set (attempts parse_packet evs s). \<not> new_template_event a) \<longrightarrow>
      (\<exists>more. to_retry (run_events parse_packet evs s) = to_retry s @ more)) \<and>
   (\<forall>(s :: ('c, 'k, 'v, 'f) listener) p rest ex now.
      status s = Running \<and> \<not> shutdown s \<and> input s = p # rest \<and>
      fst (parse_packet (data p) (templates s)) = Inr ex \<longrightarrow>
      output_q (step parse_packet (Iter now) s) =
        output_q s @
          [\<lparr>ParsedPacket.ts = RawPacket.ts p, client = RawPacket.client p, export = ex\<rparr>])"
proof (intro conjI)
  show "\<forall>(s :: ('c, 'k, 'v, 'f) listener) q rest ex now p.
      status s = Running \<and> \<not> shutdown s \<and> input s = q # rest \<and>
      fst (parse_packet (data q) (templates s)) = Inr ex \<and> new_template_event (q, Inr ex) \<and>
      p \<in> set (to_retry s) \<longrightarrow>
      input (step parse_packet (Iter now) s) = rest @ to_retry s \<and>
      to_retry (step parse_packet (Iter now) s) = [] \<and>
      (\<forall>evs.
         (\<forall>e \<in> set evs. \<not> is_stop e) \<and>
         length rest + length (to_retry s) \<le> length (filter is_iter evs) \<and>
         (\<forall>a \<in> set (attempts parse_packet evs (step parse_packet (Iter now) s)). \<not> uncaught a) \<longrightarrow>
         (\<exists>evs1 now' evs2 rest'. evs = evs1 @ Iter now' # evs2 \<and>
            status (run_events parse_packet evs1 (step parse_packet (Iter now) s)) = Running \<and>
            \<not> shutdown (run_events parse_packet evs1 (step parse_packet (Iter now) s)) \<and>
            input (run_events parse_packet evs1 (step parse_packet (Iter now) s)) = p # rest' \<and>
            (p, fst (parse_packet (data p)
                  (templates (run_events parse_packet evs1 (step parse_packet (Iter now) s))))) \<in>
              set (attempts parse_packet evs (step parse_packet (Iter now) s))))"
  proof (intro allI impI)
    fix s :: "('c, 'k, 'v, 'f) listener" and q rest ex now p
    assume "status s = Running \<and> \<not> shutdown s \<and> input s = q # rest \<and>
      fst (parse_packet (data q) (templates s)) = Inr ex \<and> new_template_event (q, Inr ex) \<and>
      p \<in> set (to_retry s)"
    then have h: "status s = Running" "\<not> shutdown s" "input s = q # rest"
      "fst (parse_packet (data q) (templates s)) = Inr ex" "new_template_event (q, Inr ex)"
      "p \<in> set (to_retry s)"
      by blast+
    note r = reinjected_then_attempted [where parse_packet = parse_packet and now = now, OF h]
    show "input (step parse_packet (Iter now) s) = rest @ to_retry s \<and>
      to_retry (step parse_packet (Iter now) s) = [] \<and>
      (\<forall>evs.
         (\<forall>e \<in> set evs. \<not> is_stop e) \<and>
         length rest + length (to_retry s) \<le> length (filter is_iter evs) \<and>
         (\<forall>a \<in> set (attempts parse_packet evs (step parse_packet (Iter now) s)). \<not> uncaught a) \<longrightarrow>
         (\<exists>evs1 now' evs2 rest'. evs = evs1 @ Iter now' # evs2 \<and>
            status (run_events parse_packet evs1 (step parse_packet (Iter now) s)) = Running \<and>
            \<not> shutdown (run_events parse_packet evs1 (step parse_packet (Iter now) s)) \<and>
            input (run_events parse_packet evs1 (step parse_packet (Iter now) s)) = p # rest' \<and>
            (p, fst (parse_packet (data p)
                  (templates (run_events parse_packet evs1 (step parse_packet (Iter now) s))))) \<in>
              set (attempts parse_packet evs (step parse_packet (Iter now) s))))"
    proof (intro conjI allI impI)
      show "input (step parse_packet (Iter now) s) = rest @ to_retry s" by (rule r(1))
      show "to_retry (step parse_packet (Iter now) s) = []" by (rule r(2))
    next
      fix evs
      assume "(\<forall>e \<in> set evs. \<not> is_stop e) \<and>
         length rest + length (to_retry s) \<le> length (filter is_iter evs) \<and>
         (\<forall>a \<in> set (attempts parse_packet evs (step parse_packet (Iter now) s)). \<not> uncaught a)"
      then have run: "\<forall>e \<in> set evs. \<not> is_stop e"
        "length rest + length (to_retry s) \<le> length (filter is_iter evs)"
        "\<forall>a \<in> set (attempts parse_packet evs (step parse_packet (Iter now) s)). \<not> uncaught a"
        by blast+
      show "\<exists>evs1 now' evs2 rest'. evs = evs1 @ Iter now' # evs2 \<and>
            status (run_events parse_packet evs1 (step parse_packet (Iter now) s)) = Running \<and>
            \<not> shutdown (run_events parse_packet evs1 (step parse_packet (Iter now) s)) \<and>
            input (run_events parse_packet evs1 (step parse_packet (Iter now) s)) = p # rest' \<and>
            (p, fst (parse_packet (data p)
                  (templates (run_events parse_packet evs1 (step parse_packet (Iter now) s))))) \<in>
              set (attempts parse_packet evs (step parse_packet (Iter now) s))"
        by (rule r(5) [OF run])
    qed
  qed
next
  show "\<forall>(s :: ('c, 'k, 'v, 'f) listener) p rest e now.
      status s = Running \<and> \<not> shutdown s \<and> input s = p # rest \<and>
      fst (parse_packet (data p) (templates s)) = Inl e \<and>
      (e = V9TemplateNotRecognized \<or> e = IPFIXTemplateNotRecognized) \<and>
      now - RawPacket.ts p > PACKET_TIMEOUT \<longrightarrow>
      input (step parse_packet (Iter now) s) = rest \<and>
      to_retry (step parse_packet (Iter now) s) = to_retry s \<and>
      output_q (step parse_packet (Iter now) s) = output_q s \<and>
      (\<forall>evs. p \<notin> set rest \<union> set (to_retry s) \<union> set (arrivals evs) \<longrightarrow>
         p \<notin> fst ` set (attempts parse_packet evs (step parse_packet (Iter now) s)) \<and>
         p \<notin> set (to_retry (run_events parse_packet evs (step parse_packet (Iter now) s))) \<and>
         output_q (run_events parse_packet evs (step parse_packet (Iter now) s)) =
           output_q s @
           concat (map emitted_of (attempts parse_packet evs (step parse_packet (Iter now) s))))"
  proof (intro allI impI)
    fix s :: "('c, 'k, 'v, 'f) listener" and p rest e now
    assume "status s = Running \<and> \<not> shutdown s \<and> input s = p # rest \<and>
      fst (parse_packet (data p) (templates s)) = Inl e \<and>
      (e = V9TemplateNotRecognized \<or> e = IPFIXTemplateNotRecognized) \<and>
      now - RawPacket.ts p > PACKET_TIMEOUT"
    then have h: "status s = Running" "\<not> shutdown s" "input s = p # rest"
      "fst (parse_packet (data p) (templates s)) = Inl e"
      "e = V9TemplateNotRecognized \<or> e = IPFIXTemplateNotRecognized"
      "now - RawPacket.ts p > PACKET_TIMEOUT"
      by blast+
    note d = stale_miss_dropped [where parse_packet = parse_packet, OF h]
    have link: "output_q (run_events parse_packet evs (step parse_packet (Iter now) s)) =
        output_q s @
        concat (map emitted_of (attempts parse_packet evs (step parse_packet (Iter now) s)))"
      for evs
      using output_q_run_events [of parse_packet evs "step parse_packet (Iter now) s"]
      unfolding d(3) .
    show "input (step parse_packet (Iter now) s) = rest \<and>
      to_retry (step parse_packet (Iter now) s) = to_retry s \<and>
      output_q (step parse_packet (Iter now) s) = output_q s \<and>
      (\<forall>evs. p \<notin> set rest \<union> set (to_retry s) \<union> set (arrivals evs) \<longrightarrow>
         p \<notin> fst ` set (attempts parse_packet evs (step parse_packet (Iter now) s)) \<and>
         p \<notin> set (to_retry (run_events parse_packet evs (step parse_packet (Iter now) s))) \<and>
         output_q (run_events parse_packet evs (step parse_packet (Iter now) s)) =
           output_q s @
           concat (map emitted_of (attempts parse_packet evs (step parse_packet (Iter now) s))))"
      using d(1,2,3) d(4) link by blast
  qed
next
  show "\<forall>(s :: ('c, 'k, 'v, 'f) listener) evs.
      (\<forall>a \<in> set (attempts parse_packet evs s). \<not> new_template_event a) \<longrightarrow>
      (\<exists>more. to_retry (run_events parse_packet evs s) = to_retry s @ more)"
    by (intro allI impI) (rule not_reinjected_run_events)
next
  show "\<forall>(s :: ('c, 'k, 'v, 'f) listener) p rest ex now.
      status s = Running \<and> \<not> shutdown s \<and> input s = p # rest \<and>
      fst (parse_packet (data p) (templates s)) = Inr ex \<longrightarrow>
      output_q (step parse_packet (Iter now) s) =
        output_q s @
          [\<lparr>ParsedPacket.ts = RawPacket.ts p, client = RawPacket.client p, export = ex\<rparr>]"
  proof (intro allI impI)
    fix s :: "('c, 'k, 'v, 'f) listener" and p rest ex now
    assume "status s = Running \<and> \<not> shutdown s \<and> input s = p # rest \<and>
      fst (parse_packet (data p) (templates s)) = Inr ex"
    then have h: "status s = Running" "\<not> shutdown s" "input s = p # rest"
      "fst (parse_packet (data p) (templates s)) = Inr ex"
      by blast+
    show "output_q (step parse_packet (Iter now) s) =
        output_q s @
          [\<lparr>ParsedPacket.ts = RawPacket.ts p, client = RawPacket.client p, export = ex\<rparr>]"
      using h by (simp add: run_step_loop loop_body_decoded)
  qed
qed

theorem stale_entry_eviction_witness:
  "(status (step sample_parse_packet (Iter 1) (started [data_pkt 0, other_template_pkt 5000])) =
      Running \<and>
    \<not> shutdown (step sample_parse_packet (Iter 1) (started [data_pkt 0, other_template_pkt 5000])) \<and>
    input (step sample_parse_packet (Iter 1) (started [data_pkt 0, other_template_pkt 5000])) =
      other_template_pkt 5000 # [] \<and>
    fst (sample_parse_packet (data (other_template_pkt 5000))
      (templates (step sample_parse_packet (Iter 1)
         (started [data_pkt 0, other_template_pkt 5000])))) =
      Inr (sample_export 9 True [0, 7]) \<and>
    new_template_event (other_template_pkt 5000, Inr (sample_export 9 True [0, 7])) \<and>
    data_pkt 0 \<in> set (to_retry (step sample_parse_packet (Iter 1)
      (started [data_pkt 0, other_template_pkt 5000])))) \<and>
   input (run_events sample_parse_packet [Iter 1, Iter 5000]
     (started [data_pkt 0, other_template_pkt 5000])) = [data_pkt 0] \<and>
   to_retry (run_events sample_parse_packet [Iter 1, Iter 5000]
     (started [data_pkt 0, other_template_pkt 5000])) = [] \<and>
   \<not> is_stop (Iter 5001 :: addr event) \<and>
   length ([] :: addr RawPacket list) +
     length (to_retry (step sample_parse_packet (Iter 1)
       (started [data_pkt 0, other_template_pkt 5000]))) \<le>
     length (filter is_iter [Iter 5001 :: addr event]) \<and>
   attempts sample_parse_packet [Iter 5001]
     (run_events sample_parse_packet [Iter 1, Iter 5000]
       (started [data_pkt 0, other_template_pkt 5000])) =
     [(data_pkt 0, Inl V9TemplateNotRecognized)] \<and>
   \<not> uncaught (data_pkt 0, Inl V9TemplateNotRecognized) \<and>
   (\<exists>evs1 now' evs2 rest'. [Iter 5001] = evs1 @ Iter now' # evs2 \<and>
      input (run_events sample_parse_packet evs1
        (step sample_parse_packet (Iter 5000)
          (step sample_parse_packet (Iter 1) (started [data_pkt 0, other_template_pkt 5000])))) =
        data_pkt 0 # rest' \<and>
      (data_pkt 0, fst (sample_parse_packet (data (data_pkt 0))
         (templates (run_events sample_parse_packet evs1
            (step sample_parse_packet (Iter 5000)
              (step sample_parse_packet (Iter 1)
                (started [data_pkt 0, other_template_pkt 5000]))))))) \<in>
        set (attempts sample_parse_packet [Iter 5001]
          (step sample_parse_packet (Iter 5000)
            (step sample_parse_packet (Iter 1)
              (started [data_pkt 0, other_template_pkt 5000]))))) \<and>
   (status (run_events sample_parse_packet [Iter 1, Iter 5000]
      (started [data_pkt 0, other_template_pkt 5000])) = Running \<and>
    \<not> shutdown (run_events sample_parse_packet [Iter 1, Iter 5000]
      (started [data_pkt 0, other_template_pkt 5000])) \<and>
    fst (sample_parse_packet (data (data_pkt 0))
      (templates (run_events sample_parse_packet [Iter 1, Iter 5000]
        (started [data_pkt 0, other_template_pkt 5000])))) = Inl V9TemplateNotRecognized \<and>
    (V9TemplateNotRecognized = V9TemplateNotRecognized \<or>
     V9TemplateNotRecognized = IPFIXTemplateNotRecognized) \<and>
    5001 - RawPacket.ts (data_pkt 0) > PACKET_TIMEOUT) \<and>
   data_pkt 0 \<notin> set [] \<union>
     set (to_retry (run_events sample_parse_packet [Iter 1, Iter 5000]
       (started [data_pkt 0, other_template_pkt 5000]))) \<union>
     set (arrivals [Iter 5002, Datagram 5003 exporter [0, 9, 0, 42], Iter 5004]) \<and>
   input (run_events sample_parse_packet [Iter 1, Iter 5000, Iter 5001]
     (started [data_pkt 0, other_template_pkt 5000])) = [] \<and>
   to_retry (run_events sample_parse_packet [Iter 1, Iter 5000, Iter 5001]
     (started [data_pkt 0, other_template_pkt 5000])) = [] \<and>
   output_q (run_events sample_parse_packet [Iter 1, Iter 5000, Iter 5001]
     (started [data_pkt 0, other_template_pkt 5000])) =
     [\<lparr>ParsedPacket.ts = 5000, client = exporter, export = sample_export 9 True [0, 7]\<rparr>] \<and>
   data_pkt 0 \<notin> fst ` set (attempts sample_parse_packet
      [Iter 5002, Datagram 5003 exporter [0, 9, 0, 42], Iter 5004]
      (run_events sample_parse_packet [Iter 1, Iter 5000, Iter 5001]
        (started [data_pkt 0, other_template_pkt 5000]))) \<and>
   output_q (run_events sample_parse_packet
      [Iter 1, Iter 5000, Iter 5001, Iter 5002, Datagram 5003 exporter [0, 9, 0, 42], Iter 5004]
      (started [data_pkt 0, other_template_pkt 5000])) =
     [\<lparr>ParsedPacket.ts = 5000, client = exporter, export = sample_export 9 True [0, 7]\<rparr>,
      \<lparr>ParsedPacket.ts = 5003, client = exporter, export = sample_export 9 True [0, 42]\<rparr>] \<and>
   to_retry (step sample_parse_packet (Iter 1) (started [data_pkt 0, v5_pkt 9000])) =
     [data_pkt 0] \<and>
   attempts sample_parse_packet [Iter 9001, Iter 9002]
      (step sample_parse_packet (Iter 1) (started [data_pkt 0, v5_pkt 9000])) =
      [(v5_pkt 9000, Inr (sample_export 5 False []))] \<and>
   \<not> new_template_event (v5_pkt 9000, Inr (sample_export 5 False [])) \<and>
   9002 - RawPacket.ts (data_pkt 0) > PACKET_TIMEOUT \<and>
   (\<exists>more. to_retry (run_events sample_parse_packet [Iter 9001, Iter 9002]
      (step sample_parse_packet (Iter 1) (started [data_pkt 0, v5_pkt 9000]))) =
      [data_pkt 0] @ more) \<and>
   (status (run_events sample_parse_packet [Iter 10, Iter 5000]
      (started [data_pkt 0, template_pkt 5000])) = Running \<and>
    \<not> shutdown (run_events sample_parse_packet [Iter 10, Iter 5000]
      (started [data_pkt 0, template_pkt 5000])) \<and>
    input (run_events sample_parse_packet [Iter 10, Iter 5000]
      (started [data_pkt 0, template_pkt 5000])) = data_pkt 0 # [] \<and>
    fst (sample_parse_packet (data (data_pkt 0))
      (templates (run_events sample_parse_packet [Iter 10, Iter 5000]
        (started [data_pkt 0, template_pkt 5000])))) = Inr (sample_export 9 False [1, 42])) \<and>
   6000 - RawPacket.ts (data_pkt 0) > PACKET_TIMEOUT \<and>
   output_q (step sample_parse_packet (Iter 6000)
     (run_events sample_parse_packet [Iter 10, Iter 5000]
       (started [data_pkt 0, template_pkt 5000]))) =
     [\<lparr>ParsedPacket.ts = 5000, client = exporter, export = sample_export 9 True [0, 42]\<rparr>,
      \<lparr>ParsedPacket.ts = 0, client = exporter, export = sample_export 9 False [1, 42]\<rparr>]"
proof -
  let ?init = "started [data_pkt 0, other_template_pkt 5000]"
  let ?held = "step sample_parse_packet (Iter 1) ?init"
  let ?fresh = "step sample_parse_packet (Iter 5000) ?held"
  let ?gone = "step sample_parse_packet (Iter 5001) ?fresh"
  let ?other = "step sample_parse_packet (Iter 1) (started [data_pkt 0, v5_pkt 9000])"
  let ?later = "[Iter 5002, Datagram 5003 exporter [0, 9, 0, 42], Iter 5004]"
  note defs = sample_defs run_defs other_template_pkt_def
  note all = stale_entry_eviction [where parse_packet = sample_parse_packet]
  note part1 = all [THEN conjunct1, THEN spec, THEN spec, THEN spec, THEN spec,
      THEN spec [where x = 5000], THEN spec, THEN mp]
  note part2 = all [THEN conjunct2, THEN conjunct1, THEN spec, THEN spec, THEN spec, THEN spec,
      THEN spec, THEN mp]
  note part3 = all [THEN conjunct2, THEN conjunct2, THEN conjunct1, THEN spec, THEN spec, THEN mp]
  note part4 = all [THEN conjunct2, THEN conjunct2, THEN conjunct2, THEN spec, THEN spec,
      THEN spec, THEN spec, THEN spec [where x = 6000], THEN mp]
  have unf: "run_events sample_parse_packet [Iter 1, Iter 5000] ?init = ?fresh"
    "run_events sample_parse_packet [Iter 1, Iter 5000, Iter 5001] ?init = ?gone"
    "run_events sample_parse_packet
       [Iter 1, Iter 5000, Iter 5001, Iter 5002, Datagram 5003 exporter [0, 9, 0, 42], Iter 5004]
       ?init = run_events sample_parse_packet ?later ?gone"
    by simp_all
  have h1: "status ?held = Running \<and> \<not> shutdown ?held \<and> input ?held = other_template_pkt 5000 # [] \<and>
      fst (sample_parse_packet (data (other_template_pkt 5000)) (templates ?held)) =
        Inr (sample_export 9 True [0, 7]) \<and>
      new_template_event (other_template_pkt 5000, Inr (sample_export 9 True [0, 7])) \<and>
      data_pkt 0 \<in> set (to_retry ?held)"
    by (simp add: defs)
  note p1 = part1 [OF h1]
  have held: "to_retry ?held = [data_pkt 0]"
    by (simp add: defs)
  have c1: "input ?fresh = [data_pkt 0]" "to_retry ?fresh = []"
    using p1 [THEN conjunct1] p1 [THEN conjunct2, THEN conjunct1] unfolding held by simp_all
  have at: "attempts sample_parse_packet [Iter 5001] ?fresh =
      [(data_pkt 0, Inl V9TemplateNotRecognized)]"
    by (simp add: defs)
  have run: "(\<forall>e \<in> set [Iter 5001 :: addr event]. \<not> is_stop e) \<and>
      length ([] :: addr RawPacket list) + length (to_retry ?held) \<le>
        length (filter is_iter [Iter 5001 :: addr event]) \<and>
      (\<forall>a \<in> set (attempts sample_parse_packet [Iter 5001] ?fresh). \<not> uncaught a)"
    unfolding at held by simp
  have r1: "\<not> is_stop (Iter 5001 :: addr event)"
    and r2: "length ([] :: addr RawPacket list) + length (to_retry ?held) \<le>
        length (filter is_iter [Iter 5001 :: addr event])"
    and r3: "\<not> uncaught (data_pkt 0, Inl V9TemplateNotRecognized)"
    unfolding held by simp_all
  from p1 [THEN conjunct2, THEN conjunct2, THEN spec, THEN mp, OF run]
  have c2: "\<exists>evs1 now' evs2 rest'. [Iter 5001] = evs1 @ Iter now' # evs2 \<and>
      input (run_events sample_parse_packet evs1 ?fresh) = data_pkt 0 # rest' \<and>
      (data_pkt 0, fst (sample_parse_packet (data (data_pkt 0))
         (templates (run_events sample_parse_packet evs1 ?fresh)))) \<in>
        set (attempts sample_parse_packet [Iter 5001] ?fresh)"
    by blast
  have h2: "status ?fresh = Running \<and> \<not> shutdown ?fresh \<and> input ?fresh = data_pkt 0 # [] \<and>
      fst (sample_parse_packet (data (data_pkt 0)) (templates ?fresh)) = Inl V9TemplateNotRecognized \<and>
      (V9TemplateNotRecognized = V9TemplateNotRecognized \<or>
       V9TemplateNotRecognized = IPFIXTemplateNotRecognized) \<and>
      5001 - RawPacket.ts (data_pkt 0) > PACKET_TIMEOUT"
    by (simp add: defs)
  have out: "output_q ?fresh =
      [\<lparr>ParsedPacket.ts = 5000, client = exporter, export = sample_export 9 True [0, 7]\<rparr>]"
    by (simp add: defs)
  have h2': "data_pkt 0 \<notin> set [] \<union> set (to_retry ?fresh) \<union> set (arrivals ?later)"
    unfolding c1 by (simp add: defs)
  note p2 = part2 [OF h2]
  have c3: "input ?gone = []" "to_retry ?gone = []" "output_q ?gone =
      [\<lparr>ParsedPacket.ts = 5000, client = exporter, export = sample_export 9 True [0, 7]\<rparr>]"
    using p2 [THEN conjunct1] p2 [THEN conjunct2, THEN conjunct1]
      p2 [THEN conjunct2, THEN conjunct2, THEN conjunct1]
    unfolding c1 out by simp_all
  have c4: "data_pkt 0 \<notin> fst ` set (attempts sample_parse_packet ?later ?gone)"
    using p2 [THEN conjunct2, THEN conjunct2, THEN conjunct2, THEN spec, THEN mp, OF h2']
    by (rule conjunct1)
  have c5: "output_q (run_events sample_parse_packet ?later ?gone) =
     [\<lparr>ParsedPacket.ts = 5000, client = exporter, export = sample_export 9 True [0, 7]\<rparr>,
      \<lparr>ParsedPacket.ts = 5003, client = exporter, export = sample_export 9 True [0, 42]\<rparr>]"
    by (simp add: defs)
  have init: "to_retry ?other = [data_pkt 0]"
    by (simp add: defs)
  have ev: "attempts sample_parse_packet [Iter 9001, Iter 9002] ?other =
      [(v5_pkt 9000, Inr (sample_export 5 False []))]"
    by (simp add: defs)
  have quiet: "\<not> new_template_event (v5_pkt 9000, Inr (sample_export 5 False []))"
    by (simp add: sample_export_def)
  have age: "9002 - RawPacket.ts (data_pkt 0) > PACKET_TIMEOUT"
    by (simp add: data_pkt_def PACKET_TIMEOUT_def)
  have h3: "\<forall>a \<in> set (attempts sample_parse_packet [Iter 9001, Iter 9002] ?other).
      \<not> new_template_event a"
    unfolding ev using quiet by simp
  have c6: "\<exists>more. to_retry (run_events sample_parse_packet [Iter 9001, Iter 9002] ?other) =
      to_retry ?other @ more"
    using h3 by (rule part3)
  have h2a: "status ?fresh = Running \<and> \<not> shutdown ?fresh \<and>
      fst (sample_parse_packet (data (data_pkt 0)) (templates ?fresh)) = Inl V9TemplateNotRecognized \<and>
      (V9TemplateNotRecognized = V9TemplateNotRecognized \<or>
       V9TemplateNotRecognized = IPFIXTemplateNotRecognized) \<and>
      5001 - RawPacket.ts (data_pkt 0) > PACKET_TIMEOUT"
    using h2 by blast
  let ?known = "run_events sample_parse_packet [Iter 10, Iter 5000]
      (started [data_pkt 0, template_pkt 5000])"
  have h4: "status ?known = Running \<and> \<not> shutdown ?known \<and> input ?known = data_pkt 0 # [] \<and>
      fst (sample_parse_packet (data (data_pkt 0)) (templates ?known)) =
        Inr (sample_export 9 False [1, 42])"
    by (simp add: defs)
  have age4: "6000 - RawPacket.ts (data_pkt 0) > PACKET_TIMEOUT"
    by (simp add: data_pkt_def PACKET_TIMEOUT_def)
  have out4: "output_q ?known =
      [\<lparr>ParsedPacket.ts = 5000, client = exporter, export = sample_export 9 True [0, 42]\<rparr>]"
    by (simp add: defs)
  have c7: "output_q (step sample_parse_packet (Iter 6000) ?known) =
     [\<lparr>ParsedPacket.ts = 5000, client = exporter, export = sample_export 9 True [0, 42]\<rparr>,
      \<lparr>ParsedPacket.ts = 0, client = exporter, export = sample_export 9 False [1, 42]\<rparr>]"
    using part4 [OF h4] unfolding out4 by (simp add: data_pkt_def)
  show ?thesis
    unfolding unf
    by (intro conjI h1 [THEN conjunct1] c1 r1 r2 at r3 c2 h2a h2' c3 c4 c5 init ev quiet age
        c6 [unfolded init] age4 c7)
      (use h1 h2a h4 in blast)+
qed

section \<open>A held packet and its template\<close>

text \<open>
  Claim C4, as stated: once the template \<open>T\<close> is known, the held packet is emitted
  exactly once. The retry list is put back on the input queue only in a pass that
  decodes a version 9 or IPFIX export with new templates. A decoder that updates the
  templates in place can store the definition of \<open>T\<close> and then raise the
  template-not-recognized exception for another record of the same datagram; no
  export is returned, so no retry pass starts. With the second sample decoder, which
  meets the two conditions on a decoder that the theorem below asks for: the data
  packet that refers to template 42 is held; the next datagram defines 42 and refers
  to the unknown template 7, so it is held too and 42 is known from then on; the loop
  keeps running and decodes a version 5 packet; the data packet would decode now, but
  it stays in the retry list and is not on the output queue.
\<close>

theorem held_packet_counterexample:
  "sample_refers2 (data (data_pkt 0)) 42 \<and> \<not> sample_defines2 (data (data_pkt 0)) 42 \<and>
   sample_defines2 (data (mixed_pkt 5)) 42 \<and>
   \<not> sample_knows (templates (started [data_pkt 0, mixed_pkt 5])) 42 \<and>
   attempts sample_parse_packet2
     [Iter 1, Iter 6, Iter 7, Datagram 8 exporter [0, 5], Iter 9, Iter 10]
     (started [data_pkt 0, mixed_pkt 5]) =
     [(data_pkt 0, Inl V9TemplateNotRecognized), (mixed_pkt 5, Inl V9TemplateNotRecognized),
      (v5_pkt 8, Inr (sample_export 5 False []))] \<and>
   sample_knows (templates (run_events sample_parse_packet2 [Iter 1, Iter 6]
     (started [data_pkt 0, mixed_pkt 5]))) 42 \<and>
   status (run_events sample_parse_packet2
     [Iter 1, Iter 6, Iter 7, Datagram 8 exporter [0, 5], Iter 9, Iter 10]
     (started [data_pkt 0, mixed_pkt 5])) = Running \<and>
   \<not> shutdown (run_events sample_parse_packet2
     [Iter 1, Iter 6, Iter 7, Datagram 8 exporter [0, 5], Iter 9, Iter 10]
     (started [data_pkt 0, mixed_pkt 5])) \<and>
   input (run_events sample_parse_packet2
     [Iter 1, Iter 6, Iter 7, Datagram 8 exporter [0, 5], Iter 9, Iter 10]
     (started [data_pkt 0, mixed_pkt 5])) = [] \<and>
   to_retry (run_events sample_parse_packet2
     [Iter 1, Iter 6, Iter 7, Datagram 8 exporter [0, 5], Iter 9, Iter 10]
     (started [data_pkt 0, mixed_pkt 5])) = [data_pkt 0, mixed_pkt 5] \<and>
   output_q (run_events sample_parse_packet2
     [Iter 1, Iter 6, Iter 7, Datagram 8 exporter [0, 5], Iter 9, Iter 10]
     (started [data_pkt 0, mixed_pkt 5])) =
     [\<lparr>ParsedPacket.ts = 8, client = exporter, export = sample_export 5 False []\<rparr>] \<and>
   fst (sample_parse_packet2 (data (data_pkt 0))
     (templates (run_events sample_parse_packet2
       [Iter 1, Iter 6, Iter 7, Datagram 8 exporter [0, 5], Iter 9, Iter 10]
       (started [data_pkt 0, mixed_pkt 5])))) = Inr (sample_export 9 False [1, 42])"
  by (simp add: sample_defs run_defs sample_parse_packet2_def mixed_pkt_def sample_knows_def
      sample_refers2_def sample_defines2_def sample_refers_def sample_defines_def)

text \<open>
  Claim C4, amended. The decoder is a parameter; of it the theorem asks what the
  decoder contract says about a template \<open>T\<close>: a datagram that refers to \<open>T\<close> decodes
  only when the templates know \<open>T\<close> after the call, and the templates come to know
  \<open>T\<close> only by decoding a datagram that defines it. Let the packet \<open>p\<close> refer to \<open>T\<close>
  and not define it. In every run, what is put on the output queue is what the
  attempts that decode put there, in their order; "\<open>p\<close> is emitted" is an attempt on
  \<open>p\<close> that decodes.

  In every run from a state in which \<open>T\<close> is not known (as at a first attempt that
  fails), an attempt that decodes \<open>p\<close> comes after an attempt on a packet that defines
  \<open>T\<close>, and \<open>p\<close> is not emitted in a run without such an attempt. In every run \<open>p\<close>
  is emitted at most as many times as it is in the input queue and the retry list at
  the start plus the times it is received: there is no duplication across retry
  passes. It is emitted exactly once, and its \<^verbatim>\<open>ParsedPacket\<close> is on the output queue,
  when it is held once and neither queued nor received besides, the packet at the
  head of the input queue decodes with new templates, and the continuation has no
  call of \<^verbatim>\<open>stop\<close>, no uncaught exception, at least as many passes as there are
  packets in the queue up to \<open>p\<close>, and the decoder accepts \<open>p\<close> when it is attempted
  again. That \<open>T\<close> is known is not enough: in a run without a new-template event a
  held packet that is neither queued nor received again is not emitted and stays in
  the retry list.
\<close>

theorem retry_correctness:
  fixes parse_packet :: "('k, 'v, 'f) decoder" and p :: "'c RawPacket"
  assumes "\<forall>d tpl ex. fst (parse_packet d tpl) = Inr ex \<and> refers d T \<longrightarrow>
             known (snd (parse_packet d tpl)) T"
    and "\<forall>d tpl. known (snd (parse_packet d tpl)) T \<longrightarrow> known tpl T \<or> defined_in d T"
    and "refers (data p) T" and "\<not> defined_in (data p) T"
  shows
    "(\<forall>(s :: ('c, 'k, 'v, 'f) listener) evs.
        output_q (run_events parse_packet evs s) =
          output_q s @ concat (map emitted_of (attempts parse_packet evs s))) \<and>
     (\<forall>(s :: ('c, 'k, 'v, 'f) listener) evs xs ex ys.
        \<not> known (templates s) T \<and> attempts parse_packet evs s = xs @ (p, Inr ex) # ys \<longrightarrow>
        (\<exists>q \<in> fst ` set xs. defined_in (data q) T)) \<and>
     (\<forall>(s :: ('c, 'k, 'v, 'f) listener) evs.
        \<not> known (templates s) T \<and>
        (\<forall>a \<in> set (attempts parse_packet evs s). \<not> defined_in (data (fst a)) T) \<longrightarrow>
        p \<notin> set (emitted_packets parse_packet evs s)) \<and>
     (\<forall>(s :: ('c, 'k, 'v, 'f) listener) evs.
        count (mset (emitted_packets parse_packet evs s)) p \<le>
          count (mset (input s) + mset (to_retry s) + mset (arrivals evs)) p) \<and>
     (\<forall>(s :: ('c, 'k, 'v, 'f) listener) q rest exq now evs.
        status s = Running \<and> \<not> shutdown s \<and> input s = q # rest \<and> p \<in> set (to_retry s) \<and>
        fst (parse_packet (data q) (templates s)) = Inr exq \<and> new_template_event (q, Inr exq) \<and>
        (\<forall>e \<in> set evs. \<not> is_stop e) \<and>
        length rest + length (to_retry s) \<le> length (filter is_iter evs) \<and>
        (\<forall>a \<in> set (attempts parse_packet evs (step parse_packet (Iter now) s)). \<not> uncaught a) \<and>
        (\<forall>a \<in> set (attempts parse_packet evs (step parse_packet (Iter now) s)).
           fst a = p \<longrightarrow> \<not> isl (snd a)) \<and>
        count (mset (input s) + mset (to_retry s) + mset (arrivals evs)) p = 1 \<longrightarrow>
        count (mset (emitted_packets parse_packet (Iter now # evs) s)) p = 1 \<and>
        (\<exists>ex. (p, Inr ex) \<in> set (attempts parse_packet (Iter now # evs) s) \<and>
           \<lparr>ParsedPacket.ts = RawPacket.ts p, client = RawPacket.client p, export = ex\<rparr> \<in>
             set (output_q (run_events parse_packet (Iter now # evs) s)))) \<and>
     (\<forall>(s :: ('c, 'k, 'v, 'f) listener) evs.
        p \<in> set (to_retry s) \<and> p \<notin> set (input s) \<union> set (arrivals evs) \<and>
        (\<forall>a \<in> set (attempts parse_packet evs s). \<not> new_template_event a) \<longrightarrow>
        p \<notin> set (emitted_packets parse_packet evs s) \<and>
        p \<in> set (to_retry (run_events parse_packet evs s)))"
proof (intro conjI)
  have needs: "known (snd (parse_packet d tpl)) T"
    if "fst (parse_packet d tpl) = Inr ex" and "refers d T" for d tpl ex
    using that assms(1) by blast
  have learns: "known tpl T \<or> defined_in d T"
    if "known (snd (parse_packet d tpl)) T" for d tpl
    using that assms(2) by blast
  show "\<forall>(s :: ('c, 'k, 'v, 'f) listener) evs.
        output_q (run_events parse_packet evs s) =
          output_q s @ concat (map emitted_of (attempts parse_packet evs s))"
    by (intro allI) (rule output_q_run_events)
  show "\<forall>(s :: ('c, 'k, 'v, 'f) listener) evs xs ex ys.
        \<not> known (templates s) T \<and> attempts parse_packet evs s = xs @ (p, Inr ex) # ys \<longrightarrow>
        (\<exists>q \<in> fst ` set xs. defined_in (data q) T)"
  proof (intro allI impI)
    fix s :: "('c, 'k, 'v, 'f) listener" and evs xs ex ys
    assume "\<not> known (templates s) T \<and> attempts parse_packet evs s = xs @ (p, Inr ex) # ys"
    then have h: "\<not> known (templates s) T" "attempts parse_packet evs s = xs @ (p, Inr ex) # ys"
      by blast+
    show "\<exists>q \<in> fst ` set xs. defined_in (data q) T"
      by (rule not_before_definition
          [where parse_packet = parse_packet and known = known and refers = refers
              and defined_in = defined_in and T = T,
            OF needs learns assms(3) assms(4) h])
  qed
  show "\<forall>(s :: ('c, 'k, 'v, 'f) listener) evs.
        \<not> known (templates s) T \<and>
        (\<forall>a \<in> set (attempts parse_packet evs s). \<not> defined_in (data (fst a)) T) \<longrightarrow>
        p \<notin> set (emitted_packets parse_packet evs s)"
  proof (intro allI impI)
    fix s :: "('c, 'k, 'v, 'f) listener" and evs
    assume "\<not> known (templates s) T \<and>
        (\<forall>a \<in> set (attempts parse_packet evs s). \<not> defined_in (data (fst a)) T)"
    then have h: "\<not> known (templates s) T"
      "\<forall>a \<in> set (attempts parse_packet evs s). \<not> defined_in (data (fst a)) T"
      by blast+
    show "p \<notin> set (emitted_packets parse_packet evs s)"
      by (rule not_emitted_before_definition
          [where parse_packet = parse_packet and known = known and refers = refers
              and defined_in = defined_in and T = T,
            OF needs learns assms(3) assms(4) h])
  qed
  show "\<forall>(s :: ('c, 'k, 'v, 'f) listener) evs.
        count (mset (emitted_packets parse_packet evs s)) p \<le>
          count (mset (input s) + mset (to_retry s) + mset (arrivals evs)) p"
    by (intro allI) (rule emitted_count_le)
  show "\<forall>(s :: ('c, 'k, 'v, 'f) listener) q rest exq now evs.
        status s = Running \<and> \<not> shutdown s \<and> input s = q # rest \<and> p \<in> set (to_retry s) \<and>
        fst (parse_packet (data q) (templates s)) = Inr exq \<and> new_template_event (q, Inr exq) \<and>
        (\<forall>e \<in> set evs. \<not> is_stop e) \<and>
        length rest + length (to_retry s) \<le> length (filter is_iter evs) \<and>
        (\<forall>a \<in> set (attempts parse_packet evs (step parse_packet (Iter now) s)). \<not> uncaught a) \<and>
        (\<forall>a \<in> set (attempts parse_packet evs (step parse_packet (Iter now) s)).
           fst a = p \<longrightarrow> \<not> isl (snd a)) \<and>
        count (mset (input s) + mset (to_retry s) + mset (arrivals evs)) p = 1 \<longrightarrow>
        count (mset (emitted_packets parse_packet (Iter now # evs) s)) p = 1 \<and>
        (\<exists>ex. (p, Inr ex) \<in> set (attempts parse_packet (Iter now # evs) s) \<and>
           \<lparr>ParsedPacket.ts = RawPacket.ts p, client = RawPacket.client p, export = ex\<rparr> \<in>
             set (output_q (run_events parse_packet (Iter now # evs) s)))"
  proof (intro allI impI)
    fix s :: "('c, 'k, 'v, 'f) listener" and q rest exq now evs
    assume "status s = Running \<and> \<not> shutdown s \<and> input s = q # rest \<and> p \<in> set (to_retry s) \<and>
        fst (parse_packet (data q) (templates s)) = Inr exq \<and> new_template_event (q, Inr exq) \<and>
        (\<forall>e \<in> set evs. \<not> is_stop e) \<and>
        length rest + length (to_retry s) \<le> length (filter is_iter evs) \<and>
        (\<forall>a \<in> set (attempts parse_packet evs (step parse_packet (Iter now) s)). \<not> uncaught a) \<and>
        (\<forall>a \<in> set (attempts parse_packet evs (step parse_packet (Iter now) s)).
           fst a = p \<longrightarrow> \<not> isl (snd a)) \<and>
        count (mset (input s) + mset (to_retry s) + mset (arrivals evs)) p = 1"
    then have h: "status s = Running" "\<not> shutdown s" "input s = q # rest"
      "fst (parse_packet (data q) (templates s)) = Inr exq" "new_template_event (q, Inr exq)"
      "p \<in> set (to_retry s)"
      "\<forall>e \<in> set evs. \<not> is_stop e"
      "length rest + length (to_retry s) \<le> length (filter is_iter evs)"
      "\<forall>a \<in> set (attempts parse_packet evs (step parse_packet (Iter now) s)). \<not> uncaught a"
      "\<forall>a \<in> set (attempts parse_packet evs (step parse_packet (Iter now) s)).
         fst a = p \<longrightarrow> \<not> isl (snd a)"
      "count (mset (input s) + mset (to_retry s) + mset (arrivals evs)) p = 1"
      by blast+
    note once = emitted_exactly_once [where parse_packet = parse_packet, OF h]
    show "count (mset (emitted_packets parse_packet (Iter now # evs) s)) p = 1 \<and>
        (\<exists>ex. (p, Inr ex) \<in> set (attempts parse_packet (Iter now # evs) s) \<and>
           \<lparr>ParsedPacket.ts = RawPacket.ts p, client = RawPacket.client p, export = ex\<rparr> \<in>
             set (output_q (run_events parse_packet (Iter now # evs) s)))"
      using once by (rule conjI)
  qed
  show "\<forall>(s :: ('c, 'k, 'v, 'f) listener) evs.
        p \<in> set (to_retry s) \<and> p \<notin> set (input s) \<union> set (arrivals evs) \<and>
        (\<forall>a \<in> set (attempts parse_packet evs s). \<not> new_template_event a) \<longrightarrow>
        p \<notin> set (emitted_packets parse_packet evs s) \<and>
        p \<in> set (to_retry (run_events parse_packet evs s))"
  proof (intro allI impI)
    fix s :: "('c, 'k, 'v, 'f) listener" and evs
    assume "p \<in> set (to_retry s) \<and> p \<notin> set (input s) \<union> set (arrivals evs) \<and>
        (\<forall>a \<in> set (attempts parse_packet evs s). \<not> new_template_event a)"
    then have h: "p \<in> set (to_retry s)" "p \<notin> set (input s) \<union> set (arrivals evs)"
      "\<forall>a \<in> set (attempts parse_packet evs s). \<not> new_template_event a"
      by blast+
    note held = held_without_event [where parse_packet = parse_packet, OF h]
    show "p \<notin> set (emitted_packets parse_packet evs s) \<and>
        p \<in> set (to_retry (run_events parse_packet evs s))"
      using held(2,3) by (rule conjI)
  qed
qed

theorem retry_correctness_witness:
  "sample_refers (data (data_pkt 0)) 42 \<and> \<not> sample_defines (data (data_pkt 0)) 42 \<and>
   \<not> sample_knows (templates (started [data_pkt 0, template_pkt 5])) 42 \<and>
   attempts sample_parse_packet [Iter 1, Iter 6, Iter 7] (started [data_pkt 0, template_pkt 5]) =
     [(data_pkt 0, Inl V9TemplateNotRecognized),
      (template_pkt 5, Inr (sample_export 9 True [0, 42]))] @
     (data_pkt 0, Inr (sample_export 9 False [1, 42])) # [] \<and>
   (\<exists>q \<in> fst ` set [(data_pkt 0, Inl V9TemplateNotRecognized),
      (template_pkt 5, Inr (sample_export 9 True [0, 42]))]. sample_defines (data q) 42) \<and>
   output_q (run_events sample_parse_packet [Iter 1, Iter 6, Iter 7]
     (started [data_pkt 0, template_pkt 5])) =
     [\<lparr>ParsedPacket.ts = 5, client = exporter, export = sample_export 9 True [0, 42]\<rparr>,
      \<lparr>ParsedPacket.ts = 0, client = exporter, export = sample_export 9 False [1, 42]\<rparr>] \<and>
   \<not> sample_knows (templates (started [data_pkt 0, other_template_pkt 5])) 42 \<and>
   attempts sample_parse_packet [Iter 1, Iter 6, Iter 7]
     (started [data_pkt 0, other_template_pkt 5]) =
     [(data_pkt 0, Inl V9TemplateNotRecognized),
      (other_template_pkt 5, Inr (sample_export 9 True [0, 7])),
      (data_pkt 0, Inl V9TemplateNotRecognized)] \<and>
   \<not> sample_defines (data (other_template_pkt 5)) 42 \<and>
   data_pkt 0 \<notin> set (emitted_packets sample_parse_packet [Iter 1, Iter 6, Iter 7]
     (started [data_pkt 0, other_template_pkt 5])) \<and>
   count (mset (emitted_packets sample_parse_packet [Iter 1, Iter 6, Iter 7]
     (started [data_pkt 0, template_pkt 5]))) (data_pkt 0) \<le>
     count (mset (input (started [data_pkt 0, template_pkt 5])) +
       mset (to_retry (started [data_pkt 0, template_pkt 5])) +
       mset (arrivals [Iter 1, Iter 6, Iter 7])) (data_pkt 0) \<and>
   status (step sample_parse_packet (Iter 1) (started [data_pkt 0, template_pkt 5])) = Running \<and>
   \<not> shutdown (step sample_parse_packet (Iter 1) (started [data_pkt 0, template_pkt 5])) \<and>
   input (step sample_parse_packet (Iter 1) (started [data_pkt 0, template_pkt 5])) =
     template_pkt 5 # [] \<and>
   data_pkt 0 \<in> set (to_retry (step sample_parse_packet (Iter 1)
     (started [data_pkt 0, template_pkt 5]))) \<and>
   fst (sample_parse_packet (data (template_pkt 5))
     (templates (step sample_parse_packet (Iter 1) (started [data_pkt 0, template_pkt 5])))) =
     Inr (sample_export 9 True [0, 42]) \<and>
   new_template_event (template_pkt 5, Inr (sample_export 9 True [0, 42])) \<and>
   \<not> is_stop (Iter 7 :: addr event) \<and>
   length ([] :: addr RawPacket list) +
     length (to_retry (step sample_parse_packet (Iter 1)
       (started [data_pkt 0, template_pkt 5]))) \<le>
     length (filter is_iter [Iter 7 :: addr event]) \<and>
   attempts sample_parse_packet [Iter 7]
     (step sample_parse_packet (Iter 6)
       (step sample_parse_packet (Iter 1) (started [data_pkt 0, template_pkt 5]))) =
     [(data_pkt 0, Inr (sample_export 9 False [1, 42]))] \<and>
   \<not> uncaught (data_pkt 0, Inr (sample_export 9 False [1, 42])) \<and>
   \<not> isl (Inr (sample_export 9 False [1, 42]) :: exn + bytes ExportPacket) \<and>
   count (mset (input (step sample_parse_packet (Iter 1)
       (started [data_pkt 0, template_pkt 5]))) +
     mset (to_retry (step sample_parse_packet (Iter 1)
       (started [data_pkt 0, template_pkt 5]))) +
     mset (arrivals [Iter 7 :: addr event])) (data_pkt 0) = 1 \<and>
   count (mset (emitted_packets sample_parse_packet [Iter 6, Iter 7]
     (step sample_parse_packet (Iter 1) (started [data_pkt 0, template_pkt 5]))))
     (data_pkt 0) = 1 \<and>
   (\<exists>ex. (data_pkt 0, Inr ex) \<in> set (attempts sample_parse_packet [Iter 6, Iter 7]
        (step sample_parse_packet (Iter 1) (started [data_pkt 0, template_pkt 5]))) \<and>
      \<lparr>ParsedPacket.ts = RawPacket.ts (data_pkt 0), client = RawPacket.client (data_pkt 0),
        export = ex\<rparr> \<in>
        set (output_q (run_events sample_parse_packet [Iter 6, Iter 7]
          (step sample_parse_packet (Iter 1) (started [data_pkt 0, template_pkt 5]))))) \<and>
   data_pkt 0 \<in> set (to_retry (step sample_parse_packet (Iter 1)
     (started [data_pkt 0, v5_pkt 9000]))) \<and>
   data_pkt 0 \<notin> set (input (step sample_parse_packet (Iter 1)
       (started [data_pkt 0, v5_pkt 9000]))) \<union>
     set (arrivals [Iter 9001 :: addr event, Iter 9002]) \<and>
   attempts sample_parse_packet [Iter 9001, Iter 9002]
     (step sample_parse_packet (Iter 1) (started [data_pkt 0, v5_pkt 9000])) =
     [(v5_pkt 9000, Inr (sample_export 5 False []))] \<and>
   \<not> new_template_event (v5_pkt 9000, Inr (sample_export 5 False [])) \<and>
   data_pkt 0 \<notin> set (emitted_packets sample_parse_packet [Iter 9001, Iter 9002]
     (step sample_parse_packet (Iter 1) (started [data_pkt 0, v5_pkt 9000]))) \<and>
   data_pkt 0 \<in> set (to_retry (run_events sample_parse_packet [Iter 9001, Iter 9002]
     (step sample_parse_packet (Iter 1) (started [data_pkt 0, v5_pkt 9000]))))"
proof -
  let ?init = "started [data_pkt 0, template_pkt 5]"
  let ?hold = "step sample_parse_packet (Iter 1) ?init"
  let ?other = "started [data_pkt 0, other_template_pkt 5]"
  let ?quiet = "step sample_parse_packet (Iter 1) (started [data_pkt 0, v5_pkt 9000])"
  let ?xs = "[(data_pkt 0, Inl V9TemplateNotRecognized),
      (template_pkt 5, Inr (sample_export 9 True [0, 42 :: byte]))]"
  let ?ex = "sample_export 9 False [1, 42 :: byte]"
  let ?exq = "sample_export 9 True [0, 42 :: byte]"
  note defs = sample_defs run_defs other_template_pkt_def
  have r: "sample_refers (data (data_pkt 0)) 42"
    and nd: "\<not> sample_defines (data (data_pkt 0)) 42"
    and nd2: "\<not> sample_defines (data (other_template_pkt 5)) 42"
    by (simp_all add: sample_refers_def sample_defines_def data_pkt_def other_template_pkt_def)
  have needs: "\<forall>d tpl ex. fst (sample_parse_packet d tpl) = Inr ex \<and> sample_refers d 42 \<longrightarrow>
      sample_knows (snd (sample_parse_packet d tpl)) 42"
    using sample_needs by blast
  have learns: "\<forall>d tpl. sample_knows (snd (sample_parse_packet d tpl)) 42 \<longrightarrow>
      sample_knows tpl 42 \<or> sample_defines d 42"
    using sample_learns by blast
  note all = retry_correctness [where parse_packet = sample_parse_packet
      and known = sample_knows and refers = sample_refers and defined_in = sample_defines
      and T = 42 and p = "data_pkt 0", OF needs learns r nd]
  note part0 = all [THEN conjunct1, THEN spec, THEN spec]
  note part1 = all [THEN conjunct2, THEN conjunct1, THEN spec, THEN spec, THEN spec, THEN spec,
      THEN spec, THEN mp]
  note part2 = all [THEN conjunct2, THEN conjunct2, THEN conjunct1, THEN spec, THEN spec, THEN mp]
  note part3 = all [THEN conjunct2, THEN conjunct2, THEN conjunct2, THEN conjunct1,
      THEN spec, THEN spec]
  note part4 = all [THEN conjunct2, THEN conjunct2, THEN conjunct2, THEN conjunct2, THEN conjunct1,
      THEN spec [where x = "step sample_parse_packet (Iter 1) (started [data_pkt 0, template_pkt 5])"],
      THEN spec [where x = "template_pkt 5"], THEN spec [where x = "[]"],
      THEN spec [where x = "sample_export 9 True [0, 42]"], THEN spec [where x = 6],
      THEN spec [where x = "[Iter 7]"], THEN mp]
  note part5 = all [THEN conjunct2, THEN conjunct2, THEN conjunct2, THEN conjunct2, THEN conjunct2,
      THEN spec, THEN spec, THEN mp]
  have nk: "\<not> sample_knows (templates ?init) 42"
    by (simp add: sample_knows_def started_def init_listener_def)
  have at: "attempts sample_parse_packet [Iter 1, Iter 6, Iter 7] ?init =
      ?xs @ (data_pkt 0, Inr ?ex) # []"
    by (simp add: defs)
  have c1: "\<exists>q \<in> fst ` set ?xs. sample_defines (data q) 42"
    using nk at by (intro part1 conjI)
  have c0: "output_q (run_events sample_parse_packet [Iter 1, Iter 6, Iter 7] ?init) =
     [\<lparr>ParsedPacket.ts = 5, client = exporter, export = sample_export 9 True [0, 42]\<rparr>,
      \<lparr>ParsedPacket.ts = 0, client = exporter, export = sample_export 9 False [1, 42]\<rparr>]"
    unfolding part0 [of "[Iter 1, Iter 6, Iter 7]" ?init] at by (simp add: defs)
  have nk2: "\<not> sample_knows (templates ?other) 42"
    by (simp add: sample_knows_def started_def init_listener_def)
  have at2: "attempts sample_parse_packet [Iter 1, Iter 6, Iter 7] ?other =
     [(data_pkt 0, Inl V9TemplateNotRecognized),
      (other_template_pkt 5, Inr (sample_export 9 True [0, 7])),
      (data_pkt 0, Inl V9TemplateNotRecognized)]"
    by (simp add: defs)
  have h2: "\<not> sample_knows (templates ?other) 42 \<and>
      (\<forall>a \<in> set (attempts sample_parse_packet [Iter 1, Iter 6, Iter 7] ?other).
         \<not> sample_defines (data (fst a)) 42)"
    unfolding at2 using nk2 nd nd2 by simp
  have c2: "data_pkt 0 \<notin> set (emitted_packets sample_parse_packet [Iter 1, Iter 6, Iter 7] ?other)"
    using h2 by (rule part2)
  have c3: "count (mset (emitted_packets sample_parse_packet [Iter 1, Iter 6, Iter 7] ?init))
        (data_pkt 0) \<le>
      count (mset (input ?init) + mset (to_retry ?init) + mset (arrivals [Iter 1, Iter 6, Iter 7]))
        (data_pkt 0)"
    by (rule part3)
  have h: "status ?hold = Running" "\<not> shutdown ?hold" "input ?hold = template_pkt 5 # []"
    "data_pkt 0 \<in> set (to_retry ?hold)"
    "fst (sample_parse_packet (data (template_pkt 5)) (templates ?hold)) = Inr ?exq"
    "new_template_event (template_pkt 5, Inr ?exq)"
    by (simp_all add: defs)
  have held: "to_retry ?hold = [data_pkt 0]"
    by (simp add: defs)
  have run: "\<not> is_stop (Iter 7 :: addr event)"
    "length ([] :: addr RawPacket list) + length (to_retry ?hold) \<le>
       length (filter is_iter [Iter 7 :: addr event])"
    unfolding held by simp_all
  have at3: "attempts sample_parse_packet [Iter 7] (step sample_parse_packet (Iter 6) ?hold) =
      [(data_pkt 0, Inr ?ex)]"
    by (simp add: defs)
  have ok: "\<not> uncaught (data_pkt 0, Inr ?ex)"
    "\<not> isl (Inr ?ex :: exn + bytes ExportPacket)"
    by simp_all
  have cnt: "count (mset (input ?hold) + mset (to_retry ?hold) +
      mset (arrivals [Iter 7 :: addr event])) (data_pkt 0) = 1"
    by (simp add: defs)
  have h4: "status ?hold = Running \<and> \<not> shutdown ?hold \<and> input ?hold = template_pkt 5 # [] \<and>
      data_pkt 0 \<in> set (to_retry ?hold) \<and>
      fst (sample_parse_packet (data (template_pkt 5)) (templates ?hold)) = Inr ?exq \<and>
      new_template_event (template_pkt 5, Inr ?exq) \<and>
      (\<forall>e \<in> set [Iter 7 :: addr event]. \<not> is_stop e) \<and>
      length ([] :: addr RawPacket list) + length (to_retry ?hold) \<le>
        length (filter is_iter [Iter 7 :: addr event]) \<and>
      (\<forall>a \<in> set (attempts sample_parse_packet [Iter 7]
          (step sample_parse_packet (Iter 6) ?hold)). \<not> uncaught a) \<and>
      (\<forall>a \<in> set (attempts sample_parse_packet [Iter 7]
          (step sample_parse_packet (Iter 6) ?hold)).
         fst a = data_pkt 0 \<longrightarrow> \<not> isl (snd a)) \<and>
      count (mset (input ?hold) + mset (to_retry ?hold) +
        mset (arrivals [Iter 7 :: addr event])) (data_pkt 0) = 1"
    unfolding at3 using h run cnt by simp
  note c4 = part4 [OF h4]
  have q: "data_pkt 0 \<in> set (to_retry ?quiet)"
    "data_pkt 0 \<notin> set (input ?quiet) \<union> set (arrivals [Iter 9001 :: addr event, Iter 9002])"
    by (simp_all add: defs)
  have ev: "attempts sample_parse_packet [Iter 9001, Iter 9002] ?quiet =
      [(v5_pkt 9000, Inr (sample_export 5 False []))]"
    by (simp add: defs)
  have ne: "\<not> new_template_event (v5_pkt 9000, Inr (sample_export 5 False []))"
    by (simp add: sample_export_def)
  have h5: "data_pkt 0 \<in> set (to_retry ?quiet) \<and>
      data_pkt 0 \<notin> set (input ?quiet) \<union> set (arrivals [Iter 9001 :: addr event, Iter 9002]) \<and>
      (\<forall>a \<in> set (attempts sample_parse_packet [Iter 9001, Iter 9002] ?quiet).
         \<not> new_template_event a)"
    unfolding ev using q ne by simp
  note c5 = part5 [OF h5]
  show ?thesis
    by (intro conjI r nd nk at c1 c0 nk2 at2 nd2 c2 c3 h run at3 ok cnt
        c4 [THEN conjunct1] c4 [THEN conjunct2] q ev ne c5 [THEN conjunct1] c5 [THEN conjunct2])
qed

end
